theory Spec2Isabelle
  imports Complex_Main "HOL-Library.AList"
begin

section \<open>Transportation optimisation: model building, solving and extraction\<close>

text \<open>
  A shallow embedding of \<^verbatim>\<open>src/distribution_optimizer.py\<close>: the route filter
  \<^verbatim>\<open>_get_valid_routes\<close>, the shared \<^verbatim>\<open>_add_constraints\<close>, the two builders
  \<^verbatim>\<open>build_cost_model\<close> and \<^verbatim>\<open>build_time_model\<close>, and \<^verbatim>\<open>solve\<close> with its extraction
  loops. Numbers read from the tables and solver values are reals; the fields of
  \<^verbatim>\<open>OptimizationInput\<close> annotated \<^verbatim>\<open>int\<close> are integers. Two things belong to the
  modelling library and not to this repository, and are parameters: the external MILP
  solver, a function from the built program to a status and a value for each variable,
  and the library's translation of constraint names (the parameter \<open>tr\<close>).
\<close>

subsection \<open>Python values: errors, dictionaries, strings, numbers\<close>

text \<open>
  The exceptions of the modelled code; \<open>PulpError\<close> is the one the modelling library raises
  when a constraint is added under a name the program already has.
\<close>

datatype py_error = KeyError | IndexError | ValueError | PulpError

text \<open>
  A Python \<^verbatim>\<open>dict\<close> keeps insertion order: storing under a key that is present replaces the
  value in place, storing under a new key appends. This is \<^const>\<open>AList.update\<close> on an
  association list. \<^verbatim>\<open>{k: v for ...}\<close> and \<^verbatim>\<open>dict(zip(...))\<close> store the pairs from left to right.
\<close>

definition py_dict :: "('k \<times> 'v) list \<Rightarrow> ('k \<times> 'v) list" where
  "py_dict kvs = foldl (\<lambda>d kv. AList.update (fst kv) (snd kv) d) [] kvs"

definition keys :: "('k \<times> 'v) list \<Rightarrow> 'k list" where
  "keys d = map fst d"

definition getitem :: "('k \<times> 'v) list \<Rightarrow> 'k \<Rightarrow> py_error + 'v" where
  "getitem d k = (case map_of d k of None \<Rightarrow> Inl KeyError | Some v \<Rightarrow> Inr v)"

text \<open>A generator or loop whose body may raise: the first error ends it.\<close>

fun mapM :: "('a \<Rightarrow> py_error + 'b) \<Rightarrow> 'a list \<Rightarrow> py_error + 'b list" where
  "mapM f [] = Inr []"
| "mapM f (x # xs) =
     (case f x of
        Inl e \<Rightarrow> Inl e
      | Inr y \<Rightarrow> (case mapM f xs of Inl e \<Rightarrow> Inl e | Inr ys \<Rightarrow> Inr (y # ys)))"

text \<open>
  A \<^verbatim>\<open>str\<close> is modelled by its UTF-8 encoding, one \<open>char\<close> per byte. \<^verbatim>\<open>str.strip()\<close>
  removes from both ends the code points for which \<^verbatim>\<open>str.isspace\<close> holds: U+0009 to
  U+000D, U+001C to U+0020, U+0085, U+00A0, U+1680, U+2000 to U+200A, U+2028, U+2029,
  U+202F, U+205F and U+3000. \<open>py_whitespace\<close> lists their encodings. Each encoding of
  more than one byte starts with a lead byte, so that in an encoded string a match at
  either end is a whole code point.
\<close>

definition py_whitespace :: "string list" where
  "py_whitespace =
     [[CHR 0x09], [CHR 0x0A], [CHR 0x0B], [CHR 0x0C], [CHR 0x0D], [CHR 0x1C],
      [CHR 0x1D], [CHR 0x1E], [CHR 0x1F], [CHR 0x20], [CHR 0xC2, CHR 0x85], [CHR 0xC2, CHR 0xA0],
      [CHR 0xE1, CHR 0x9A, CHR 0x80], [CHR 0xE2, CHR 0x80, CHR 0x80], [CHR 0xE2, CHR 0x80, CHR 0x81],
      [CHR 0xE2, CHR 0x80, CHR 0x82], [CHR 0xE2, CHR 0x80, CHR 0x83], [CHR 0xE2, CHR 0x80, CHR 0x84],
      [CHR 0xE2, CHR 0x80, CHR 0x85], [CHR 0xE2, CHR 0x80, CHR 0x86], [CHR 0xE2, CHR 0x80, CHR 0x87],
      [CHR 0xE2, CHR 0x80, CHR 0x88], [CHR 0xE2, CHR 0x80, CHR 0x89], [CHR 0xE2, CHR 0x80, CHR 0x8A],
      [CHR 0xE2, CHR 0x80, CHR 0xA8], [CHR 0xE2, CHR 0x80, CHR 0xA9], [CHR 0xE2, CHR 0x80, CHR 0xAF],
      [CHR 0xE2, CHR 0x81, CHR 0x9F], [CHR 0xE3, CHR 0x80, CHR 0x80]]"

text \<open>Removing, as long as there is one, a pattern of \<open>ws\<close> from the start of \<open>s\<close>.\<close>

function strip_start :: "string list \<Rightarrow> string \<Rightarrow> string" where
  "strip_start ws s =
     (case find (\<lambda>w. w \<noteq> [] \<and> take (length w) s = w) ws of
        None \<Rightarrow> s
      | Some w \<Rightarrow> strip_start ws (drop (length w) s))"
  by pat_completeness auto

termination
proof (relation "measure (\<lambda>p. length (snd p))")
  show "wf (measure (\<lambda>p. length (snd p)))" by simp
next
  fix ws :: "string list" and s w :: string
  assume "find (\<lambda>w. w \<noteq> [] \<and> take (length w) s = w) ws = Some w"
  then have "w \<noteq> []" and "take (length w) s = w"
    by (auto simp: find_Some_iff)
  then have "s \<noteq> []" by auto
  with \<open>w \<noteq> []\<close> show "((ws, drop (length w) s), (ws, s)) \<in> measure (\<lambda>p. length (snd p))"
    by simp
qed

declare strip_start.simps [simp del]

definition py_lstrip :: "string \<Rightarrow> string" where
  "py_lstrip s = strip_start py_whitespace s"

definition py_rstrip :: "string \<Rightarrow> string" where
  "py_rstrip s = rev (strip_start (map rev py_whitespace) (rev s))"

definition py_strip :: "string \<Rightarrow> string" where
  "py_strip s = py_rstrip (py_lstrip s)"

text \<open>\<^verbatim>\<open>int(x)\<close> on a float truncates toward zero.\<close>

definition py_int :: "real \<Rightarrow> int" where
  "py_int x = (if 0 \<le> x then \<lfloor>x\<rfloor> else \<lceil>x\<rceil>)"

text \<open>\<^verbatim>\<open>max(iterable)\<close>: \<^verbatim>\<open>ValueError\<close> on an empty iterable.\<close>

definition py_max :: "real list \<Rightarrow> py_error + real" where
  "py_max xs = (case xs of [] \<Rightarrow> Inl ValueError | x # rest \<Rightarrow> Inr (foldl max x rest))"

subsection \<open>The catalog tables and the optimisation input\<close>

record warehouse_row =
  warehouse_name :: string
  capacity :: real
  stock_level :: real

record mode_row =
  mode_name :: string
  weight_capacity :: real

text \<open>
  A row of the routes table; \<open>route_mode_name\<close> is the column \<^verbatim>\<open>mode_name\<close> and
  \<open>lead_time\<close> the column \<^verbatim>\<open>lead_time (days)\<close>.
\<close>

record route_row =
  origin :: string
  destination :: string
  route_mode_name :: string
  lead_time :: real
  total_cost :: real

record DataLoader =
  warehouses :: "warehouse_row list"
  modes :: "mode_row list"
  routes :: "route_row list"

text \<open>\<open>max_vehicles\<close> is a \<^verbatim>\<open>Dict[Tuple[str, str], int]\<close>, kept in insertion order.\<close>

record OptimizationInput =
  total_demand :: int
  max_delivery_time :: int
  selected_warehouses :: "string list"
  max_vehicles :: "((string \<times> string) \<times> int) list"

subsection \<open>Linear programs as the code writes them\<close>

datatype lp_var = Shipment string string | Route_Used string string | Max_Delivery_Time

datatype lp_cat = LpContinuous | LpInteger | LpBinary

datatype LpVariable =
  LpVariable (v_name: lp_var) (lowBound: "real option") (upBound: "real option") (cat: lp_cat)

text \<open>
  Affine expressions, built by the operators the source uses: \<open>Scale c e\<close> is the product
  of an expression and a number (\<^verbatim>\<open>shipments[wh, mode] * cost\<close>, \<^verbatim>\<open>M * (1 - route_used[wh, mode])\<close>).
\<close>

datatype lp_expr =
    Var LpVariable
  | Num real
  | Add lp_expr lp_expr
  | Sub lp_expr lp_expr
  | Scale real lp_expr
  | lpSum "lp_expr list"

datatype lp_sense = LE | GE

datatype lp_constraint =
  Constraint (c_name: string) (c_lhs: lp_expr) (c_sense: lp_sense) (c_rhs: lp_expr)

record LpProblem =
  p_name :: string
  objective :: "lp_expr option"
  constraints :: "lp_constraint list"

text \<open>\<^verbatim>\<open>model += expr, name\<close> with an expression sets the objective.\<close>

definition set_objective :: "LpProblem \<Rightarrow> lp_expr \<Rightarrow> LpProblem" where
  "set_objective model e = model\<lparr>objective := Some e\<rparr>"

text \<open>
  \<^verbatim>\<open>model += constraint, name\<close> with a constraint. The library keeps the constraints of a
  program in a dictionary keyed by name. It first rewrites some characters of the name to
  an underscore; the table of these characters is the library's, so the rewriting is the
  parameter \<open>tr\<close>. When the rewritten name is already a key the library raises
  \<^verbatim>\<open>PulpError\<close>; otherwise the constraint is stored after the others. In the model
  \<open>c_name\<close> stays the name the source passes, and the library's key of a stored constraint
  \<open>c\<close> is \<open>tr (c_name c)\<close>.
\<close>

definition add_constraint ::
  "(string \<Rightarrow> string) \<Rightarrow> LpProblem \<Rightarrow> lp_constraint \<Rightarrow> py_error + LpProblem" where
  "add_constraint tr model c =
     (if tr (c_name c) \<in> set (map (\<lambda>d. tr (c_name d)) (constraints model))
      then Inl PulpError
      else Inr (model\<lparr>constraints := constraints model @ [c]\<rparr>))"

text \<open>Adding several constraints one after the other: the first error ends it.\<close>

fun add_all ::
  "(string \<Rightarrow> string) \<Rightarrow> LpProblem \<Rightarrow> lp_constraint list \<Rightarrow> py_error + LpProblem" where
  "add_all tr model [] = Inr model"
| "add_all tr model (c # cs) =
     (case add_constraint tr model c of
        Inl e \<Rightarrow> Inl e
      | Inr model' \<Rightarrow> add_all tr model' cs)"

text \<open>
  A loop \<^verbatim>\<open>for x in xs:\<close> whose body builds constraints from \<open>x\<close> and adds them to the
  program, in this order: the first error, in building or in adding, ends the loop.
\<close>

fun add_each ::
  "(string \<Rightarrow> string) \<Rightarrow> ('a \<Rightarrow> py_error + lp_constraint list) \<Rightarrow> 'a list \<Rightarrow> LpProblem
     \<Rightarrow> py_error + LpProblem" where
  "add_each tr body [] model = Inr model"
| "add_each tr body (x # xs) model =
     (case body x of
        Inl e \<Rightarrow> Inl e
      | Inr cs \<Rightarrow>
          (case add_all tr model cs of
             Inl e \<Rightarrow> Inl e
           | Inr model' \<Rightarrow> add_each tr body xs model'))"

text \<open>\<^verbatim>\<open>LpVariable.dicts(name, keys, lowBound, cat)\<close>: one variable per key, in key order.\<close>

definition LpVariable_dicts ::
  "(string \<Rightarrow> string \<Rightarrow> lp_var) \<Rightarrow> (string \<times> string) list \<Rightarrow> real option \<Rightarrow> real option
     \<Rightarrow> lp_cat \<Rightarrow> ((string \<times> string) \<times> LpVariable) list" where
  "LpVariable_dicts nm ks lo up c = map (\<lambda>k. (k, LpVariable (nm (fst k) (snd k)) lo up c)) ks"

subsubsection \<open>What an assignment of values satisfies\<close>

fun eval :: "(lp_var \<Rightarrow> real) \<Rightarrow> lp_expr \<Rightarrow> real" where
  "eval a (Var v) = a (v_name v)"
| "eval a (Num c) = c"
| "eval a (Add e1 e2) = eval a e1 + eval a e2"
| "eval a (Sub e1 e2) = eval a e1 - eval a e2"
| "eval a (Scale c e) = c * eval a e"
| "eval a (lpSum es) = sum_list (map (eval a) es)"

definition holds :: "(lp_var \<Rightarrow> real) \<Rightarrow> lp_constraint \<Rightarrow> bool" where
  "holds a c =
     (case c_sense c of
        LE \<Rightarrow> eval a (c_lhs c) \<le> eval a (c_rhs c)
      | GE \<Rightarrow> eval a (c_lhs c) \<ge> eval a (c_rhs c))"

definition is_integral :: "real \<Rightarrow> bool" where
  "is_integral x = (x = of_int \<lfloor>x\<rfloor>)"

text \<open>The bounds and the category of a declared variable.\<close>

definition var_ok :: "(lp_var \<Rightarrow> real) \<Rightarrow> LpVariable \<Rightarrow> bool" where
  "var_ok a v =
     ((case lowBound v of None \<Rightarrow> True | Some l \<Rightarrow> l \<le> a (v_name v)) \<and>
      (case upBound v of None \<Rightarrow> True | Some u \<Rightarrow> a (v_name v) \<le> u) \<and>
      (case cat v of
         LpContinuous \<Rightarrow> True
       | LpInteger \<Rightarrow> is_integral (a (v_name v))
       | LpBinary \<Rightarrow> a (v_name v) = 0 \<or> a (v_name v) = 1))"

fun expr_vars :: "lp_expr \<Rightarrow> LpVariable list" where
  "expr_vars (Var v) = [v]"
| "expr_vars (Num c) = []"
| "expr_vars (Add e1 e2) = expr_vars e1 @ expr_vars e2"
| "expr_vars (Sub e1 e2) = expr_vars e1 @ expr_vars e2"
| "expr_vars (Scale c e) = expr_vars e"
| "expr_vars (lpSum es) = concat (map expr_vars es)"

text \<open>The variables of a program are those occurring in its objective and constraints.\<close>

definition variables :: "LpProblem \<Rightarrow> LpVariable list" where
  "variables model =
     (case objective model of None \<Rightarrow> [] | Some e \<Rightarrow> expr_vars e) @
     concat (map (\<lambda>c. expr_vars (c_lhs c) @ expr_vars (c_rhs c)) (constraints model))"

definition feasible :: "LpProblem \<Rightarrow> (lp_var \<Rightarrow> real) \<Rightarrow> bool" where
  "feasible model a =
     (list_all (holds a) (constraints model) \<and> list_all (var_ok a) (variables model))"

definition objective_value :: "LpProblem \<Rightarrow> (lp_var \<Rightarrow> real) \<Rightarrow> real" where
  "objective_value model a = (case objective model of None \<Rightarrow> 0 | Some e \<Rightarrow> eval a e)"

subsection \<open>\<^verbatim>\<open>_get_valid_routes\<close>\<close>

fun valid_routes_loop :: "OptimizationInput \<Rightarrow> route_row list \<Rightarrow> (string \<times> string \<times> real) list" where
  "valid_routes_loop inp [] = []"
| "valid_routes_loop inp (route # rest) =
     (let wh = py_strip (destination route);
          mode = py_strip (route_mode_name route)
      in if wh \<in> set (selected_warehouses inp) \<and>
            lead_time route \<le> of_int (max_delivery_time inp) \<and>
            (wh, mode) \<in> set (keys (max_vehicles inp))
         then (wh, mode, total_cost route) # valid_routes_loop inp rest
         else valid_routes_loop inp rest)"

definition get_valid_routes :: "DataLoader \<Rightarrow> OptimizationInput \<Rightarrow> (string \<times> string \<times> real) list" where
  "get_valid_routes dl inp = valid_routes_loop inp (routes dl)"

text \<open>
  The lookup \<^verbatim>\<open>routes[(routes['destination'] == wh) & (routes['mode_name'] == mode)].iloc[0]\<close>:
  the first matching row of the whole table, \<^verbatim>\<open>IndexError\<close> when there is none.
\<close>

definition find_route :: "DataLoader \<Rightarrow> string \<Rightarrow> string \<Rightarrow> py_error + route_row" where
  "find_route dl wh mode =
     (case filter (\<lambda>r. destination r = wh \<and> route_mode_name r = mode) (routes dl) of
        [] \<Rightarrow> Inl IndexError
      | r # _ \<Rightarrow> Inr r)"

subsection \<open>\<^verbatim>\<open>_add_constraints\<close>\<close>

definition warehouse_info :: "DataLoader \<Rightarrow> (string \<times> real \<times> real) list" where
  "warehouse_info dl =
     py_dict (map (\<lambda>row. (warehouse_name row, (capacity row, stock_level row))) (warehouses dl))"

definition vehicle_capacities :: "DataLoader \<Rightarrow> (string \<times> real) list" where
  "vehicle_capacities dl =
     py_dict (zip (map mode_name (modes dl)) (map weight_capacity (modes dl)))"

text \<open>The summand \<^verbatim>\<open>shipments[wh, mode] * vehicle_capacities[mode]\<close>.\<close>

definition weight_term ::
  "((string \<times> string) \<times> LpVariable) list \<Rightarrow> (string \<times> real) list \<Rightarrow> string \<times> string
     \<Rightarrow> py_error + lp_expr" where
  "weight_term shipments vc k =
     (case getitem shipments k of
        Inl e \<Rightarrow> Inl e
      | Inr v \<Rightarrow> (case getitem vc (snd k) of Inl e \<Rightarrow> Inl e | Inr w \<Rightarrow> Inr (Scale w (Var v))))"

text \<open>
  The body of the loop over \<^verbatim>\<open>input_data.selected_warehouses\<close>: nothing for a warehouse
  that is not in \<^verbatim>\<open>warehouse_info\<close>, else the capacity constraint of the warehouse.
\<close>

definition capacity_constraint ::
  "(string \<times> real \<times> real) list \<Rightarrow> (string \<times> real) list \<Rightarrow> ((string \<times> string) \<times> LpVariable) list
     \<Rightarrow> (string \<times> string) list \<Rightarrow> string \<Rightarrow> py_error + lp_constraint list" where
  "capacity_constraint wi vc shipments ks wh =
     (case map_of wi wh of
        None \<Rightarrow> Inr []
      | Some (cap, stock) \<Rightarrow>
          (let available_capacity = max 0 (cap - stock)
           in case mapM (weight_term shipments vc) (filter (\<lambda>k. fst k = wh) ks) of
                Inl e \<Rightarrow> Inl e
              | Inr ts \<Rightarrow>
                  Inr [Constraint (''Capacity_'' @ wh) (lpSum ts) LE (Num available_capacity)]))"

text \<open>
  The body of the loop over \<^verbatim>\<open>input_data.max_vehicles.items()\<close>: nothing for a key that is
  not in \<^verbatim>\<open>shipments\<close>, else the vehicle limit of the edge.
\<close>

definition vehicle_constraint ::
  "((string \<times> string) \<times> LpVariable) list \<Rightarrow> (string \<times> string) \<times> int
     \<Rightarrow> py_error + lp_constraint list" where
  "vehicle_constraint shipments kv =
     (case map_of shipments (fst kv) of
        None \<Rightarrow> Inr []
      | Some v \<Rightarrow>
          Inr [Constraint (''Max_Vehicles_'' @ fst (fst kv) @ ''_'' @ snd (fst kv)) (Var v) LE
                 (Num (of_int (snd kv)))])"

definition add_constraints ::
  "(string \<Rightarrow> string) \<Rightarrow> DataLoader \<Rightarrow> LpProblem \<Rightarrow> ((string \<times> string) \<times> LpVariable) list
     \<Rightarrow> OptimizationInput \<Rightarrow> ((string \<times> string) \<times> real) list \<Rightarrow> py_error + LpProblem" where
  "add_constraints tr dl model shipments input_data route_costs =
     (let wi = warehouse_info dl;
          vc = vehicle_capacities dl
      in case mapM (weight_term shipments vc) (keys route_costs) of
           Inl e \<Rightarrow> Inl e
         | Inr ts \<Rightarrow>
             (case add_constraint tr model
                     (Constraint ''Total_Demand'' (lpSum ts) GE
                        (Num (of_int (total_demand input_data)))) of
                Inl e \<Rightarrow> Inl e
              | Inr model1 \<Rightarrow>
                  (case add_each tr (capacity_constraint wi vc shipments (keys route_costs))
                          (selected_warehouses input_data) model1 of
                     Inl e \<Rightarrow> Inl e
                   | Inr model2 \<Rightarrow>
                       add_each tr (vehicle_constraint shipments)
                         (max_vehicles input_data) model2)))"

subsection \<open>\<^verbatim>\<open>build_cost_model\<close>\<close>

text \<open>The summand \<^verbatim>\<open>shipments[wh, mode] * cost\<close> of the cost objective.\<close>

definition cost_term ::
  "((string \<times> string) \<times> LpVariable) list \<Rightarrow> (string \<times> string) \<times> real \<Rightarrow> py_error + lp_expr" where
  "cost_term shipments kc =
     (case getitem shipments (fst kc) of Inl e \<Rightarrow> Inl e | Inr v \<Rightarrow> Inr (Scale (snd kc) (Var v)))"

text \<open>\<^verbatim>\<open>{(wh, mode): cost for wh, mode, cost in valid_routes}\<close>\<close>

definition route_costs_of :: "(string \<times> string \<times> real) list \<Rightarrow> ((string \<times> string) \<times> real) list" where
  "route_costs_of valid_routes =
     py_dict (map (\<lambda>(wh, mode, cost). ((wh, mode), cost)) valid_routes)"

text \<open>The builder returns \<open>None\<close> where the source returns \<^verbatim>\<open>None, None\<close>.\<close>

definition build_cost_model ::
  "(string \<Rightarrow> string) \<Rightarrow> DataLoader \<Rightarrow> OptimizationInput
     \<Rightarrow> py_error + (LpProblem \<times> ((string \<times> string) \<times> LpVariable) list) option" where
  "build_cost_model tr dl input_data =
     (let model = \<lparr>p_name = ''Cost_Minimization'', objective = None, constraints = []\<rparr>;
          valid_routes = get_valid_routes dl input_data
      in if valid_routes = [] then Inr None
         else
           (let route_costs = route_costs_of valid_routes;
                shipments = LpVariable_dicts Shipment (keys route_costs) (Some 0) None LpInteger
            in case mapM (cost_term shipments) route_costs of
                 Inl e \<Rightarrow> Inl e
               | Inr ts \<Rightarrow>
                   (case add_constraints tr dl (set_objective model (lpSum ts)) shipments
                           input_data route_costs of
                      Inl e \<Rightarrow> Inl e
                    | Inr model' \<Rightarrow> Inr (Some (model', shipments)))))"

subsection \<open>\<^verbatim>\<open>build_time_model\<close>\<close>

text \<open>
  The loop filling \<^verbatim>\<open>route_info\<close> and \<^verbatim>\<open>lead_times\<close>: the lead time of an edge is read from
  the first row of the whole table with that destination and mode.
\<close>

fun route_info_loop ::
  "DataLoader \<Rightarrow> (string \<times> string \<times> real) list
     \<Rightarrow> ((string \<times> string) \<times> real) list \<times> ((string \<times> string) \<times> real) list
     \<Rightarrow> py_error + ((string \<times> string) \<times> real) list \<times> ((string \<times> string) \<times> real) list" where
  "route_info_loop dl [] acc = Inr acc"
| "route_info_loop dl ((wh, mode, cost) # rest) (route_info, lead_times) =
     (case find_route dl wh mode of
        Inl e \<Rightarrow> Inl e
      | Inr route \<Rightarrow>
          route_info_loop dl rest
            (AList.update (wh, mode) cost route_info,
             AList.update (wh, mode) (lead_time route) lead_times))"

text \<open>\<^verbatim>\<open>M = max(lead_times.values()) + 1\<close>\<close>

definition big_M :: "((string \<times> string) \<times> real) list \<Rightarrow> py_error + real" where
  "big_M lead_times = (case py_max (map snd lead_times) of Inl e \<Rightarrow> Inl e | Inr m \<Rightarrow> Inr (m + 1))"

text \<open>The two constraints linking \<^verbatim>\<open>route_used\<close> with \<^verbatim>\<open>shipments\<close> for one edge.\<close>

definition link_constraints ::
  "((string \<times> string) \<times> LpVariable) list \<Rightarrow> ((string \<times> string) \<times> LpVariable) list \<Rightarrow> real
     \<Rightarrow> string \<times> string \<Rightarrow> py_error + lp_constraint list" where
  "link_constraints route_used shipments M k =
     (case getitem route_used k of
        Inl e \<Rightarrow> Inl e
      | Inr u \<Rightarrow>
          (case getitem shipments k of
             Inl e \<Rightarrow> Inl e
           | Inr s \<Rightarrow>
               Inr [Constraint (''Route_Used_Lower_'' @ fst k @ ''_'' @ snd k)
                      (Scale (1 / 10000) (Var u)) LE (Var s),
                    Constraint (''Route_Used_Upper_'' @ fst k @ ''_'' @ snd k)
                      (Scale M (Var u)) GE (Var s)]))"

text \<open>\<^verbatim>\<open>max_time >= lead_time - M * (1 - route_used[wh, mode])\<close>\<close>

definition max_time_constraint ::
  "((string \<times> string) \<times> LpVariable) list \<Rightarrow> LpVariable \<Rightarrow> real \<Rightarrow> (string \<times> string) \<times> real
     \<Rightarrow> py_error + lp_constraint list" where
  "max_time_constraint route_used max_time M kl =
     (case getitem route_used (fst kl) of
        Inl e \<Rightarrow> Inl e
      | Inr u \<Rightarrow>
          Inr [Constraint (''Max_Time_'' @ fst (fst kl) @ ''_'' @ snd (fst kl))
                 (Var max_time) GE
                 (Sub (Num (snd kl)) (Scale M (Sub (Num 1) (Var u))))])"

definition build_time_model ::
  "(string \<Rightarrow> string) \<Rightarrow> DataLoader \<Rightarrow> OptimizationInput
     \<Rightarrow> py_error + (LpProblem \<times> ((string \<times> string) \<times> LpVariable) list \<times> LpVariable) option" where
  "build_time_model tr dl input_data =
     (let model = \<lparr>p_name = ''Time_Minimization'', objective = None, constraints = []\<rparr>;
          valid_routes = get_valid_routes dl input_data
      in if valid_routes = [] then Inr None
         else
           (case route_info_loop dl valid_routes ([], []) of
              Inl e \<Rightarrow> Inl e
            | Inr (route_info, lead_times) \<Rightarrow>
                (let shipments =
                       LpVariable_dicts Shipment (keys route_info) (Some 0) None LpInteger;
                     route_used =
                       LpVariable_dicts Route_Used (keys route_info) None None LpBinary
                 in case big_M lead_times of
                      Inl e \<Rightarrow> Inl e
                    | Inr M \<Rightarrow>
                        (case add_each tr (link_constraints route_used shipments M)
                                (keys route_info) model of
                           Inl e \<Rightarrow> Inl e
                         | Inr model1 \<Rightarrow>
                             (let max_time = LpVariable Max_Delivery_Time (Some 0) None LpContinuous;
                                  model2 = set_objective model1 (Var max_time)
                              in case add_each tr (max_time_constraint route_used max_time M)
                                        lead_times model2 of
                                   Inl e \<Rightarrow> Inl e
                                 | Inr model3 \<Rightarrow>
                                     (case add_constraints tr dl model3 shipments input_data
                                             route_info of
                                        Inl e \<Rightarrow> Inl e
                                      | Inr model' \<Rightarrow>
                                          Inr (Some (model', shipments, max_time))))))))"

subsection \<open>\<^verbatim>\<open>solve\<close>\<close>

text \<open>The status codes of the solver library and their names (\<^verbatim>\<open>LpStatus\<close>).\<close>

datatype lp_status = NotSolved | Optimal | Infeasible | Unbounded | Undefined

fun LpStatus :: "lp_status \<Rightarrow> string" where
  "LpStatus NotSolved = ''Not Solved''"
| "LpStatus Optimal = ''Optimal''"
| "LpStatus Infeasible = ''Infeasible''"
| "LpStatus Unbounded = ''Unbounded''"
| "LpStatus Undefined = ''Undefined''"

text \<open>
  The external solver: from a program to its status and the \<^verbatim>\<open>varValue\<close> of every
  variable.
\<close>

type_synonym solver = "LpProblem \<Rightarrow> lp_status \<times> (lp_var \<Rightarrow> real)"

text \<open>The values stored in a result dictionary.\<close>

datatype pyval =
    PNone
  | PStr string
  | PNum real
  | PSolution "(string \<times> (string \<times> int) list) list"

text \<open>
  \<^verbatim>\<open>if wh not in solution: solution[wh] = {}\<close> followed by \<^verbatim>\<open>solution[wh][mode] = val\<close>.
\<close>

definition store_shipment ::
  "string \<Rightarrow> string \<Rightarrow> int \<Rightarrow> (string \<times> (string \<times> int) list) list
     \<Rightarrow> (string \<times> (string \<times> int) list) list" where
  "store_shipment wh mode val solution =
     (let solution1 = (if wh \<notin> set (keys solution) then AList.update wh [] solution else solution)
      in AList.map_entry wh (AList.update mode val) solution1)"

text \<open>The loop collecting the non-zero shipments and their cost.\<close>

fun collect_shipments ::
  "DataLoader \<Rightarrow> (lp_var \<Rightarrow> real) \<Rightarrow> ((string \<times> string) \<times> LpVariable) list
     \<Rightarrow> (string \<times> (string \<times> int) list) list \<times> real
     \<Rightarrow> py_error + (string \<times> (string \<times> int) list) list \<times> real" where
  "collect_shipments dl varValue [] acc = Inr acc"
| "collect_shipments dl varValue ((k, var) # rest) (solution, cost_total) =
     (let val = py_int (varValue (v_name var))
      in if val > 0
         then (case find_route dl (fst k) (snd k) of
                 Inl e \<Rightarrow> Inl e
               | Inr route \<Rightarrow>
                   collect_shipments dl varValue rest
                     (store_shipment (fst k) (snd k) val solution,
                      cost_total + of_int val * total_cost route))
         else collect_shipments dl varValue rest (solution, cost_total))"

text \<open>The loop computing \<^verbatim>\<open>max_lead_time\<close> in the time branch.\<close>

fun max_lead_time_loop ::
  "DataLoader \<Rightarrow> (lp_var \<Rightarrow> real) \<Rightarrow> ((string \<times> string) \<times> LpVariable) list \<Rightarrow> real
     \<Rightarrow> py_error + real" where
  "max_lead_time_loop dl varValue [] max_lead_time = Inr max_lead_time"
| "max_lead_time_loop dl varValue ((k, count) # rest) max_lead_time =
     (if varValue (v_name count) > 0
      then (case find_route dl (fst k) (snd k) of
              Inl e \<Rightarrow> Inl e
            | Inr route \<Rightarrow>
                max_lead_time_loop dl varValue rest (max max_lead_time (lead_time route)))
      else max_lead_time_loop dl varValue rest max_lead_time)"

text \<open>What \<^verbatim>\<open>solve\<close> does with the cost program once it is solved.\<close>

definition extract_cost ::
  "DataLoader \<Rightarrow> lp_status \<times> (lp_var \<Rightarrow> real) \<Rightarrow> ((string \<times> string) \<times> LpVariable) list
     \<Rightarrow> py_error + (string \<times> pyval) list" where
  "extract_cost dl solved cost_vars =
     (if LpStatus (fst solved) = ''Optimal''
      then (case collect_shipments dl (snd solved) cost_vars ([], 0) of
              Inl e \<Rightarrow> Inl e
            | Inr (cost_solution, cost_total) \<Rightarrow>
                Inr [(''status'', PStr ''Optimal''),
                     (''solution'', PSolution cost_solution),
                     (''total_cost'', PNum cost_total)])
      else Inr [(''status'', PStr (LpStatus (fst solved))),
                (''solution'', PSolution []),
                (''total_cost'', PNone)])"

definition extract_time ::
  "DataLoader \<Rightarrow> lp_status \<times> (lp_var \<Rightarrow> real) \<Rightarrow> ((string \<times> string) \<times> LpVariable) list
     \<Rightarrow> py_error + (string \<times> pyval) list" where
  "extract_time dl solved time_vars =
     (if LpStatus (fst solved) = ''Optimal''
      then (case collect_shipments dl (snd solved) time_vars ([], 0) of
              Inl e \<Rightarrow> Inl e
            | Inr (time_solution, cost_total) \<Rightarrow>
                (case max_lead_time_loop dl (snd solved) time_vars 0 of
                   Inl e \<Rightarrow> Inl e
                 | Inr max_lead_time \<Rightarrow>
                     Inr [(''status'', PStr ''Optimal''),
                          (''solution'', PSolution time_solution),
                          (''max_lead_time'', PNum max_lead_time),
                          (''total_cost'', PNum cost_total)]))
      else Inr [(''status'', PStr (LpStatus (fst solved))),
                (''solution'', PSolution []),
                (''max_lead_time'', PNone),
                (''total_cost'', PNone)])"

definition solve_cost ::
  "(string \<Rightarrow> string) \<Rightarrow> DataLoader \<Rightarrow> solver \<Rightarrow> OptimizationInput
     \<Rightarrow> py_error + (string \<times> pyval) list" where
  "solve_cost tr dl solver input_data =
     (case build_cost_model tr dl input_data of
        Inl e \<Rightarrow> Inl e
      | Inr None \<Rightarrow>
          Inr [(''status'', PStr ''Infeasible''),
               (''solution'', PSolution []),
               (''total_cost'', PNone)]
      | Inr (Some (cost_model, cost_vars)) \<Rightarrow> extract_cost dl (solver cost_model) cost_vars)"

definition solve_time ::
  "(string \<Rightarrow> string) \<Rightarrow> DataLoader \<Rightarrow> solver \<Rightarrow> OptimizationInput
     \<Rightarrow> py_error + (string \<times> pyval) list" where
  "solve_time tr dl solver input_data =
     (case build_time_model tr dl input_data of
        Inl e \<Rightarrow> Inl e
      | Inr None \<Rightarrow>
          Inr [(''status'', PStr ''Infeasible''),
               (''solution'', PSolution []),
               (''max_delivery_time'', PNone),
               (''total_cost'', PNone)]
      | Inr (Some (time_model, time_vars, max_time_var)) \<Rightarrow>
          extract_time dl (solver time_model) time_vars)"

definition solve ::
  "(string \<Rightarrow> string) \<Rightarrow> DataLoader \<Rightarrow> solver \<Rightarrow> OptimizationInput
     \<Rightarrow> py_error + (string \<times> (string \<times> pyval) list) list" where
  "solve tr dl solver input_data =
     (case solve_cost tr dl solver input_data of
        Inl e \<Rightarrow> Inl e
      | Inr cost_result \<Rightarrow>
          (case solve_time tr dl solver input_data of
             Inl e \<Rightarrow> Inl e
           | Inr time_result \<Rightarrow>
               Inr [(''cost_optimization'', cost_result),
                    (''time_optimization'', time_result)]))"

subsection \<open>The eligible edges and the reference instance\<close>

text \<open>
  The eligible edges of a run are the keys under which both builders create their
  \<^verbatim>\<open>shipments\<close> variables: the keys of the dictionary made from the valid routes.
\<close>

definition eligible_edges :: "DataLoader \<Rightarrow> OptimizationInput \<Rightarrow> (string \<times> string) list" where
  "eligible_edges dl inp = keys (route_costs_of (get_valid_routes dl inp))"

text \<open>
  A routes table whose destinations and modes carry no surrounding whitespace, as
  \<^verbatim>\<open>DataLoader.load_data\<close> leaves them.
\<close>

definition stripped_names :: "DataLoader \<Rightarrow> bool" where
  "stripped_names dl =
     list_all (\<lambda>r. py_strip (destination r) = destination r \<and>
                    py_strip (route_mode_name r) = route_mode_name r) (routes dl)"

text \<open>
  Eligibility in the words of the specification: some row of the routes table has this
  destination and this mode, the destination is selected, the lead time of the row is at
  most \<open>max_delivery_time\<close>, and the pair is a key of \<open>max_vehicles\<close>.
\<close>

definition spec_eligible :: "DataLoader \<Rightarrow> OptimizationInput \<Rightarrow> string \<Rightarrow> string \<Rightarrow> bool" where
  "spec_eligible dl inp wh mode =
     list_ex (\<lambda>r. destination r = wh \<and> route_mode_name r = mode \<and>
                   wh \<in> set (selected_warehouses inp) \<and>
                   lead_time r \<le> of_int (max_delivery_time inp) \<and>
                   (wh, mode) \<in> set (keys (max_vehicles inp))) (routes dl)"

text \<open>
  The instances below use names made of letters, except where blanks are the point, so
  that the names of their constraints are made of letters and underscores. The library
  rewrites no letter and no underscore: on these names its translation is the identity,
  and closed statements about the builders on these instances take \<open>id\<close> for \<open>tr\<close>.
\<close>

text \<open>The fixed instance of Scenario A/B.\<close>

definition scenario_dl :: DataLoader where
  "scenario_dl =
     \<lparr>warehouses = [\<lparr>warehouse_name = ''A'', capacity = 1000, stock_level = 200\<rparr>,
                    \<lparr>warehouse_name = ''B'', capacity = 500, stock_level = 0\<rparr>],
      modes = [\<lparr>mode_name = ''Truck'', weight_capacity = 10\<rparr>,
               \<lparr>mode_name = ''Rail'', weight_capacity = 50\<rparr>],
      routes = [\<lparr>origin = ''P'', destination = ''A'', route_mode_name = ''Rail'',
                  lead_time = 5, total_cost = 80\<rparr>,
                \<lparr>origin = ''P'', destination = ''A'', route_mode_name = ''Truck'',
                  lead_time = 2, total_cost = 100\<rparr>,
                \<lparr>origin = ''P'', destination = ''B'', route_mode_name = ''Truck'',
                  lead_time = 1, total_cost = 120\<rparr>]\<rparr>"

definition scenario_input :: OptimizationInput where
  "scenario_input =
     \<lparr>total_demand = 300, max_delivery_time = 5, selected_warehouses = [''A'', ''B''],
      max_vehicles = [((''A'', ''Rail''), 10), ((''A'', ''Truck''), 20), ((''B'', ''Truck''), 15)]\<rparr>"

text \<open>The same request with a delivery-time ceiling that no route meets.\<close>

definition no_route_input :: OptimizationInput where
  "no_route_input =
     \<lparr>total_demand = 300, max_delivery_time = 0, selected_warehouses = [''A'', ''B''],
      max_vehicles = [((''A'', ''Rail''), 10), ((''A'', ''Truck''), 20), ((''B'', ''Truck''), 15)]\<rparr>"

text \<open>A solver stub that reports \<open>Optimal\<close> and the value zero for every variable.\<close>

definition zero_values :: "lp_var \<Rightarrow> real" where
  "zero_values v = 0"

definition idle_solver :: solver where
  "idle_solver model = (Optimal, zero_values)"

text \<open>A solver stub that reports \<open>Infeasible\<close>.\<close>

definition failing_solver :: solver where
  "failing_solver model = (Infeasible, zero_values)"

text \<open>The variables of the programs built on the reference instance.\<close>

definition shipment_var :: "string \<Rightarrow> string \<Rightarrow> LpVariable" where
  "shipment_var wh mode = LpVariable (Shipment wh mode) (Some 0) None LpInteger"

definition route_used_var :: "string \<Rightarrow> string \<Rightarrow> LpVariable" where
  "route_used_var wh mode = LpVariable (Route_Used wh mode) None None LpBinary"

definition max_time_var :: LpVariable where
  "max_time_var = LpVariable Max_Delivery_Time (Some 0) None LpContinuous"

definition scenario_shipments :: "((string \<times> string) \<times> LpVariable) list" where
  "scenario_shipments =
     [((''A'', ''Rail''), shipment_var ''A'' ''Rail''),
      ((''A'', ''Truck''), shipment_var ''A'' ''Truck''),
      ((''B'', ''Truck''), shipment_var ''B'' ''Truck'')]"

text \<open>The constraints \<^verbatim>\<open>_add_constraints\<close> attaches on the reference instance.\<close>

definition scenario_shared_constraints :: "lp_constraint list" where
  "scenario_shared_constraints =
     [Constraint ''Total_Demand''
        (lpSum [Scale 50 (Var (shipment_var ''A'' ''Rail'')),
                Scale 10 (Var (shipment_var ''A'' ''Truck'')),
                Scale 10 (Var (shipment_var ''B'' ''Truck''))]) GE (Num 300),
      Constraint ''Capacity_A''
        (lpSum [Scale 50 (Var (shipment_var ''A'' ''Rail'')),
                Scale 10 (Var (shipment_var ''A'' ''Truck''))]) LE (Num 800),
      Constraint ''Capacity_B''
        (lpSum [Scale 10 (Var (shipment_var ''B'' ''Truck''))]) LE (Num 500),
      Constraint ''Max_Vehicles_A_Rail'' (Var (shipment_var ''A'' ''Rail'')) LE (Num 10),
      Constraint ''Max_Vehicles_A_Truck'' (Var (shipment_var ''A'' ''Truck'')) LE (Num 20),
      Constraint ''Max_Vehicles_B_Truck'' (Var (shipment_var ''B'' ''Truck'')) LE (Num 15)]"

definition scenario_cost_program :: LpProblem where
  "scenario_cost_program =
     \<lparr>p_name = ''Cost_Minimization'',
      objective = Some (lpSum [Scale 80 (Var (shipment_var ''A'' ''Rail'')),
                               Scale 100 (Var (shipment_var ''A'' ''Truck'')),
                               Scale 120 (Var (shipment_var ''B'' ''Truck''))]),
      constraints = scenario_shared_constraints\<rparr>"

definition scenario_time_program :: LpProblem where
  "scenario_time_program =
     \<lparr>p_name = ''Time_Minimization'',
      objective = Some (Var max_time_var),
      constraints =
        [Constraint ''Route_Used_Lower_A_Rail''
           (Scale (1 / 10000) (Var (route_used_var ''A'' ''Rail''))) LE
           (Var (shipment_var ''A'' ''Rail'')),
         Constraint ''Route_Used_Upper_A_Rail''
           (Scale 6 (Var (route_used_var ''A'' ''Rail''))) GE
           (Var (shipment_var ''A'' ''Rail'')),
         Constraint ''Route_Used_Lower_A_Truck''
           (Scale (1 / 10000) (Var (route_used_var ''A'' ''Truck''))) LE
           (Var (shipment_var ''A'' ''Truck'')),
         Constraint ''Route_Used_Upper_A_Truck''
           (Scale 6 (Var (route_used_var ''A'' ''Truck''))) GE
           (Var (shipment_var ''A'' ''Truck'')),
         Constraint ''Route_Used_Lower_B_Truck''
           (Scale (1 / 10000) (Var (route_used_var ''B'' ''Truck''))) LE
           (Var (shipment_var ''B'' ''Truck'')),
         Constraint ''Route_Used_Upper_B_Truck''
           (Scale 6 (Var (route_used_var ''B'' ''Truck''))) GE
           (Var (shipment_var ''B'' ''Truck'')),
         Constraint ''Max_Time_A_Rail'' (Var max_time_var) GE
           (Sub (Num 5) (Scale 6 (Sub (Num 1) (Var (route_used_var ''A'' ''Rail''))))),
         Constraint ''Max_Time_A_Truck'' (Var max_time_var) GE
           (Sub (Num 2) (Scale 6 (Sub (Num 1) (Var (route_used_var ''A'' ''Truck''))))),
         Constraint ''Max_Time_B_Truck'' (Var max_time_var) GE
           (Sub (Num 1) (Scale 6 (Sub (Num 1) (Var (route_used_var ''B'' ''Truck'')))))]
        @ scenario_shared_constraints\<rparr>"

text \<open>
  The three constraints of the time program for one edge, written with the variables of
  that edge: the lower link with the tolerance \<open>1/10000\<close>, the upper link with \<open>M\<close>, and
  the bound on \<^verbatim>\<open>max_time\<close>.
\<close>

definition link_lower :: "string \<times> string \<Rightarrow> lp_constraint" where
  "link_lower k =
     Constraint (''Route_Used_Lower_'' @ fst k @ ''_'' @ snd k)
       (Scale (1 / 10000) (Var (route_used_var (fst k) (snd k)))) LE
       (Var (shipment_var (fst k) (snd k)))"

definition link_upper :: "real \<Rightarrow> string \<times> string \<Rightarrow> lp_constraint" where
  "link_upper M k =
     Constraint (''Route_Used_Upper_'' @ fst k @ ''_'' @ snd k)
       (Scale M (Var (route_used_var (fst k) (snd k)))) GE
       (Var (shipment_var (fst k) (snd k)))"

definition max_time_bound :: "real \<Rightarrow> string \<times> string \<Rightarrow> real \<Rightarrow> lp_constraint" where
  "max_time_bound M k lt =
     Constraint (''Max_Time_'' @ fst k @ ''_'' @ snd k) (Var max_time_var) GE
       (Sub (Num lt) (Scale M (Sub (Num 1) (Var (route_used_var (fst k) (snd k))))))"

text \<open>
  Two assignments on the reference instance: six rail vehicles to A with the indicator of
  that edge set and \<^verbatim>\<open>max_time\<close> five; twenty trucks to A and ten to B.
\<close>

definition rail_plan :: "lp_var \<Rightarrow> real" where
  "rail_plan v =
     (if v = Shipment ''A'' ''Rail'' then 6
      else if v = Route_Used ''A'' ''Rail'' then 1
      else if v = Max_Delivery_Time then 5
      else 0)"

definition truck_plan :: "lp_var \<Rightarrow> real" where
  "truck_plan v =
     (if v = Shipment ''A'' ''Truck'' then 20
      else if v = Shipment ''B'' ''Truck'' then 10
      else 0)"

text \<open>A routes table with two rows for the same destination and mode.\<close>

definition dup_dl :: DataLoader where
  "dup_dl =
     \<lparr>warehouses = [\<lparr>warehouse_name = ''A'', capacity = 1000, stock_level = 200\<rparr>],
      modes = [\<lparr>mode_name = ''Truck'', weight_capacity = 10\<rparr>],
      routes = [\<lparr>origin = ''P1'', destination = ''A'', route_mode_name = ''Truck'',
                  lead_time = 2, total_cost = 100\<rparr>,
                \<lparr>origin = ''P2'', destination = ''A'', route_mode_name = ''Truck'',
                  lead_time = 1, total_cost = 50\<rparr>]\<rparr>"

definition dup_input :: OptimizationInput where
  "dup_input =
     \<lparr>total_demand = 10, max_delivery_time = 5, selected_warehouses = [''A''],
      max_vehicles = [((''A'', ''Truck''), 5)]\<rparr>"

text \<open>Solver values: one truck to A.\<close>

definition one_truck :: "lp_var \<Rightarrow> real" where
  "one_truck v = (if v = Shipment ''A'' ''Truck'' then 1 else 0)"

text \<open>The objective of the program the cost builder returns.\<close>

definition cost_objective ::
  "(string \<Rightarrow> string) \<Rightarrow> DataLoader \<Rightarrow> OptimizationInput \<Rightarrow> lp_expr option" where
  "cost_objective tr dl inp =
     (case build_cost_model tr dl inp of
        Inr (Some (model, shipments)) \<Rightarrow> objective model
      | _ \<Rightarrow> None)"

text \<open>
  Solver values on the reference instance with a value just below one for the rail edge.
\<close>

definition frac_values :: "lp_var \<Rightarrow> real" where
  "frac_values v =
     (if v = Shipment ''A'' ''Rail'' then 999999 / 1000000
      else if v = Shipment ''A'' ''Truck'' then 6
      else if v = Shipment ''B'' ''Truck'' then 6
      else 0)"

text \<open>The count a solution dictionary holds for an edge: \<^verbatim>\<open>solution[wh][mode]\<close> when present.\<close>

definition plan_lookup :: "(string \<times> (string \<times> int) list) list \<Rightarrow> string \<times> string \<Rightarrow> int option" where
  "plan_lookup solution k =
     (case map_of solution (fst k) of None \<Rightarrow> None | Some inner \<Rightarrow> map_of inner (snd k))"

text \<open>
  The weight one vehicle of a mode carries: the entry of \<^verbatim>\<open>vehicle_capacities\<close>.
\<close>

definition weight_of :: "DataLoader \<Rightarrow> string \<Rightarrow> real" where
  "weight_of dl mode = (case map_of (vehicle_capacities dl) mode of None \<Rightarrow> 0 | Some w \<Rightarrow> w)"

text \<open>
  The weight an assignment ships over a list of edges: the sum of
  \<open>shipments[edge] * weight_capacity[mode(edge)]\<close>.
\<close>

definition shipped_weight :: "DataLoader \<Rightarrow> (lp_var \<Rightarrow> real) \<Rightarrow> (string \<times> string) list \<Rightarrow> real" where
  "shipped_weight dl a ks =
     sum_list (map (\<lambda>k. weight_of dl (snd k) * a (Shipment (fst k) (snd k))) ks)"

text \<open>\<open>max(0, capacity - stock_level)\<close> of a warehouse of the table.\<close>

definition available_capacity :: "DataLoader \<Rightarrow> string \<Rightarrow> real" where
  "available_capacity dl wh =
     (case map_of (warehouse_info dl) wh of
        None \<Rightarrow> 0
      | Some (cap, stock) \<Rightarrow> max 0 (cap - stock))"

text \<open>The selected warehouses that the warehouse table lists, in selection order.\<close>

definition capacity_warehouses :: "DataLoader \<Rightarrow> OptimizationInput \<Rightarrow> string list" where
  "capacity_warehouses dl inp =
     filter (\<lambda>wh. wh \<in> set (keys (warehouse_info dl))) (selected_warehouses inp)"

text \<open>The entries of \<open>max_vehicles\<close> whose key is an eligible edge.\<close>

definition ceiling_items ::
  "DataLoader \<Rightarrow> OptimizationInput \<Rightarrow> ((string \<times> string) \<times> int) list" where
  "ceiling_items dl inp =
     filter (\<lambda>kv. fst kv \<in> set (eligible_edges dl inp)) (max_vehicles inp)"

text \<open>
  The reference request without vehicle limits for warehouse B: B is selected and has no
  eligible edge.
\<close>

definition partial_input :: OptimizationInput where
  "partial_input =
     \<lparr>total_demand = 300, max_delivery_time = 5, selected_warehouses = [''A'', ''B''],
      max_vehicles = [((''A'', ''Rail''), 10), ((''A'', ''Truck''), 20)]\<rparr>"

text \<open>The constraints of the programs the builders return.\<close>

definition cost_constraints ::
  "(string \<Rightarrow> string) \<Rightarrow> DataLoader \<Rightarrow> OptimizationInput \<Rightarrow> lp_constraint list" where
  "cost_constraints tr dl inp =
     (case build_cost_model tr dl inp of
        Inr (Some (model, shipments)) \<Rightarrow> constraints model
      | _ \<Rightarrow> [])"

definition time_constraints ::
  "(string \<Rightarrow> string) \<Rightarrow> DataLoader \<Rightarrow> OptimizationInput \<Rightarrow> lp_constraint list" where
  "time_constraints tr dl inp =
     (case build_time_model tr dl inp of
        Inr (Some (model, shipments, max_time)) \<Rightarrow> constraints model
      | _ \<Rightarrow> [])"

text \<open>
  The warehouses that get a capacity constraint according to the specification: the
  selected warehouses with at least one eligible edge.
\<close>

definition spec_capacity_warehouses :: "DataLoader \<Rightarrow> OptimizationInput \<Rightarrow> string list" where
  "spec_capacity_warehouses dl inp =
     filter (\<lambda>wh. wh \<in> set (map fst (eligible_edges dl inp))) (selected_warehouses inp)"

text \<open>The constraints named \<^verbatim>\<open>Capacity_...\<close>.\<close>

definition is_capacity_constraint :: "lp_constraint \<Rightarrow> bool" where
  "is_capacity_constraint c = (take 9 (c_name c) = ''Capacity_'')"

text \<open>
  The cost and the lead time the extraction reads for an edge: those of the first row of
  the routes table with that destination and mode.
\<close>

definition first_row_cost :: "DataLoader \<Rightarrow> string \<times> string \<Rightarrow> real" where
  "first_row_cost dl k = (case find_route dl (fst k) (snd k) of Inl e \<Rightarrow> 0 | Inr r \<Rightarrow> total_cost r)"

definition first_row_lead_time :: "DataLoader \<Rightarrow> string \<times> string \<Rightarrow> real" where
  "first_row_lead_time dl k = (case find_route dl (fst k) (snd k) of Inl e \<Rightarrow> 0 | Inr r \<Rightarrow> lead_time r)"

text \<open>
  A routes table whose only row has a blank before the destination and one after the
  mode, and a request for the stripped names.
\<close>

definition unstripped_dl :: DataLoader where
  "unstripped_dl =
     \<lparr>warehouses = [\<lparr>warehouse_name = ''A'', capacity = 1000, stock_level = 200\<rparr>],
      modes = [\<lparr>mode_name = ''Truck'', weight_capacity = 10\<rparr>],
      routes = [\<lparr>origin = ''P'', destination = '' A'', route_mode_name = ''Truck '',
                  lead_time = 2, total_cost = 100\<rparr>]\<rparr>"

definition unstripped_input :: OptimizationInput where
  "unstripped_input =
     \<lparr>total_demand = 10, max_delivery_time = 5, selected_warehouses = [''A''],
      max_vehicles = [((''A'', ''Truck''), 5)]\<rparr>"

text \<open>
  Tables with a route to a warehouse C that the warehouse table does not list, and a
  request that selects A and C.
\<close>

definition unlisted_dl :: DataLoader where
  "unlisted_dl =
     \<lparr>warehouses = [\<lparr>warehouse_name = ''A'', capacity = 1000, stock_level = 200\<rparr>],
      modes = [\<lparr>mode_name = ''Truck'', weight_capacity = 10\<rparr>],
      routes = [\<lparr>origin = ''P'', destination = ''A'', route_mode_name = ''Truck'',
                  lead_time = 2, total_cost = 100\<rparr>,
                \<lparr>origin = ''P'', destination = ''C'', route_mode_name = ''Truck'',
                  lead_time = 1, total_cost = 120\<rparr>]\<rparr>"

definition unlisted_input :: OptimizationInput where
  "unlisted_input =
     \<lparr>total_demand = 100, max_delivery_time = 5, selected_warehouses = [''A'', ''C''],
      max_vehicles = [((''A'', ''Truck''), 20), ((''C'', ''Truck''), 15)]\<rparr>"

text \<open>
  The variables whose truncated value is positive, the entries of the plan; and the
  variables whose raw value is positive.
\<close>

definition raw_positive :: "(lp_var \<Rightarrow> real) \<Rightarrow> ((string \<times> string) \<times> LpVariable) list
    \<Rightarrow> ((string \<times> string) \<times> LpVariable) list" where
  "raw_positive vv items = filter (\<lambda>kv. 0 < vv (v_name (snd kv))) items"

definition counted :: "(lp_var \<Rightarrow> real) \<Rightarrow> ((string \<times> string) \<times> LpVariable) list
    \<Rightarrow> ((string \<times> string) \<times> LpVariable) list" where
  "counted vv items = filter (\<lambda>kv. 0 < py_int (vv (v_name (snd kv)))) items"

text \<open>Integral solver values on the reference instance: one truck to B, nothing else.\<close>

definition one_b_truck :: "lp_var \<Rightarrow> real" where
  "one_b_truck v = (if v = Shipment ''B'' ''Truck'' then 1 else 0)"

text \<open>The reference request with warehouse A selected twice.\<close>

definition repeated_input :: OptimizationInput where
  "repeated_input =
     \<lparr>total_demand = 300, max_delivery_time = 5, selected_warehouses = [''A'', ''A''],
      max_vehicles = [((''A'', ''Rail''), 10), ((''A'', ''Truck''), 20)]\<rparr>"

section \<open>Properties\<close>

subsection \<open>Stripping, and adding constraints under distinct names\<close>

text \<open>
  A loop that adds constraints returns exactly when its body returns for every element
  and the names, as the library keeps them, stay pairwise distinct; the program it
  returns then holds the constraints of the bodies in order. A program built under one
  translation of names is built under every translation that keeps its names distinct.
\<close>

lemmas py_strip_eval =
  py_strip_def py_lstrip_def py_rstrip_def strip_start.simps py_whitespace_def

lemma py_strip_names:
  "py_strip ''A'' = ''A''" "py_strip ''B'' = ''B''" "py_strip ''C'' = ''C''"
  "py_strip ''Rail'' = ''Rail''" "py_strip ''Truck'' = ''Truck''"
  "py_strip '' A'' = ''A''" "py_strip ''Truck '' = ''Truck''"
  by (simp_all add: py_strip_eval)

text \<open>U+00A0 and U+0085 are removed like the ASCII blanks; other bytes stay.\<close>

lemma py_strip_unicode:
  "py_strip ([CHR 0xC2, CHR 0xA0] @ ''A'' @ [CHR 0xC2, CHR 0x85]) = ''A''"
  "py_strip ([CHR 0xE2, CHR 0x80, CHR 0x83] @ ''A B'' @ [CHR 0x09, CHR 0x0A]) = ''A B''"
  "py_strip [CHR 0xC3, CHR 0x85] = [CHR 0xC3, CHR 0x85]"
  by (simp_all add: py_strip_eval)

lemma add_constraint_Inr:
  "add_constraint tr m c = Inr m' \<Longrightarrow>
     m' = m\<lparr>constraints := constraints m @ [c]\<rparr> \<and>
     tr (c_name c) \<notin> set (map (\<lambda>d. tr (c_name d)) (constraints m))"
  by (auto simp: add_constraint_def split: if_splits)

lemma add_all_Inr:
  "add_all tr m cs = Inr m' \<Longrightarrow> m' = m\<lparr>constraints := constraints m @ cs\<rparr>"
proof (induction cs arbitrary: m)
  case Nil
  then show ?case by simp
next
  case (Cons c cs)
  from Cons.prems obtain m1 where m1: "add_constraint tr m c = Inr m1"
    and rest: "add_all tr m1 cs = Inr m'"
    by (auto split: sum.splits)
  from add_constraint_Inr [OF m1] Cons.IH [OF rest] show ?case by simp
qed

lemma add_all_distinct:
  "add_all tr m cs = Inr m' \<Longrightarrow> distinct (map (\<lambda>d. tr (c_name d)) (constraints m)) \<Longrightarrow>
     distinct (map (\<lambda>d. tr (c_name d)) (constraints m'))"
proof (induction cs arbitrary: m)
  case Nil
  then show ?case by simp
next
  case (Cons c cs)
  from Cons.prems obtain m1 where m1: "add_constraint tr m c = Inr m1"
    and rest: "add_all tr m1 cs = Inr m'"
    by (auto split: sum.splits)
  from add_constraint_Inr [OF m1] Cons.prems(2)
  have "distinct (map (\<lambda>d. tr (c_name d)) (constraints m1))" by auto
  from Cons.IH [OF rest this] show ?case .
qed

lemma add_all_ok:
  "distinct (map (\<lambda>d. tr (c_name d)) (constraints m @ cs)) \<Longrightarrow>
     add_all tr m cs = Inr (m\<lparr>constraints := constraints m @ cs\<rparr>)"
proof (induction cs arbitrary: m)
  case Nil
  then show ?case by simp
next
  case (Cons c cs)
  from Cons.prems have c: "add_constraint tr m c = Inr (m\<lparr>constraints := constraints m @ [c]\<rparr>)"
    by (auto simp: add_constraint_def)
  have "distinct (map (\<lambda>d. tr (c_name d))
          (constraints (m\<lparr>constraints := constraints m @ [c]\<rparr>) @ cs))"
    using Cons.prems by simp
  from Cons.IH [OF this] c show ?case by simp
qed

lemma add_each_Inr:
  "add_each tr body xs m = Inr m' \<Longrightarrow>
     \<exists>css. mapM body xs = Inr css \<and> m' = m\<lparr>constraints := constraints m @ concat css\<rparr>"
proof (induction xs arbitrary: m)
  case Nil
  then show ?case by simp
next
  case (Cons x xs)
  from Cons.prems obtain cs m1 where cs: "body x = Inr cs"
    and m1: "add_all tr m cs = Inr m1"
    and rest: "add_each tr body xs m1 = Inr m'"
    by (auto split: sum.splits)
  from Cons.IH [OF rest] obtain css where
    "mapM body xs = Inr css" "m' = m1\<lparr>constraints := constraints m1 @ concat css\<rparr>"
    by blast
  with cs add_all_Inr [OF m1] show ?case by simp
qed

lemma add_each_distinct:
  "add_each tr body xs m = Inr m' \<Longrightarrow> distinct (map (\<lambda>d. tr (c_name d)) (constraints m)) \<Longrightarrow>
     distinct (map (\<lambda>d. tr (c_name d)) (constraints m'))"
proof (induction xs arbitrary: m)
  case Nil
  then show ?case by simp
next
  case (Cons x xs)
  from Cons.prems obtain cs m1 where cs: "body x = Inr cs"
    and m1: "add_all tr m cs = Inr m1"
    and rest: "add_each tr body xs m1 = Inr m'"
    by (auto split: sum.splits)
  from Cons.IH [OF rest add_all_distinct [OF m1 Cons.prems(2)]] show ?case .
qed

lemma add_each_ok:
  "mapM body xs = Inr css \<Longrightarrow>
   distinct (map (\<lambda>d. tr (c_name d)) (constraints m @ concat css)) \<Longrightarrow>
     add_each tr body xs m = Inr (m\<lparr>constraints := constraints m @ concat css\<rparr>)"
proof (induction xs arbitrary: m css)
  case Nil
  then show ?case by simp
next
  case (Cons x xs)
  from Cons.prems(1) obtain cs css' where cs: "body x = Inr cs"
    and css': "mapM body xs = Inr css'" and css: "css = cs # css'"
    by (auto split: sum.splits)
  have "distinct (map (\<lambda>d. tr (c_name d)) (constraints m @ cs))"
    using Cons.prems(2) unfolding css by auto
  from add_all_ok [OF this]
  have a: "add_all tr m cs = Inr (m\<lparr>constraints := constraints m @ cs\<rparr>)" .
  have "distinct (map (\<lambda>d. tr (c_name d))
          (constraints (m\<lparr>constraints := constraints m @ cs\<rparr>) @ concat css'))"
    using Cons.prems(2) unfolding css by auto
  from Cons.IH [OF css' this] cs a show ?case unfolding css by simp
qed

lemma add_constraints_Inr:
  assumes "add_constraints tr dl m sh inp rc = Inr m'"
  shows "\<exists>ts caps ceils.
     mapM (weight_term sh (vehicle_capacities dl)) (keys rc) = Inr ts \<and>
     mapM (capacity_constraint (warehouse_info dl) (vehicle_capacities dl) sh (keys rc))
       (selected_warehouses inp) = Inr caps \<and>
     mapM (vehicle_constraint sh) (max_vehicles inp) = Inr ceils \<and>
     m' = m\<lparr>constraints := constraints m @
            Constraint ''Total_Demand'' (lpSum ts) GE (Num (of_int (total_demand inp))) #
            concat caps @ concat ceils\<rparr>"
proof -
  from assms obtain ts m1 m2 where
    ts: "mapM (weight_term sh (vehicle_capacities dl)) (keys rc) = Inr ts"
    and m1: "add_constraint tr m
               (Constraint ''Total_Demand'' (lpSum ts) GE (Num (of_int (total_demand inp)))) = Inr m1"
    and m2: "add_each tr (capacity_constraint (warehouse_info dl) (vehicle_capacities dl) sh (keys rc))
               (selected_warehouses inp) m1 = Inr m2"
    and m': "add_each tr (vehicle_constraint sh) (max_vehicles inp) m2 = Inr m'"
    by (auto simp: add_constraints_def Let_def split: sum.splits)
  from add_each_Inr [OF m2] obtain caps where
    caps: "mapM (capacity_constraint (warehouse_info dl) (vehicle_capacities dl) sh (keys rc))
       (selected_warehouses inp) = Inr caps"
    and m2e: "m2 = m1\<lparr>constraints := constraints m1 @ concat caps\<rparr>" by blast
  from add_each_Inr [OF m'] obtain ceils where
    ceils: "mapM (vehicle_constraint sh) (max_vehicles inp) = Inr ceils"
    and m'e: "m' = m2\<lparr>constraints := constraints m2 @ concat ceils\<rparr>" by blast
  from add_constraint_Inr [OF m1] m2e m'e
  have "m' = m\<lparr>constraints := constraints m @
            Constraint ''Total_Demand'' (lpSum ts) GE (Num (of_int (total_demand inp))) #
            concat caps @ concat ceils\<rparr>"
    by simp
  with ts caps ceils show ?thesis by blast
qed

lemma add_constraints_ok:
  assumes ts: "mapM (weight_term sh (vehicle_capacities dl)) (keys rc) = Inr ts"
    and caps: "mapM (capacity_constraint (warehouse_info dl) (vehicle_capacities dl) sh (keys rc))
       (selected_warehouses inp) = Inr caps"
    and ceils: "mapM (vehicle_constraint sh) (max_vehicles inp) = Inr ceils"
    and d: "distinct (map (\<lambda>d. tr (c_name d)) (constraints m @
            Constraint ''Total_Demand'' (lpSum ts) GE (Num (of_int (total_demand inp))) #
            concat caps @ concat ceils))"
  shows "add_constraints tr dl m sh inp rc =
     Inr (m\<lparr>constraints := constraints m @
            Constraint ''Total_Demand'' (lpSum ts) GE (Num (of_int (total_demand inp))) #
            concat caps @ concat ceils\<rparr>)"
proof -
  let ?d = "Constraint ''Total_Demand'' (lpSum ts) GE (Num (of_int (total_demand inp)))"
  let ?m1 = "m\<lparr>constraints := constraints m @ [?d]\<rparr>"
  let ?m2 = "?m1\<lparr>constraints := constraints ?m1 @ concat caps\<rparr>"
  have m1: "add_constraint tr m ?d = Inr ?m1"
    using d by (auto simp: add_constraint_def)
  have d1: "distinct (map (\<lambda>d. tr (c_name d)) (constraints ?m1 @ concat caps))"
    using d by (auto simp: set_eq_iff)
  have m2: "add_each tr (capacity_constraint (warehouse_info dl) (vehicle_capacities dl) sh (keys rc))
               (selected_warehouses inp) ?m1 = Inr ?m2"
    by (rule add_each_ok [OF caps d1])
  have d2: "distinct (map (\<lambda>d. tr (c_name d)) (constraints ?m2 @ concat ceils))"
    using d by (auto simp: set_eq_iff)
  have m3: "add_each tr (vehicle_constraint sh) (max_vehicles inp) ?m2 =
              Inr (?m2\<lparr>constraints := constraints ?m2 @ concat ceils\<rparr>)"
    by (rule add_each_ok [OF ceils d2])
  show ?thesis
    using ts m1 m2 m3 by (simp add: add_constraints_def)
qed

lemma add_constraints_retranslate:
  assumes "add_constraints tr dl m sh inp rc = Inr m'"
    and "distinct (map (\<lambda>d. tr' (c_name d)) (constraints m'))"
  shows "add_constraints tr' dl m sh inp rc = Inr m'"
proof -
  from add_constraints_Inr [OF assms(1)] obtain ts caps ceils where
    ts: "mapM (weight_term sh (vehicle_capacities dl)) (keys rc) = Inr ts"
    and caps: "mapM (capacity_constraint (warehouse_info dl) (vehicle_capacities dl) sh (keys rc))
       (selected_warehouses inp) = Inr caps"
    and ceils: "mapM (vehicle_constraint sh) (max_vehicles inp) = Inr ceils"
    and m': "m' = m\<lparr>constraints := constraints m @
            Constraint ''Total_Demand'' (lpSum ts) GE (Num (of_int (total_demand inp))) #
            concat caps @ concat ceils\<rparr>"
    by blast
  have "distinct (map (\<lambda>d. tr' (c_name d)) (constraints m @
            Constraint ''Total_Demand'' (lpSum ts) GE (Num (of_int (total_demand inp))) #
            concat caps @ concat ceils))"
    using assms(2) unfolding m' by auto
  from add_constraints_ok [OF ts caps ceils this] show ?thesis unfolding m' .
qed

lemma add_each_retranslate:
  assumes "add_each tr body xs m = Inr m'"
    and "distinct (map (\<lambda>d. tr' (c_name d)) (constraints m'))"
  shows "add_each tr' body xs m = Inr m'"
proof -
  from add_each_Inr [OF assms(1)] obtain css where
    css: "mapM body xs = Inr css" and m': "m' = m\<lparr>constraints := constraints m @ concat css\<rparr>"
    by blast
  have "distinct (map (\<lambda>d. tr' (c_name d)) (constraints m @ concat css))"
    using assms(2) unfolding m' by auto
  from add_each_ok [OF css this] show ?thesis unfolding m' .
qed

lemma add_constraints_grows:
  "add_constraints tr dl m sh inp rc = Inr m' \<Longrightarrow>
     \<exists>cs. constraints m' = constraints m @ cs \<and> objective m' = objective m \<and> p_name m' = p_name m"
  by (drule add_constraints_Inr) auto

lemma add_each_grows:
  "add_each tr body xs m = Inr m' \<Longrightarrow>
     \<exists>cs. constraints m' = constraints m @ cs \<and> objective m' = objective m \<and> p_name m' = p_name m"
  by (drule add_each_Inr) auto

lemma build_cost_model_retranslate:
  assumes "build_cost_model tr dl inp = Inr (Some (model, shipments))"
    and "distinct (map (\<lambda>d. tr' (c_name d)) (constraints model))"
  shows "build_cost_model tr' dl inp = Inr (Some (model, shipments))"
proof -
  from assms(1) obtain ts where
    ne: "get_valid_routes dl inp \<noteq> []"
    and ts: "mapM (cost_term shipments) (route_costs_of (get_valid_routes dl inp)) = Inr ts"
    and sh: "shipments = LpVariable_dicts Shipment (keys (route_costs_of (get_valid_routes dl inp)))
               (Some 0) None LpInteger"
    and ac: "add_constraints tr dl
       (set_objective \<lparr>p_name = ''Cost_Minimization'', objective = None, constraints = []\<rparr>
          (lpSum ts))
       shipments inp (route_costs_of (get_valid_routes dl inp)) = Inr model"
    unfolding build_cost_model_def
    by (auto simp: Let_def split: if_splits sum.splits)
  from add_constraints_retranslate [OF ac assms(2)] ne ts sh show ?thesis
    unfolding build_cost_model_def by (simp add: Let_def)
qed

lemma build_time_model_retranslate:
  assumes "build_time_model tr dl inp = Inr (Some (model, shipments, max_time))"
    and "distinct (map (\<lambda>d. tr' (c_name d)) (constraints model))"
  shows "build_time_model tr' dl inp = Inr (Some (model, shipments, max_time))"
proof -
  let ?m0 = "\<lparr>p_name = ''Time_Minimization'', objective = None, constraints = []\<rparr>"
  from assms(1) obtain route_info lead_times M model1 model3 where
    ne: "get_valid_routes dl inp \<noteq> []"
    and ril: "route_info_loop dl (get_valid_routes dl inp) ([], []) = Inr (route_info, lead_times)"
    and sh: "shipments = LpVariable_dicts Shipment (keys route_info) (Some 0) None LpInteger"
    and M: "big_M lead_times = Inr M"
    and l: "add_each tr (link_constraints (LpVariable_dicts Route_Used (keys route_info) None None LpBinary)
              shipments M) (keys route_info) ?m0 = Inr model1"
    and mt: "max_time = LpVariable Max_Delivery_Time (Some 0) None LpContinuous"
    and t: "add_each tr (max_time_constraint (LpVariable_dicts Route_Used (keys route_info) None None LpBinary)
              max_time M) lead_times (set_objective model1 (Var max_time)) = Inr model3"
    and ac: "add_constraints tr dl model3 shipments inp route_info = Inr model"
    unfolding build_time_model_def
    by (auto simp: Let_def split: if_splits sum.splits prod.splits)
  from add_constraints_grows [OF ac] obtain cs where cs: "constraints model = constraints model3 @ cs"
    by blast
  from add_each_grows [OF t] obtain cs3 where
    cs3: "constraints model3 = constraints (set_objective model1 (Var max_time)) @ cs3" by blast
  have d3: "distinct (map (\<lambda>d. tr' (c_name d)) (constraints model3))"
    using assms(2) unfolding cs by auto
  then have d1: "distinct (map (\<lambda>d. tr' (c_name d)) (constraints model1))"
    unfolding cs3 by (auto simp: set_objective_def)
  note l' = add_each_retranslate [OF l d1]
  note t' = add_each_retranslate [OF t d3]
  note ac' = add_constraints_retranslate [OF ac assms(2)]
  show ?thesis
    using ne ril sh M l' mt t' ac'
    unfolding build_time_model_def by (simp add: Let_def)
qed

lemma scenario_valid_routes:
  "get_valid_routes scenario_dl scenario_input =
     [(''A'', ''Rail'', 80), (''A'', ''Truck'', 100), (''B'', ''Truck'', 120)]"
  by (simp add: get_valid_routes_def scenario_dl_def scenario_input_def keys_def
      py_strip_names Let_def)

lemma scenario_build_cost_id:
  "build_cost_model id scenario_dl scenario_input =
     Inr (Some (scenario_cost_program, scenario_shipments))"
  unfolding build_cost_model_def scenario_valid_routes
  by (simp add: scenario_dl_def scenario_input_def route_costs_of_def py_dict_def keys_def
      LpVariable_dicts_def cost_term_def getitem_def add_constraints_def warehouse_info_def
      vehicle_capacities_def weight_term_def add_constraint_def set_objective_def
      capacity_constraint_def vehicle_constraint_def
      scenario_cost_program_def scenario_shipments_def scenario_shared_constraints_def
      shipment_var_def Let_def)

lemma scenario_build_time_id:
  "build_time_model id scenario_dl scenario_input =
     Inr (Some (scenario_time_program, scenario_shipments, max_time_var))"
  unfolding build_time_model_def scenario_valid_routes
  by (simp add: scenario_dl_def scenario_input_def find_route_def big_M_def py_max_def keys_def
      LpVariable_dicts_def link_constraints_def max_time_constraint_def getitem_def
      add_constraints_def warehouse_info_def py_dict_def
      vehicle_capacities_def weight_term_def add_constraint_def set_objective_def
      capacity_constraint_def vehicle_constraint_def
      scenario_time_program_def scenario_shipments_def scenario_shared_constraints_def
      shipment_var_def route_used_var_def max_time_var_def Let_def)

lemma scenario_build_cost:
  assumes "distinct (map (\<lambda>c. tr (c_name c)) (constraints scenario_cost_program))"
  shows "build_cost_model tr scenario_dl scenario_input =
     Inr (Some (scenario_cost_program, scenario_shipments))"
  using build_cost_model_retranslate [OF scenario_build_cost_id assms] .

lemma scenario_build_time:
  assumes "distinct (map (\<lambda>c. tr (c_name c)) (constraints scenario_time_program))"
  shows "build_time_model tr scenario_dl scenario_input =
     Inr (Some (scenario_time_program, scenario_shipments, max_time_var))"
  using build_time_model_retranslate [OF scenario_build_time_id assms] .

lemma scenario_names_distinct:
  "distinct (map (\<lambda>c. id (c_name c)) (constraints scenario_time_program))"
  "distinct (map (\<lambda>c. id (c_name c)) (constraints scenario_cost_program))"
  by (simp_all add: scenario_time_program_def scenario_cost_program_def
      scenario_shared_constraints_def)


subsection \<open>Dictionaries and the route filter\<close>

lemma set_foldl_update:
  "fst ` set (foldl (\<lambda>d kv. AList.update (fst kv) (snd kv) d) d0 kvs) =
     fst ` set d0 \<union> fst ` set kvs"
  by (induction kvs arbitrary: d0) (auto simp: AList.dom_update)

lemma set_keys_py_dict: "set (keys (py_dict kvs)) = fst ` set kvs"
  using set_foldl_update [of "[]" kvs] by (simp add: keys_def py_dict_def)

lemma set_valid_routes_loop:
  "set (valid_routes_loop inp rs) =
     {(py_strip (destination r), py_strip (route_mode_name r), total_cost r) | r.
        r \<in> set rs \<and> py_strip (destination r) \<in> set (selected_warehouses inp) \<and>
        lead_time r \<le> of_int (max_delivery_time inp) \<and>
        (py_strip (destination r), py_strip (route_mode_name r)) \<in> set (keys (max_vehicles inp))}"
  by (induction rs) (auto simp: Let_def)

lemma set_eligible_edges:
  "set (eligible_edges dl inp) = (\<lambda>(wh, mode, cost). (wh, mode)) ` set (get_valid_routes dl inp)"
  by (force simp add: eligible_edges_def route_costs_of_def set_keys_py_dict image_image)

lemma scenario_stripped: "stripped_names scenario_dl"
  by (simp add: stripped_names_def scenario_dl_def py_strip_names)

text \<open>
  Claim C6, as amended. A pair (warehouse, mode) is an eligible edge exactly when some row
  of the routes table has, after \<^verbatim>\<open>strip()\<close> of both fields, that destination and that
  mode, the destination is among the selected warehouses, the lead time of the row is at
  most \<open>max_delivery_time\<close>, and the pair is a key of \<open>max_vehicles\<close>; nothing else enters
  the test. On a table whose destinations and modes carry no surrounding whitespace this
  is the condition of the specification, on the fields as they are.
\<close>

theorem eligible_edge_iff:
  "((wh, mode) \<in> set (eligible_edges dl inp) \<longleftrightarrow>
      (\<exists>r \<in> set (routes dl).
          py_strip (destination r) = wh \<and> py_strip (route_mode_name r) = mode \<and>
          wh \<in> set (selected_warehouses inp) \<and>
          lead_time r \<le> of_int (max_delivery_time inp) \<and>
          (wh, mode) \<in> set (keys (max_vehicles inp)))) \<and>
   (stripped_names dl \<longrightarrow>
      ((wh, mode) \<in> set (eligible_edges dl inp) \<longleftrightarrow>
        (\<exists>r \<in> set (routes dl).
          destination r = wh \<and> route_mode_name r = mode \<and>
          wh \<in> set (selected_warehouses inp) \<and>
          lead_time r \<le> of_int (max_delivery_time inp) \<and>
          (wh, mode) \<in> set (keys (max_vehicles inp)))) \<and>
      ((wh, mode) \<in> set (eligible_edges dl inp) \<longleftrightarrow> spec_eligible dl inp wh mode))"
proof -
  have gen: "(wh, mode) \<in> set (eligible_edges dl inp) \<longleftrightarrow>
      (\<exists>r \<in> set (routes dl).
          py_strip (destination r) = wh \<and> py_strip (route_mode_name r) = mode \<and>
          wh \<in> set (selected_warehouses inp) \<and>
          lead_time r \<le> of_int (max_delivery_time inp) \<and>
          (wh, mode) \<in> set (keys (max_vehicles inp)))"
    unfolding set_eligible_edges get_valid_routes_def set_valid_routes_loop
    by (auto simp: image_iff)
  moreover have "stripped_names dl \<Longrightarrow>
     (\<exists>r \<in> set (routes dl).
          py_strip (destination r) = wh \<and> py_strip (route_mode_name r) = mode \<and>
          wh \<in> set (selected_warehouses inp) \<and>
          lead_time r \<le> of_int (max_delivery_time inp) \<and>
          (wh, mode) \<in> set (keys (max_vehicles inp))) \<longleftrightarrow>
      (\<exists>r \<in> set (routes dl).
          destination r = wh \<and> route_mode_name r = mode \<and>
          wh \<in> set (selected_warehouses inp) \<and>
          lead_time r \<le> of_int (max_delivery_time inp) \<and>
          (wh, mode) \<in> set (keys (max_vehicles inp)))"
    unfolding stripped_names_def list_all_iff by metis
  moreover have "spec_eligible dl inp wh mode \<longleftrightarrow>
      (\<exists>r \<in> set (routes dl).
          destination r = wh \<and> route_mode_name r = mode \<and>
          wh \<in> set (selected_warehouses inp) \<and>
          lead_time r \<le> of_int (max_delivery_time inp) \<and>
          (wh, mode) \<in> set (keys (max_vehicles inp)))"
    by (simp add: spec_eligible_def list_ex_iff)
  ultimately show ?thesis by blast
qed

theorem eligible_edge_iff_witness:
  "(''A'', ''Rail'') \<in> set (eligible_edges scenario_dl scenario_input) \<and>
   stripped_names scenario_dl \<and>
   spec_eligible scenario_dl scenario_input ''A'' ''Rail'' \<and>
   (\<exists>r \<in> set (routes scenario_dl). destination r = ''A'' \<and> route_mode_name r = ''Rail'' \<and>
       ''A'' \<in> set (selected_warehouses scenario_input) \<and>
       lead_time r \<le> of_int (max_delivery_time scenario_input) \<and>
       (''A'', ''Rail'') \<in> set (keys (max_vehicles scenario_input)))"
proof -
  have e: "(''A'', ''Rail'') \<in> set (eligible_edges scenario_dl scenario_input)"
    by (simp add: eligible_edges_def route_costs_of_def py_dict_def keys_def get_valid_routes_def
        scenario_dl_def scenario_input_def py_strip_names Let_def)
  show ?thesis
    using e scenario_stripped eligible_edge_iff [of "''A''" "''Rail''" scenario_dl scenario_input]
    by blast
qed

text \<open>
  The claim as stated compares the fields of the row with the pair as they are. On the
  table whose only row has destination \<^verbatim>\<open>' A'\<close> and mode \<^verbatim>\<open>'Truck '\<close>, the pair (A, Truck) is
  an eligible edge, and no row has destination \<^verbatim>\<open>'A'\<close> and mode \<^verbatim>\<open>'Truck'\<close>.
\<close>

theorem unstripped_route_eligible_counterexample:
  "map (\<lambda>r. (destination r, route_mode_name r)) (routes unstripped_dl) = [('' A'', ''Truck '')] \<and>
   eligible_edges unstripped_dl unstripped_input = [(''A'', ''Truck'')] \<and>
   \<not> spec_eligible unstripped_dl unstripped_input ''A'' ''Truck''"
  by (simp add: eligible_edges_def route_costs_of_def py_dict_def keys_def get_valid_routes_def
      unstripped_dl_def unstripped_input_def py_strip_names spec_eligible_def Let_def)

subsection \<open>Statuses that are not optimal\<close>

lemma LpStatus_Optimal [simp]: "(LpStatus st = ''Optimal'') = (st = Optimal)"
  by (cases st) simp_all

text \<open>
  Claim C9. When the solver's status for a built program is not \<open>Optimal\<close>, the result of
  that program carries the name of the solver's status unchanged, an empty solution, and
  \<^verbatim>\<open>None\<close> for \<^verbatim>\<open>total_cost\<close> (and for \<^verbatim>\<open>max_lead_time\<close> in the time result); the branch
  raises nothing, the result is a value.
\<close>

theorem non_optimal_status_propagated:
  "(build_cost_model tr dl inp = Inr (Some (cost_model, cost_vars)) \<and>
      fst (solver cost_model) \<noteq> Optimal \<longrightarrow>
    solve_cost tr dl solver inp =
      Inr [(''status'', PStr (LpStatus (fst (solver cost_model)))),
           (''solution'', PSolution []),
           (''total_cost'', PNone)]) \<and>
   (build_time_model tr dl inp = Inr (Some (time_model, time_vars, max_time)) \<and>
      fst (solver time_model) \<noteq> Optimal \<longrightarrow>
    solve_time tr dl solver inp =
      Inr [(''status'', PStr (LpStatus (fst (solver time_model)))),
           (''solution'', PSolution []),
           (''max_lead_time'', PNone),
           (''total_cost'', PNone)])"
  by (simp add: solve_cost_def solve_time_def extract_cost_def extract_time_def)

theorem non_optimal_status_propagated_witness:
  "build_cost_model id scenario_dl scenario_input =
     Inr (Some (scenario_cost_program, scenario_shipments)) \<and>
   build_time_model id scenario_dl scenario_input =
     Inr (Some (scenario_time_program, scenario_shipments, max_time_var)) \<and>
   fst (failing_solver scenario_cost_program) \<noteq> Optimal \<and>
   fst (failing_solver scenario_time_program) \<noteq> Optimal \<and>
   solve_cost id scenario_dl failing_solver scenario_input =
     Inr [(''status'', PStr ''Infeasible''), (''solution'', PSolution []),
          (''total_cost'', PNone)] \<and>
   solve_time id scenario_dl failing_solver scenario_input =
     Inr [(''status'', PStr ''Infeasible''), (''solution'', PSolution []),
          (''max_lead_time'', PNone), (''total_cost'', PNone)]"
  using scenario_build_cost_id scenario_build_time_id
    non_optimal_status_propagated [where tr = id and dl = scenario_dl and inp = scenario_input
      and cost_model = scenario_cost_program and cost_vars = scenario_shipments
      and solver = failing_solver and time_model = scenario_time_program
      and time_vars = scenario_shipments and max_time = max_time_var]
  by (simp add: failing_solver_def)

subsection \<open>No eligible route\<close>

text \<open>
  Claim C3, as amended. When no route is valid, both builders return \<^verbatim>\<open>None\<close> before any
  program is built, and \<^verbatim>\<open>solve\<close> returns, whatever the solver is, two results whose status
  is the string \<^verbatim>\<open>Infeasible\<close> (the name the solver's own infeasible status has), with an
  empty solution and \<^verbatim>\<open>None\<close> totals; the time result stores its \<^verbatim>\<open>None\<close> under the key
  \<^verbatim>\<open>max_delivery_time\<close>.
\<close>

theorem no_valid_routes_result:
  assumes "get_valid_routes dl inp = []"
  shows "build_cost_model tr dl inp = Inr None \<and> build_time_model tr dl inp = Inr None \<and>
         solve tr dl solver inp =
           Inr [(''cost_optimization'',
                  [(''status'', PStr ''Infeasible''), (''solution'', PSolution []),
                   (''total_cost'', PNone)]),
                (''time_optimization'',
                  [(''status'', PStr ''Infeasible''), (''solution'', PSolution []),
                   (''max_delivery_time'', PNone), (''total_cost'', PNone)])]"
  using assms
  by (simp add: build_cost_model_def build_time_model_def solve_def solve_cost_def solve_time_def)

lemma no_route_input_empty: "get_valid_routes scenario_dl no_route_input = []"
  by (simp add: get_valid_routes_def scenario_dl_def no_route_input_def keys_def
      py_strip_names Let_def)

theorem no_valid_routes_result_witness:
  "get_valid_routes scenario_dl no_route_input = [] \<and>
   build_cost_model id scenario_dl no_route_input = Inr None \<and>
   build_time_model id scenario_dl no_route_input = Inr None \<and>
   solve id scenario_dl idle_solver no_route_input =
     Inr [(''cost_optimization'',
            [(''status'', PStr ''Infeasible''), (''solution'', PSolution []),
             (''total_cost'', PNone)]),
          (''time_optimization'',
            [(''status'', PStr ''Infeasible''), (''solution'', PSolution []),
             (''max_delivery_time'', PNone), (''total_cost'', PNone)])]"
  using no_route_input_empty
    no_valid_routes_result [OF no_route_input_empty, of id idle_solver]
  by simp

text \<open>
  The claim as stated asks for the status \<^verbatim>\<open>NoEligibleRoutes\<close>; on the instance without a
  valid route the status of both results is \<^verbatim>\<open>Infeasible\<close>.
\<close>

theorem no_eligible_routes_status_counterexample:
  "get_valid_routes scenario_dl no_route_input = [] \<and>
   (case solve id scenario_dl idle_solver no_route_input of
      Inl e \<Rightarrow> False
    | Inr results \<Rightarrow>
        map (\<lambda>r. map_of (snd r) ''status'') results =
          [Some (PStr ''Infeasible''), Some (PStr ''Infeasible'')]) \<and>
   PStr ''Infeasible'' \<noteq> PStr ''NoEligibleRoutes''"
  by (simp add: get_valid_routes_def scenario_dl_def no_route_input_def keys_def
      py_strip_names Let_def build_cost_model_def build_time_model_def solve_def
      solve_cost_def solve_time_def)


subsection \<open>The time program: what the builder puts in\<close>

lemma mapM_Inr_D: "mapM f xs = Inr ys \<Longrightarrow> list_all2 (\<lambda>x y. f x = Inr y) xs ys"
  by (induction xs arbitrary: ys) (auto split: sum.splits)

lemma mapM_Inr_I: "list_all2 (\<lambda>x y. f x = Inr y) xs ys \<Longrightarrow> mapM f xs = Inr ys"
  by (induction xs ys rule: list_all2_induct) auto

lemma mapM_Inr_iff: "mapM f xs = Inr ys \<longleftrightarrow> list_all2 (\<lambda>x y. f x = Inr y) xs ys"
  using mapM_Inr_D mapM_Inr_I by blast

lemma mapM_Inr_mem:
  assumes "mapM f xs = Inr ys" and "x \<in> set xs"
  shows "\<exists>y \<in> set ys. f x = Inr y"
  using assms unfolding mapM_Inr_iff
  by (induction xs ys rule: list_all2_induct) auto

lemma getitem_LpVariable_dicts:
  "k \<in> set ks \<Longrightarrow>
     getitem (LpVariable_dicts nm ks lo up c) k = Inr (LpVariable (nm (fst k) (snd k)) lo up c)"
  by (induction ks) (auto simp: getitem_def LpVariable_dicts_def)

lemma keys_LpVariable_dicts [simp]: "keys (LpVariable_dicts nm ks lo up c) = ks"
  by (simp add: keys_def LpVariable_dicts_def comp_def)

lemma route_info_loop_keys:
  "route_info_loop dl vrs (ri, lt) = Inr (ri', lt') \<Longrightarrow> map fst ri = map fst lt \<Longrightarrow>
     map fst ri' = map fst lt'"
proof (induction vrs arbitrary: ri lt)
  case Nil
  then show ?case by simp
next
  case (Cons vr vrs)
  obtain wh mode cost where vr: "vr = (wh, mode, cost)" by (cases vr)
  from Cons.prems obtain r where
    r: "find_route dl wh mode = Inr r"
    and rest: "route_info_loop dl vrs
        (AList.update (wh, mode) cost ri, AList.update (wh, mode) (lead_time r) lt) = Inr (ri', lt')"
    unfolding vr by (auto split: sum.splits)
  have "map fst (AList.update (wh, mode) cost ri) = map fst (AList.update (wh, mode) (lead_time r) lt)"
    using Cons.prems(2) by (simp add: AList.update_keys)
  from Cons.IH [OF rest this] show ?case .
qed

lemma set_update_subset: "set (AList.update k v al) \<subseteq> insert (k, v) (set al)"
  by (induction al) auto

lemma route_info_loop_lead_times:
  "route_info_loop dl vrs (ri, lt) = Inr (ri', lt') \<Longrightarrow>
   (\<And>k v. (k, v) \<in> set lt \<Longrightarrow> \<exists>r. find_route dl (fst k) (snd k) = Inr r \<and> v = lead_time r) \<Longrightarrow>
   (k, v) \<in> set lt' \<Longrightarrow> \<exists>r. find_route dl (fst k) (snd k) = Inr r \<and> v = lead_time r"
proof (induction vrs arbitrary: ri lt)
  case Nil
  then show ?case by simp
next
  case (Cons vr vrs)
  obtain wh mode cost where vr: "vr = (wh, mode, cost)" by (cases vr)
  from Cons.prems(1) obtain r where
    r: "find_route dl wh mode = Inr r"
    and rest: "route_info_loop dl vrs
        (AList.update (wh, mode) cost ri, AList.update (wh, mode) (lead_time r) lt) = Inr (ri', lt')"
    unfolding vr by (auto split: sum.splits)
  show ?case
  proof (rule Cons.IH [OF rest _ Cons.prems(3)])
    fix k' v'
    assume "(k', v') \<in> set (AList.update (wh, mode) (lead_time r) lt)"
    then have "(k', v') = ((wh, mode), lead_time r) \<or> (k', v') \<in> set lt"
      using set_update_subset by fastforce
    then show "\<exists>r. find_route dl (fst k') (snd k') = Inr r \<and> v' = lead_time r"
      using r Cons.prems(2) by auto
  qed
qed

lemma route_info_loop_key_set:
  "route_info_loop dl vrs (ri, lt) = Inr (ri', lt') \<Longrightarrow>
     fst ` set ri' = fst ` set ri \<union> (\<lambda>(wh, mode, cost). (wh, mode)) ` set vrs"
proof (induction vrs arbitrary: ri lt)
  case Nil
  then show ?case by simp
next
  case (Cons vr vrs)
  obtain wh mode cost where vr: "vr = (wh, mode, cost)" by (cases vr)
  from Cons.prems(1) obtain r where
    r: "find_route dl wh mode = Inr r"
    and rest: "route_info_loop dl vrs
        (AList.update (wh, mode) cost ri, AList.update (wh, mode) (lead_time r) lt) = Inr (ri', lt')"
    unfolding vr by (auto split: sum.splits)
  from Cons.IH [OF rest] show ?case unfolding vr by (auto simp: AList.dom_update)
qed

lemma py_max_Max: "py_max xs = Inr m \<Longrightarrow> xs \<noteq> [] \<and> m = Max (set xs)"
proof (cases xs)
  case Nil
  then show "py_max xs = Inr m \<Longrightarrow> ?thesis" by (simp add: py_max_def)
next
  case (Cons x rest)
  have "foldl max x rest = fold max rest x"
    by (simp add: foldl_conv_fold max.commute)
  moreover have "Max (set (x # rest)) = fold max rest x"
    by (rule Max.set_eq_fold)
  ultimately show "py_max xs = Inr m \<Longrightarrow> ?thesis"
    using Cons by (auto simp: py_max_def)
qed

lemma big_M_Max:
  "big_M lt = Inr M \<Longrightarrow> lt \<noteq> [] \<and> M = Max (snd ` set lt) + 1"
  using py_max_Max [of "map snd lt"]
  by (auto simp: big_M_def split: sum.splits)

lemma build_cost_model_SomeD:
  assumes "build_cost_model tr dl inp = Inr (Some (model, shipments))"
  obtains cost_terms ts caps ceils where
    "get_valid_routes dl inp \<noteq> []"
    "shipments = LpVariable_dicts Shipment (eligible_edges dl inp) (Some 0) None LpInteger"
    "mapM (cost_term shipments) (route_costs_of (get_valid_routes dl inp)) = Inr cost_terms"
    "mapM (weight_term shipments (vehicle_capacities dl)) (eligible_edges dl inp) = Inr ts"
    "mapM (capacity_constraint (warehouse_info dl) (vehicle_capacities dl) shipments
             (eligible_edges dl inp)) (selected_warehouses inp) = Inr caps"
    "mapM (vehicle_constraint shipments) (max_vehicles inp) = Inr ceils"
    "model = \<lparr>p_name = ''Cost_Minimization'', objective = Some (lpSum cost_terms),
              constraints =
                Constraint ''Total_Demand'' (lpSum ts) GE (Num (of_int (total_demand inp))) #
                concat caps @ concat ceils\<rparr>"
proof -
  from assms obtain cost_terms where
    ne: "get_valid_routes dl inp \<noteq> []"
    and sh: "shipments = LpVariable_dicts Shipment (eligible_edges dl inp) (Some 0) None LpInteger"
    and ct: "mapM (cost_term shipments) (route_costs_of (get_valid_routes dl inp)) = Inr cost_terms"
    and ac: "add_constraints tr dl
       (set_objective \<lparr>p_name = ''Cost_Minimization'', objective = None, constraints = []\<rparr>
          (lpSum cost_terms))
       shipments inp (route_costs_of (get_valid_routes dl inp)) = Inr model"
    unfolding build_cost_model_def eligible_edges_def
    by (auto simp: Let_def split: if_splits sum.splits)
  from add_constraints_Inr [OF ac] obtain ts caps ceils where
    "mapM (weight_term shipments (vehicle_capacities dl)) (eligible_edges dl inp) = Inr ts"
    "mapM (capacity_constraint (warehouse_info dl) (vehicle_capacities dl) shipments
             (eligible_edges dl inp)) (selected_warehouses inp) = Inr caps"
    "mapM (vehicle_constraint shipments) (max_vehicles inp) = Inr ceils"
    "model = \<lparr>p_name = ''Cost_Minimization'', objective = Some (lpSum cost_terms),
              constraints =
                Constraint ''Total_Demand'' (lpSum ts) GE (Num (of_int (total_demand inp))) #
                concat caps @ concat ceils\<rparr>"
    unfolding eligible_edges_def by (auto simp: set_objective_def)
  with ne sh ct show ?thesis by (rule that)
qed

lemma build_time_model_SomeD:
  assumes "build_time_model tr dl inp = Inr (Some (model, shipments, max_time))"
  obtains route_info lead_times M links mts ts caps ceils where
    "get_valid_routes dl inp \<noteq> []"
    "route_info_loop dl (get_valid_routes dl inp) ([], []) = Inr (route_info, lead_times)"
    "shipments = LpVariable_dicts Shipment (keys route_info) (Some 0) None LpInteger"
    "big_M lead_times = Inr M"
    "mapM (link_constraints (LpVariable_dicts Route_Used (keys route_info) None None LpBinary)
             shipments M) (keys route_info) = Inr links"
    "max_time = max_time_var"
    "mapM (max_time_constraint (LpVariable_dicts Route_Used (keys route_info) None None LpBinary)
             max_time M) lead_times = Inr mts"
    "mapM (weight_term shipments (vehicle_capacities dl)) (keys route_info) = Inr ts"
    "mapM (capacity_constraint (warehouse_info dl) (vehicle_capacities dl) shipments
             (keys route_info)) (selected_warehouses inp) = Inr caps"
    "mapM (vehicle_constraint shipments) (max_vehicles inp) = Inr ceils"
    "model = \<lparr>p_name = ''Time_Minimization'', objective = Some (Var max_time),
              constraints =
                concat links @ concat mts @
                Constraint ''Total_Demand'' (lpSum ts) GE (Num (of_int (total_demand inp))) #
                concat caps @ concat ceils\<rparr>"
proof -
  let ?m0 = "\<lparr>p_name = ''Time_Minimization'', objective = None, constraints = []\<rparr>"
  from assms obtain route_info lead_times M model1 model3 where
    ne: "get_valid_routes dl inp \<noteq> []"
    and ril: "route_info_loop dl (get_valid_routes dl inp) ([], []) = Inr (route_info, lead_times)"
    and sh: "shipments = LpVariable_dicts Shipment (keys route_info) (Some 0) None LpInteger"
    and M: "big_M lead_times = Inr M"
    and l: "add_each tr (link_constraints (LpVariable_dicts Route_Used (keys route_info) None None LpBinary)
              shipments M) (keys route_info) ?m0 = Inr model1"
    and mt: "max_time = max_time_var"
    and t: "add_each tr (max_time_constraint (LpVariable_dicts Route_Used (keys route_info) None None LpBinary)
              max_time M) lead_times (set_objective model1 (Var max_time)) = Inr model3"
    and ac: "add_constraints tr dl model3 shipments inp route_info = Inr model"
    unfolding build_time_model_def max_time_var_def
    by (auto simp: Let_def split: if_splits sum.splits prod.splits)
  from add_each_Inr [OF l] obtain links where
    links: "mapM (link_constraints (LpVariable_dicts Route_Used (keys route_info) None None LpBinary)
             shipments M) (keys route_info) = Inr links"
    and m1: "model1 = ?m0\<lparr>constraints := constraints ?m0 @ concat links\<rparr>" by blast
  from add_each_Inr [OF t] obtain mts where
    mts: "mapM (max_time_constraint (LpVariable_dicts Route_Used (keys route_info) None None LpBinary)
             max_time M) lead_times = Inr mts"
    and m3: "model3 = (set_objective model1 (Var max_time))
               \<lparr>constraints := constraints (set_objective model1 (Var max_time)) @ concat mts\<rparr>"
    by blast
  from add_constraints_Inr [OF ac] obtain ts caps ceils where
    ts: "mapM (weight_term shipments (vehicle_capacities dl)) (keys route_info) = Inr ts"
    and caps: "mapM (capacity_constraint (warehouse_info dl) (vehicle_capacities dl) shipments
             (keys route_info)) (selected_warehouses inp) = Inr caps"
    and ceils: "mapM (vehicle_constraint shipments) (max_vehicles inp) = Inr ceils"
    and m: "model = model3\<lparr>constraints := constraints model3 @
            Constraint ''Total_Demand'' (lpSum ts) GE (Num (of_int (total_demand inp))) #
            concat caps @ concat ceils\<rparr>"
    by blast
  have "model = \<lparr>p_name = ''Time_Minimization'', objective = Some (Var max_time),
              constraints =
                concat links @ concat mts @
                Constraint ''Total_Demand'' (lpSum ts) GE (Num (of_int (total_demand inp))) #
                concat caps @ concat ceils\<rparr>"
    unfolding m m3 m1 by (simp add: set_objective_def)
  with ne ril sh M links mt mts ts caps ceils show ?thesis by (rule that)
qed

lemma link_semantics:
  assumes "lt < M"
  shows "(\<forall>a. var_ok a (shipment_var wh mode) \<and> var_ok a (route_used_var wh mode) \<and>
             var_ok a max_time_var \<and> holds a (link_lower (wh, mode)) \<and>
             holds a (link_upper M (wh, mode)) \<and> holds a (max_time_bound M (wh, mode) lt) \<longrightarrow>
             (a (Route_Used wh mode) = 0 \<longrightarrow> a (Shipment wh mode) = 0) \<and>
             (a (Shipment wh mode) > 0 \<longrightarrow> a (Route_Used wh mode) = 1) \<and>
             (a (Route_Used wh mode) = 1 \<longrightarrow> lt \<le> a Max_Delivery_Time)) \<and>
         (\<forall>a. a (Route_Used wh mode) = 0 \<longrightarrow> eval a (c_rhs (max_time_bound M (wh, mode) lt)) < 0) \<and>
         (\<forall>a. var_ok a max_time_var \<and> a (Route_Used wh mode) = 0 \<longrightarrow>
              holds a (max_time_bound M (wh, mode) lt))"
  using assms
  by (auto simp: var_ok_def holds_def link_lower_def link_upper_def max_time_bound_def
      shipment_var_def route_used_var_def max_time_var_def)

lemma time_model_edges:
  assumes "build_time_model tr dl inp = Inr (Some (model, shipments, max_time))"
  shows "\<exists>route_info lead_times M.
     route_info_loop dl (get_valid_routes dl inp) ([], []) = Inr (route_info, lead_times) \<and>
     keys lead_times = keys shipments \<and>
     set (keys shipments) = set (eligible_edges dl inp) \<and>
     max_time = max_time_var \<and>
     big_M lead_times = Inr M \<and> M = Max (snd ` set lead_times) + 1 \<and>
     (\<forall>(k, lt) \<in> set lead_times.
        (\<exists>r. find_route dl (fst k) (snd k) = Inr r \<and> lt = lead_time r) \<and>
        link_lower k \<in> set (constraints model) \<and>
        link_upper M k \<in> set (constraints model) \<and>
        max_time_bound M k lt \<in> set (constraints model) \<and>
        (\<forall>a. var_ok a (shipment_var (fst k) (snd k)) \<and> var_ok a (route_used_var (fst k) (snd k)) \<and>
             var_ok a max_time_var \<and> holds a (link_lower k) \<and>
             holds a (link_upper M k) \<and> holds a (max_time_bound M k lt) \<longrightarrow>
             (a (Route_Used (fst k) (snd k)) = 0 \<longrightarrow> a (Shipment (fst k) (snd k)) = 0) \<and>
             (a (Shipment (fst k) (snd k)) > 0 \<longrightarrow> a (Route_Used (fst k) (snd k)) = 1) \<and>
             (a (Route_Used (fst k) (snd k)) = 1 \<longrightarrow> lt \<le> a Max_Delivery_Time)) \<and>
        (\<forall>a. a (Route_Used (fst k) (snd k)) = 0 \<longrightarrow> eval a (c_rhs (max_time_bound M k lt)) < 0) \<and>
        (\<forall>a. var_ok a max_time_var \<and> a (Route_Used (fst k) (snd k)) = 0 \<longrightarrow>
              holds a (max_time_bound M k lt)))"
proof -
  from assms obtain route_info lead_times M links mts extra where
    ril: "route_info_loop dl (get_valid_routes dl inp) ([], []) = Inr (route_info, lead_times)"
    and sh: "shipments = LpVariable_dicts Shipment (keys route_info) (Some 0) None LpInteger"
    and M: "big_M lead_times = Inr M"
    and links: "mapM (link_constraints (LpVariable_dicts Route_Used (keys route_info) None None LpBinary)
             shipments M) (keys route_info) = Inr links"
    and mt: "max_time = max_time_var"
    and mts: "mapM (max_time_constraint (LpVariable_dicts Route_Used (keys route_info) None None LpBinary)
             max_time M) lead_times = Inr mts"
    and cons: "constraints model = concat links @ concat mts @ extra"
    by (rule build_time_model_SomeD) simp
  have keys_eq: "keys lead_times = keys route_info"
    using route_info_loop_keys [OF ril] by (simp add: keys_def)
  have keys_sh: "keys shipments = keys route_info"
    by (simp add: sh)
  have "set (keys route_info) = set (eligible_edges dl inp)"
    using route_info_loop_key_set [OF ril]
    by (simp add: keys_def set_eligible_edges)
  then have key_set: "set (keys shipments) = set (eligible_edges dl inp)"
    by (simp only: keys_sh)
  have Mmax: "M = Max (snd ` set lead_times) + 1"
    using big_M_Max [OF M] by simp
  have per_edge: "(\<exists>r. find_route dl (fst k) (snd k) = Inr r \<and> lt = lead_time r) \<and>
        link_lower k \<in> set (constraints model) \<and>
        link_upper M k \<in> set (constraints model) \<and>
        max_time_bound M k lt \<in> set (constraints model) \<and> lt < M"
    if klt: "(k, lt) \<in> set lead_times" for k lt
  proof -
    have "k \<in> set (keys lead_times)"
      using klt by (force simp: keys_def)
    then have kin: "k \<in> set (keys route_info)"
      by (simp only: keys_eq)
    have first: "\<exists>r. find_route dl (fst k) (snd k) = Inr r \<and> lt = lead_time r"
      using route_info_loop_lead_times [OF ril _ klt] by simp
    from mapM_Inr_mem [OF links kin] obtain cs where
      cs: "cs \<in> set links"
      and "link_constraints (LpVariable_dicts Route_Used (keys route_info) None None LpBinary)
             shipments M k = Inr cs"
      by blast
    then have "cs = [link_lower k, link_upper M k]"
      using kin
      by (simp add: link_constraints_def sh getitem_LpVariable_dicts link_lower_def
          link_upper_def shipment_var_def route_used_var_def)
    with cs have lk: "link_lower k \<in> set (concat links)" "link_upper M k \<in> set (concat links)"
      by force+
    from mapM_Inr_mem [OF mts klt] obtain c where
      c: "c \<in> set mts"
      and "max_time_constraint (LpVariable_dicts Route_Used (keys route_info) None None LpBinary)
             max_time M (k, lt) = Inr c"
      by blast
    then have "c = [max_time_bound M k lt]"
      using kin
      by (simp add: max_time_constraint_def mt getitem_LpVariable_dicts max_time_bound_def
          route_used_var_def)
    with c have mb: "max_time_bound M k lt \<in> set (concat mts)" by force
    have "lt \<le> Max (snd ` set lead_times)"
      using klt by (intro Max_ge) force+
    then have "lt < M" using Mmax by simp
    with first lk mb show ?thesis by (simp add: cons)
  qed
  have "\<forall>(k, lt) \<in> set lead_times.
        (\<exists>r. find_route dl (fst k) (snd k) = Inr r \<and> lt = lead_time r) \<and>
        link_lower k \<in> set (constraints model) \<and>
        link_upper M k \<in> set (constraints model) \<and>
        max_time_bound M k lt \<in> set (constraints model) \<and>
        (\<forall>a. var_ok a (shipment_var (fst k) (snd k)) \<and> var_ok a (route_used_var (fst k) (snd k)) \<and>
             var_ok a max_time_var \<and> holds a (link_lower k) \<and>
             holds a (link_upper M k) \<and> holds a (max_time_bound M k lt) \<longrightarrow>
             (a (Route_Used (fst k) (snd k)) = 0 \<longrightarrow> a (Shipment (fst k) (snd k)) = 0) \<and>
             (a (Shipment (fst k) (snd k)) > 0 \<longrightarrow> a (Route_Used (fst k) (snd k)) = 1) \<and>
             (a (Route_Used (fst k) (snd k)) = 1 \<longrightarrow> lt \<le> a Max_Delivery_Time)) \<and>
        (\<forall>a. a (Route_Used (fst k) (snd k)) = 0 \<longrightarrow> eval a (c_rhs (max_time_bound M k lt)) < 0) \<and>
        (\<forall>a. var_ok a max_time_var \<and> a (Route_Used (fst k) (snd k)) = 0 \<longrightarrow>
              holds a (max_time_bound M k lt))"
  proof (clarify, intro conjI)
    fix wh mode lt
    assume klt: "((wh, mode), lt) \<in> set lead_times"
    note pe = per_edge [OF klt]
    note ls = link_semantics [of lt M wh mode]
    show "\<exists>r. find_route dl (fst (wh, mode)) (snd (wh, mode)) = Inr r \<and> lt = lead_time r"
      using pe by simp
    show "link_lower (wh, mode) \<in> set (constraints model)" using pe by simp
    show "link_upper M (wh, mode) \<in> set (constraints model)" using pe by simp
    show "max_time_bound M (wh, mode) lt \<in> set (constraints model)" using pe by simp
    show "\<forall>a. var_ok a (shipment_var (fst (wh, mode)) (snd (wh, mode))) \<and>
             var_ok a (route_used_var (fst (wh, mode)) (snd (wh, mode))) \<and>
             var_ok a max_time_var \<and> holds a (link_lower (wh, mode)) \<and>
             holds a (link_upper M (wh, mode)) \<and> holds a (max_time_bound M (wh, mode) lt) \<longrightarrow>
             (a (Route_Used (fst (wh, mode)) (snd (wh, mode))) = 0 \<longrightarrow>
                a (Shipment (fst (wh, mode)) (snd (wh, mode))) = 0) \<and>
             (a (Shipment (fst (wh, mode)) (snd (wh, mode))) > 0 \<longrightarrow>
                a (Route_Used (fst (wh, mode)) (snd (wh, mode))) = 1) \<and>
             (a (Route_Used (fst (wh, mode)) (snd (wh, mode))) = 1 \<longrightarrow> lt \<le> a Max_Delivery_Time)"
      using ls pe by simp
    show "\<forall>a. a (Route_Used (fst (wh, mode)) (snd (wh, mode))) = 0 \<longrightarrow>
            eval a (c_rhs (max_time_bound M (wh, mode) lt)) < 0"
      using ls pe by simp
    show "\<forall>a. var_ok a max_time_var \<and> a (Route_Used (fst (wh, mode)) (snd (wh, mode))) = 0 \<longrightarrow>
              holds a (max_time_bound M (wh, mode) lt)"
      using ls pe by simp
  qed
  with ril keys_eq keys_sh key_set mt M Mmax show ?thesis by auto
qed

text \<open>
  Claim C2. When the time builder returns a program, \<open>M\<close> is the greatest entry of
  \<^verbatim>\<open>lead_times\<close> plus one, where \<^verbatim>\<open>lead_times\<close> has one entry per eligible edge (the lead
  time of the first row of the table for that edge); for every edge the program contains
  the lower link \<open>1/10000 * used \<le> shipments\<close>, the upper link \<open>shipments \<le> M * used\<close> and
  \<open>max_time \<ge> lead_time - M * (1 - used)\<close>. Every assignment that respects the declared
  variables (integer shipments at least zero, binary indicator, \<open>max_time\<close> at least zero)
  and these three constraints has: indicator zero gives shipments zero, positive shipments
  give indicator one, indicator one gives \<open>max_time\<close> at least the lead time. With the
  indicator at zero the right side of the last constraint is negative, so it holds for
  every \<open>max_time\<close> at least zero.
\<close>

theorem time_model_big_M_linkage:
  assumes "build_time_model tr dl inp = Inr (Some (model, shipments, max_time))"
  shows "\<exists>route_info lead_times M.
     route_info_loop dl (get_valid_routes dl inp) ([], []) = Inr (route_info, lead_times) \<and>
     keys lead_times = keys shipments \<and>
     set (keys shipments) = set (eligible_edges dl inp) \<and>
     max_time = max_time_var \<and>
     big_M lead_times = Inr M \<and> M = Max (snd ` set lead_times) + 1 \<and>
     (\<forall>(k, lt) \<in> set lead_times.
        (\<exists>r. find_route dl (fst k) (snd k) = Inr r \<and> lt = lead_time r) \<and>
        link_lower k \<in> set (constraints model) \<and>
        link_upper M k \<in> set (constraints model) \<and>
        max_time_bound M k lt \<in> set (constraints model) \<and>
        (\<forall>a. var_ok a (shipment_var (fst k) (snd k)) \<and> var_ok a (route_used_var (fst k) (snd k)) \<and>
             var_ok a max_time_var \<and> holds a (link_lower k) \<and>
             holds a (link_upper M k) \<and> holds a (max_time_bound M k lt) \<longrightarrow>
             (a (Route_Used (fst k) (snd k)) = 0 \<longrightarrow> a (Shipment (fst k) (snd k)) = 0) \<and>
             (a (Shipment (fst k) (snd k)) > 0 \<longrightarrow> a (Route_Used (fst k) (snd k)) = 1) \<and>
             (a (Route_Used (fst k) (snd k)) = 1 \<longrightarrow> lt \<le> a Max_Delivery_Time)) \<and>
        (\<forall>a. a (Route_Used (fst k) (snd k)) = 0 \<longrightarrow> eval a (c_rhs (max_time_bound M k lt)) < 0) \<and>
        (\<forall>a. var_ok a max_time_var \<and> a (Route_Used (fst k) (snd k)) = 0 \<longrightarrow>
              holds a (max_time_bound M k lt)))"
  using assms by (rule time_model_edges)

lemma scenario_route_info_loop:
  "route_info_loop scenario_dl (get_valid_routes scenario_dl scenario_input) ([], []) =
     Inr ([((''A'', ''Rail''), 80), ((''A'', ''Truck''), 100), ((''B'', ''Truck''), 120)],
          [((''A'', ''Rail''), 5), ((''A'', ''Truck''), 2), ((''B'', ''Truck''), 1)])"
  unfolding scenario_valid_routes
  by (simp add: scenario_dl_def find_route_def)

theorem time_model_big_M_linkage_witness:
  "build_time_model id scenario_dl scenario_input =
     Inr (Some (scenario_time_program, scenario_shipments, max_time_var)) \<and>
   big_M [((''A'', ''Rail''), 5), ((''A'', ''Truck''), 2), ((''B'', ''Truck''), 1)] = Inr 6 \<and>
   link_lower (''A'', ''Truck'') \<in> set (constraints scenario_time_program) \<and>
   link_upper 6 (''A'', ''Truck'') \<in> set (constraints scenario_time_program) \<and>
   max_time_bound 6 (''A'', ''Truck'') 2 \<in> set (constraints scenario_time_program) \<and>
   zero_values (Route_Used ''A'' ''Truck'') = 0 \<and>
   eval zero_values (c_rhs (max_time_bound 6 (''A'', ''Truck'') 2)) < 0"
proof -
  from time_model_big_M_linkage [OF scenario_build_time_id] obtain route_info lead_times M where
    ril: "route_info_loop scenario_dl (get_valid_routes scenario_dl scenario_input) ([], []) =
            Inr (route_info, lead_times)"
    and M: "big_M lead_times = Inr M"
    and edges: "\<forall>(k, lt) \<in> set lead_times.
        (\<exists>r. find_route scenario_dl (fst k) (snd k) = Inr r \<and> lt = lead_time r) \<and>
        link_lower k \<in> set (constraints scenario_time_program) \<and>
        link_upper M k \<in> set (constraints scenario_time_program) \<and>
        max_time_bound M k lt \<in> set (constraints scenario_time_program) \<and>
        (\<forall>a. var_ok a (shipment_var (fst k) (snd k)) \<and> var_ok a (route_used_var (fst k) (snd k)) \<and>
             var_ok a max_time_var \<and> holds a (link_lower k) \<and>
             holds a (link_upper M k) \<and> holds a (max_time_bound M k lt) \<longrightarrow>
             (a (Route_Used (fst k) (snd k)) = 0 \<longrightarrow> a (Shipment (fst k) (snd k)) = 0) \<and>
             (a (Shipment (fst k) (snd k)) > 0 \<longrightarrow> a (Route_Used (fst k) (snd k)) = 1) \<and>
             (a (Route_Used (fst k) (snd k)) = 1 \<longrightarrow> lt \<le> a Max_Delivery_Time)) \<and>
        (\<forall>a. a (Route_Used (fst k) (snd k)) = 0 \<longrightarrow> eval a (c_rhs (max_time_bound M k lt)) < 0) \<and>
        (\<forall>a. var_ok a max_time_var \<and> a (Route_Used (fst k) (snd k)) = 0 \<longrightarrow>
              holds a (max_time_bound M k lt))"
    by blast
  from ril have lt: "lead_times = [((''A'', ''Rail''), 5), ((''A'', ''Truck''), 2), ((''B'', ''Truck''), 1)]"
    by (simp add: scenario_route_info_loop)
  from M have M6: "M = 6" and bm: "big_M [((''A'', ''Rail''), 5), ((''A'', ''Truck''), 2), ((''B'', ''Truck''), 1)] = Inr 6"
    unfolding lt by (simp_all add: big_M_def py_max_def)
  have "((''A'', ''Truck''), 2) \<in> set lead_times" by (simp add: lt)
  with edges have
    "link_lower (''A'', ''Truck'') \<in> set (constraints scenario_time_program) \<and>
     link_upper M (''A'', ''Truck'') \<in> set (constraints scenario_time_program) \<and>
     max_time_bound M (''A'', ''Truck'') 2 \<in> set (constraints scenario_time_program) \<and>
     (\<forall>a. a (Route_Used ''A'' ''Truck'') = 0 \<longrightarrow>
        eval a (c_rhs (max_time_bound M (''A'', ''Truck'') 2)) < 0)"
    by fastforce
  with scenario_build_time_id bm show ?thesis unfolding M6 by (simp add: zero_values_def)
qed

text \<open>
  In every program the time builder returns, a feasible assignment ships over each
  eligible edge at most \<open>max 0 M\<close> vehicles, whatever \<open>max_vehicles\<close> allows.
\<close>

lemma feasible_holds: "feasible model a \<Longrightarrow> c \<in> set (constraints model) \<Longrightarrow> holds a c"
  by (simp add: feasible_def list_all_iff)

lemma feasible_var_ok:
  "feasible model a \<Longrightarrow> c \<in> set (constraints model) \<Longrightarrow>
     v \<in> set (expr_vars (c_lhs c)) \<union> set (expr_vars (c_rhs c)) \<Longrightarrow> var_ok a v"
  by (force simp: feasible_def variables_def list_all_iff)

lemma time_program_shipments_le_M:
  assumes "build_time_model tr dl inp = Inr (Some (model, shipments, max_time))"
    and "feasible model a"
  shows "\<exists>route_info lead_times M.
     route_info_loop dl (get_valid_routes dl inp) ([], []) = Inr (route_info, lead_times) \<and>
     big_M lead_times = Inr M \<and>
     (\<forall>k \<in> set (eligible_edges dl inp). a (Shipment (fst k) (snd k)) \<le> max 0 M)"
proof -
  from time_model_edges [OF assms(1)] obtain route_info lead_times M where
    ril: "route_info_loop dl (get_valid_routes dl inp) ([], []) = Inr (route_info, lead_times)"
    and keq: "keys lead_times = keys shipments"
    and kset: "set (keys shipments) = set (eligible_edges dl inp)"
    and M: "big_M lead_times = Inr M"
    and edges: "\<forall>(k, lt) \<in> set lead_times. link_upper M k \<in> set (constraints model)"
    by fastforce
  have "a (Shipment (fst k) (snd k)) \<le> max 0 M" if k: "k \<in> set (eligible_edges dl inp)" for k
  proof -
    from k kset keq have "k \<in> set (keys lead_times)" by simp
    then obtain lt where "(k, lt) \<in> set lead_times" by (auto simp: keys_def)
    with edges have c: "link_upper M k \<in> set (constraints model)" by auto
    from feasible_holds [OF assms(2) c]
    have le: "a (Shipment (fst k) (snd k)) \<le> M * a (Route_Used (fst k) (snd k))"
      by (simp add: holds_def link_upper_def route_used_var_def shipment_var_def)
    have "var_ok a (route_used_var (fst k) (snd k))"
      by (rule feasible_var_ok [OF assms(2) c]) (simp add: link_upper_def)
    then have "a (Route_Used (fst k) (snd k)) = 0 \<or> a (Route_Used (fst k) (snd k)) = 1"
      by (simp add: var_ok_def route_used_var_def)
    with le show ?thesis by auto
  qed
  with ril M show ?thesis by blast
qed

subsection \<open>The time program on the reference instance\<close>

lemmas scenario_program_defs =
  scenario_time_program_def scenario_cost_program_def scenario_shared_constraints_def
  shipment_var_def route_used_var_def max_time_var_def

lemma feasible_time_facts:
  assumes "feasible scenario_time_program a"
  shows "a (Shipment ''A'' ''Rail'') \<le> 6 * a (Route_Used ''A'' ''Rail'')"
    and "a (Shipment ''A'' ''Truck'') \<le> 6 * a (Route_Used ''A'' ''Truck'')"
    and "a (Shipment ''B'' ''Truck'') \<le> 6 * a (Route_Used ''B'' ''Truck'')"
    and "a (Route_Used ''A'' ''Rail'') = 0 \<or> a (Route_Used ''A'' ''Rail'') = 1"
    and "a (Route_Used ''A'' ''Truck'') = 0 \<or> a (Route_Used ''A'' ''Truck'') = 1"
    and "a (Route_Used ''B'' ''Truck'') = 0 \<or> a (Route_Used ''B'' ''Truck'') = 1"
    and "5 - 6 * (1 - a (Route_Used ''A'' ''Rail'')) \<le> a Max_Delivery_Time"
    and "300 \<le> 50 * a (Shipment ''A'' ''Rail'') + 10 * a (Shipment ''A'' ''Truck'')
            + 10 * a (Shipment ''B'' ''Truck'')"
    and "is_integral (a (Shipment ''A'' ''Rail''))"
  using assms
  by (simp_all add: feasible_def variables_def holds_def var_ok_def scenario_program_defs)

lemma rail_plan_feasible: "feasible scenario_time_program rail_plan"
  by (simp add: feasible_def variables_def holds_def var_ok_def scenario_program_defs
      rail_plan_def is_integral_def)

lemma truck_plan_feasible: "feasible scenario_cost_program truck_plan"
  by (simp add: feasible_def variables_def holds_def var_ok_def scenario_program_defs
      truck_plan_def is_integral_def)

lemma feasible_time_bounds:
  assumes "feasible scenario_time_program a"
  shows "a (Shipment ''A'' ''Rail'') \<le> 6" and "a (Shipment ''A'' ''Truck'') \<le> 6"
    and "a (Shipment ''B'' ''Truck'') \<le> 6"
    and "a (Route_Used ''A'' ''Rail'') = 1" and "5 \<le> a Max_Delivery_Time"
    and "4 \<le> a (Shipment ''A'' ''Rail'')"
proof -
  note f = feasible_time_facts [OF assms]
  show b1: "a (Shipment ''A'' ''Rail'') \<le> 6" using f(1) f(4) by auto
  show b2: "a (Shipment ''A'' ''Truck'') \<le> 6" using f(2) f(5) by auto
  show b3: "a (Shipment ''B'' ''Truck'') \<le> 6" using f(3) f(6) by auto
  have big: "18 / 5 \<le> a (Shipment ''A'' ''Rail'')" using f(8) b2 b3 by simp
  then show u: "a (Route_Used ''A'' ''Rail'') = 1" using f(1) f(4) by auto
  then show "5 \<le> a Max_Delivery_Time" using f(7) by simp
  from f(9) obtain n :: int where n: "a (Shipment ''A'' ''Rail'') = of_int n"
    unfolding is_integral_def by blast
  from big have "(18::real) \<le> of_int (5 * n)" unfolding n by simp
  then have "18 \<le> 5 * n" by linarith
  then have "4 \<le> n" by arith
  then show "4 \<le> a (Shipment ''A'' ''Rail'')" unfolding n by simp
qed

text \<open>
  Claim C4, at the reference instance. The time builder returns the program
  \<open>scenario_time_program\<close> (the names of its constraints being distinct as the library
  keeps them). This program contains, for the edge (A, Truck), the upper link
  \<open>shipments \<le> 6 * used\<close> with \<open>M = 6\<close>, the greatest lead time plus one; every
  assignment feasible for the time program therefore ships at most 6 trucks to A, although
  \<open>max_vehicles\<close> allows 20 and the shared constraints (demand, capacity, ceilings) admit
  an assignment with 20: the vehicle ceiling is not the only upper bound on \<open>shipments\<close>
  in the time program.
\<close>

theorem time_program_bounds_shipments_by_M:
  "(distinct (map (\<lambda>c. tr (c_name c)) (constraints scenario_time_program)) \<longrightarrow>
      build_time_model tr scenario_dl scenario_input =
        Inr (Some (scenario_time_program, scenario_shipments, max_time_var))) \<and>
   build_time_model id scenario_dl scenario_input =
     Inr (Some (scenario_time_program, scenario_shipments, max_time_var)) \<and>
   link_upper 6 (''A'', ''Truck'') \<in> set (constraints scenario_time_program) \<and>
   (\<forall>a. feasible scenario_time_program a \<longrightarrow> a (Shipment ''A'' ''Truck'') \<le> 6) \<and>
   map_of (max_vehicles scenario_input) (''A'', ''Truck'') = Some 20 \<and>
   feasible scenario_cost_program truck_plan \<and> truck_plan (Shipment ''A'' ''Truck'') = 20"
  using scenario_build_time [of tr] scenario_build_time_id feasible_time_bounds(2)
    truck_plan_feasible
  by (simp add: scenario_input_def truck_plan_def scenario_time_program_def link_upper_def)

theorem time_program_bounds_shipments_by_M_witness:
  "distinct (map (\<lambda>c. id (c_name c)) (constraints scenario_time_program)) \<and>
   build_time_model id scenario_dl scenario_input =
     Inr (Some (scenario_time_program, scenario_shipments, max_time_var)) \<and>
   feasible scenario_time_program rail_plan \<and> rail_plan (Shipment ''A'' ''Truck'') \<le> 6"
  using rail_plan_feasible scenario_names_distinct(1)
    time_program_bounds_shipments_by_M [of id]
  by blast

text \<open>
  Claim C5, at the reference instance. No assignment feasible for the built time program
  ships 15 trucks to B or 15 trucks to A, every feasible assignment has objective at least
  5, and from every feasible assignment reported as \<open>Optimal\<close> the extraction returns
  \<^verbatim>\<open>max_lead_time\<close> 5, not 2.
\<close>

theorem scenario_time_result:
  assumes "feasible scenario_time_program a"
  shows "a (Shipment ''B'' ''Truck'') \<noteq> 15 \<and> a (Shipment ''A'' ''Truck'') \<noteq> 15 \<and>
         5 \<le> objective_value scenario_time_program a \<and>
         (\<exists>plan cost.
            extract_time scenario_dl (Optimal, a) scenario_shipments =
              Inr [(''status'', PStr ''Optimal''), (''solution'', PSolution plan),
                   (''max_lead_time'', PNum 5), (''total_cost'', PNum cost)])"
proof -
  note b = feasible_time_bounds [OF assms]
  have obj: "5 \<le> objective_value scenario_time_program a"
    using b(5) by (simp add: objective_value_def scenario_time_program_def max_time_var_def)
  have pos: "0 < a (Shipment ''A'' ''Rail'')" using b(6) by simp
  have mlt: "max_lead_time_loop scenario_dl a scenario_shipments 0 = Inr 5"
    using pos
    by (simp add: scenario_shipments_def shipment_var_def scenario_dl_def find_route_def)
  obtain plan cost where "collect_shipments scenario_dl a scenario_shipments ([], 0) = Inr (plan, cost)"
    by (cases "collect_shipments scenario_dl a scenario_shipments ([], 0)")
      (auto simp: scenario_shipments_def shipment_var_def scenario_dl_def find_route_def Let_def
        split: if_splits)
  with mlt have "extract_time scenario_dl (Optimal, a) scenario_shipments =
              Inr [(''status'', PStr ''Optimal''), (''solution'', PSolution plan),
                   (''max_lead_time'', PNum 5), (''total_cost'', PNum cost)]"
    by (simp add: extract_time_def)
  with b obj show ?thesis by auto
qed

theorem scenario_time_result_witness:
  "feasible scenario_time_program rail_plan \<and>
   rail_plan (Shipment ''B'' ''Truck'') \<noteq> 15 \<and>
   5 \<le> objective_value scenario_time_program rail_plan \<and>
   objective_value scenario_time_program rail_plan = 5"
  using rail_plan_feasible scenario_time_result [OF rail_plan_feasible]
  by (simp add: objective_value_def scenario_time_program_def max_time_var_def rail_plan_def)

subsection \<open>Duplicate rows for one edge\<close>

lemma dup_valid: "get_valid_routes dup_dl dup_input = [(''A'', ''Truck'', 100), (''A'', ''Truck'', 50)]"
  by (simp add: get_valid_routes_def dup_dl_def dup_input_def keys_def
      py_strip_names Let_def)

text \<open>
  Claim C8, at a table with two rows for (A, Truck), costs 100 and 50 in this order, both
  valid. The coefficient of the edge in the cost objective is 50, the cost of the last
  valid row (the dictionary comprehension keeps the last value stored under a key), while
  the extraction looks the cost up in the first row and reports 100 for one vehicle. The
  cost builder returns its program when the three names of its constraints are distinct
  as the library keeps them, as they are under the identity.
\<close>

theorem duplicate_rows_cost_coefficient:
  "map (\<lambda>r. (destination r, route_mode_name r, total_cost r)) (routes dup_dl) =
     [(''A'', ''Truck'', 100), (''A'', ''Truck'', 50)] \<and>
   get_valid_routes dup_dl dup_input = [(''A'', ''Truck'', 100), (''A'', ''Truck'', 50)] \<and>
   (distinct (map tr [''Total_Demand'', ''Capacity_A'', ''Max_Vehicles_A_Truck'']) \<longrightarrow>
      cost_objective tr dup_dl dup_input =
        Some (lpSum [Scale 50 (Var (shipment_var ''A'' ''Truck''))])) \<and>
   cost_objective id dup_dl dup_input = Some (lpSum [Scale 50 (Var (shipment_var ''A'' ''Truck''))]) \<and>
   extract_cost dup_dl (Optimal, one_truck) [((''A'', ''Truck''), shipment_var ''A'' ''Truck'')] =
     Inr [(''status'', PStr ''Optimal''),
          (''solution'', PSolution [(''A'', [(''Truck'', 1)])]),
          (''total_cost'', PNum 100)]"
proof -
  have gen: "cost_objective tr dup_dl dup_input =
        Some (lpSum [Scale 50 (Var (shipment_var ''A'' ''Truck''))])"
    if "distinct (map tr [''Total_Demand'', ''Capacity_A'', ''Max_Vehicles_A_Truck''])" for tr
    using that
    unfolding cost_objective_def build_cost_model_def dup_valid
    by (auto simp add: dup_dl_def dup_input_def route_costs_of_def py_dict_def keys_def
      LpVariable_dicts_def cost_term_def getitem_def add_constraints_def warehouse_info_def
      vehicle_capacities_def weight_term_def add_constraint_def set_objective_def
      capacity_constraint_def vehicle_constraint_def
      shipment_var_def Let_def)
  have "distinct (map id [''Total_Demand'', ''Capacity_A'', ''Max_Vehicles_A_Truck''])"
    by simp
  from gen [OF this]
  have atid: "cost_objective id dup_dl dup_input =
        Some (lpSum [Scale 50 (Var (shipment_var ''A'' ''Truck''))])" .
  have "extract_cost dup_dl (Optimal, one_truck) [((''A'', ''Truck''), shipment_var ''A'' ''Truck'')] =
     Inr [(''status'', PStr ''Optimal''),
          (''solution'', PSolution [(''A'', [(''Truck'', 1)])]),
          (''total_cost'', PNum 100)]"
    by (simp add: extract_cost_def one_truck_def shipment_var_def py_int_def dup_dl_def
        find_route_def store_shipment_def keys_def Let_def)
  with gen [of tr] atid show ?thesis using dup_valid by (simp add: dup_dl_def)
qed

theorem duplicate_rows_cost_coefficient_witness:
  "distinct (map id [''Total_Demand'', ''Capacity_A'', ''Max_Vehicles_A_Truck'']) \<and>
   cost_objective id dup_dl dup_input = Some (lpSum [Scale 50 (Var (shipment_var ''A'' ''Truck''))])"
  using duplicate_rows_cost_coefficient [of id] by simp


subsection \<open>Extraction: truncated counts and raw values\<close>

lemma plan_lookup_store:
  "plan_lookup (store_shipment wh mode val sol) k =
     (if k = (wh, mode) then Some val else plan_lookup sol k)"
proof (cases "wh \<in> set (keys sol)")
  case True
  then have "map_of sol wh \<noteq> None"
    by (simp add: keys_def map_of_eq_None_iff)
  then obtain inner where "map_of sol wh = Some inner"
    by blast
  with True show ?thesis
    by (cases k)
      (auto simp: plan_lookup_def store_shipment_def AList.map_of_map_entry AList.update_conv')
next
  case False
  then have "map_of sol wh = None"
    by (simp add: keys_def map_of_eq_None_iff)
  with False show ?thesis
    by (cases k)
      (auto simp: plan_lookup_def store_shipment_def AList.map_of_map_entry AList.update_conv')
qed

lemma collect_shipments_skips:
  "collect_shipments dl vv items (sol, t) = Inr (sol', t') \<Longrightarrow>
   (\<And>var. (k, var) \<in> set items \<Longrightarrow> py_int (vv (v_name var)) \<le> 0) \<Longrightarrow>
   plan_lookup sol' k = plan_lookup sol k"
proof (induction items arbitrary: sol t)
  case Nil
  then show ?case by simp
next
  case (Cons item items)
  obtain k' var' where item: "item = (k', var')" by (cases item)
  show ?case
  proof (cases "0 < py_int (vv (v_name var'))")
    case True
    with Cons.prems(2) [of var'] have ne: "k' \<noteq> k" unfolding item by auto
    from Cons.prems(1) True obtain r where
      r: "find_route dl (fst k') (snd k') = Inr r" and
      rest: "collect_shipments dl vv items
               (store_shipment (fst k') (snd k') (py_int (vv (v_name var'))) sol,
                t + of_int (py_int (vv (v_name var'))) * total_cost r) = Inr (sol', t')"
      unfolding item by (auto simp: Let_def split: sum.splits)
    have "plan_lookup sol' k =
            plan_lookup (store_shipment (fst k') (snd k') (py_int (vv (v_name var'))) sol) k"
      using Cons.IH [OF rest] Cons.prems(2) by simp
    with ne show ?thesis by (auto simp: plan_lookup_store)
  next
    case False
    with Cons.prems(1) have rest: "collect_shipments dl vv items (sol, t) = Inr (sol', t')"
      unfolding item by (simp add: Let_def)
    show ?thesis using Cons.IH [OF rest] Cons.prems(2) by simp
  qed
qed

lemma max_lead_time_loop_mono:
  "max_lead_time_loop dl vv items m = Inr m' \<Longrightarrow> m \<le> m'"
proof (induction items arbitrary: m)
  case Nil
  then show ?case by simp
next
  case (Cons item items)
  obtain k var where item: "item = (k, var)" by (cases item)
  from Cons.prems show ?case unfolding item
    by (auto split: if_splits sum.splits dest!: Cons.IH)
qed

lemma max_lead_time_loop_covers:
  "max_lead_time_loop dl vv items m = Inr m' \<Longrightarrow> (k, var) \<in> set items \<Longrightarrow>
   0 < vv (v_name var) \<Longrightarrow>
   \<exists>r. find_route dl (fst k) (snd k) = Inr r \<and> lead_time r \<le> m'"
proof (induction items arbitrary: m)
  case Nil
  then show ?case by simp
next
  case (Cons item items)
  obtain k' var' where item: "item = (k', var')" by (cases item)
  show ?case
  proof (cases "(k, var) = (k', var')")
    case True
    with Cons.prems obtain r where r: "find_route dl (fst k) (snd k) = Inr r"
      and rest: "max_lead_time_loop dl vv items (max m (lead_time r)) = Inr m'"
      unfolding item by (auto split: sum.splits)
    from max_lead_time_loop_mono [OF rest] have "lead_time r \<le> m'" by simp
    with r show ?thesis by blast
  next
    case False
    with Cons.prems(2) have mem: "(k, var) \<in> set items" unfolding item by auto
    from Cons.prems(1) obtain m1 where "max_lead_time_loop dl vv items m1 = Inr m'"
      unfolding item by (auto split: if_splits sum.splits)
    from Cons.IH [OF this mem Cons.prems(3)] show ?thesis .
  qed
qed

lemma py_int_fraction: "0 < x \<Longrightarrow> x < 1 \<Longrightarrow> py_int x = 0"
  by (simp add: py_int_def floor_eq_iff)

lemma py_int_integral: "is_integral x \<Longrightarrow> (0 < py_int x) = (0 < x)"
  unfolding is_integral_def py_int_def
  by (metis ceiling_of_int floor_of_int less_le_not_le of_int_0_less_iff)

lemma frac_extract:
  "extract_time scenario_dl (Optimal, frac_values) scenario_shipments =
     Inr [(''status'', PStr ''Optimal''),
          (''solution'', PSolution [(''A'', [(''Truck'', 6)]), (''B'', [(''Truck'', 6)])]),
          (''max_lead_time'', PNum 5),
          (''total_cost'', PNum 1320)]"
  by (simp add: extract_time_def frac_values_def scenario_shipments_def shipment_var_def py_int_def scenario_dl_def
        find_route_def store_shipment_def keys_def Let_def)

text \<open>
  The extraction in general: the total cost sums, over the variables with a positive
  truncated value, that value times the first-row cost of the edge; with distinct keys
  the plan holds exactly these variables with these values; the maximum lead time folds
  \<open>max\<close>, from zero, over the variables with a positive raw value. When every value is
  integral the two selections are the same.
\<close>

lemma collect_shipments_total:
  "collect_shipments dl vv items (sol, t) = Inr (sol', t') \<Longrightarrow>
     t' = t + sum_list (map (\<lambda>kv. of_int (py_int (vv (v_name (snd kv)))) * first_row_cost dl (fst kv))
                (counted vv items))"
proof (induction items arbitrary: sol t)
  case Nil
  then show ?case by (simp add: counted_def)
next
  case (Cons item items)
  obtain k var where item: "item = (k, var)" by (cases item)
  show ?case
  proof (cases "0 < py_int (vv (v_name var))")
    case True
    with Cons.prems obtain r where
      r: "find_route dl (fst k) (snd k) = Inr r" and
      rest: "collect_shipments dl vv items
               (store_shipment (fst k) (snd k) (py_int (vv (v_name var))) sol,
                t + of_int (py_int (vv (v_name var))) * total_cost r) = Inr (sol', t')"
      unfolding item by (auto simp: Let_def split: sum.splits)
    from Cons.IH [OF rest] True r show ?thesis
      unfolding item by (simp add: counted_def first_row_cost_def)
  next
    case False
    with Cons.prems have rest: "collect_shipments dl vv items (sol, t) = Inr (sol', t')"
      unfolding item by (simp add: Let_def)
    from Cons.IH [OF rest] False show ?thesis
      unfolding item by (simp add: counted_def)
  qed
qed

lemma collect_shipments_plan:
  "collect_shipments dl vv items (sol, t) = Inr (sol', t') \<Longrightarrow> distinct (keys items) \<Longrightarrow>
     plan_lookup sol' k =
       (case map_of (counted vv items) k of
          None \<Rightarrow> plan_lookup sol k
        | Some var \<Rightarrow> Some (py_int (vv (v_name var))))"
proof (induction items arbitrary: sol t)
  case Nil
  then show ?case by (simp add: counted_def)
next
  case (Cons item items)
  obtain k' var where item: "item = (k', var)" by (cases item)
  from Cons.prems(2) have d: "distinct (keys items)" and notin: "k' \<notin> set (keys items)"
    unfolding item by (simp_all add: keys_def)
  have later: "map_of (counted vv items) k' = None"
    using notin by (force simp: counted_def keys_def map_of_eq_None_iff)
  show ?case
  proof (cases "0 < py_int (vv (v_name var))")
    case True
    with Cons.prems obtain r where
      r: "find_route dl (fst k') (snd k') = Inr r" and
      rest: "collect_shipments dl vv items
               (store_shipment (fst k') (snd k') (py_int (vv (v_name var))) sol,
                t + of_int (py_int (vv (v_name var))) * total_cost r) = Inr (sol', t')"
      unfolding item by (auto simp: Let_def split: sum.splits)
    from Cons.IH [OF rest d] True later show ?thesis
      unfolding item by (auto simp: counted_def plan_lookup_store split: option.splits)
  next
    case False
    with Cons.prems have rest: "collect_shipments dl vv items (sol, t) = Inr (sol', t')"
      unfolding item by (simp add: Let_def)
    from Cons.IH [OF rest d] False show ?thesis
      unfolding item by (simp add: counted_def)
  qed
qed

lemma max_lead_time_loop_fold:
  "max_lead_time_loop dl vv items m = Inr m' \<Longrightarrow>
     m' = foldl max m (map (\<lambda>kv. first_row_lead_time dl (fst kv))
                         (raw_positive vv items))"
proof (induction items arbitrary: m)
  case Nil
  then show ?case by (simp add: raw_positive_def)
next
  case (Cons item items)
  obtain k var where item: "item = (k, var)" by (cases item)
  show ?case
  proof (cases "0 < vv (v_name var)")
    case True
    with Cons.prems obtain r where
      r: "find_route dl (fst k) (snd k) = Inr r" and
      rest: "max_lead_time_loop dl vv items (max m (lead_time r)) = Inr m'"
      unfolding item by (auto split: sum.splits)
    from Cons.IH [OF rest] True r show ?thesis
      unfolding item by (simp add: first_row_lead_time_def raw_positive_def)
  next
    case False
    with Cons.prems have rest: "max_lead_time_loop dl vv items m = Inr m'"
      unfolding item by simp
    from Cons.IH [OF rest] False show ?thesis unfolding item by (simp add: raw_positive_def)
  qed
qed

lemma max_lead_time_loop_finds:
  "max_lead_time_loop dl vv items m = Inr m' \<Longrightarrow>
     list_all (\<lambda>kv. \<exists>r. find_route dl (fst (fst kv)) (snd (fst kv)) = Inr r)
       (raw_positive vv items)"
proof (induction items arbitrary: m)
  case Nil
  then show ?case by (simp add: raw_positive_def)
next
  case (Cons item items)
  obtain k var where item: "item = (k, var)" by (cases item)
  show ?case
  proof (cases "0 < vv (v_name var)")
    case True
    with Cons.prems obtain r where
      r: "find_route dl (fst k) (snd k) = Inr r" and
      rest: "max_lead_time_loop dl vv items (max m (lead_time r)) = Inr m'"
      unfolding item by (auto split: sum.splits)
    from Cons.IH [OF rest] True r show ?thesis
      unfolding item by (simp add: raw_positive_def)
  next
    case False
    with Cons.prems have rest: "max_lead_time_loop dl vv items m = Inr m'"
      unfolding item by simp
    from Cons.IH [OF rest] False show ?thesis unfolding item by (simp add: raw_positive_def)
  qed
qed

lemma py_int_positive: "0 < py_int x \<Longrightarrow> 0 < x"
  by (auto simp: py_int_def split: if_splits)

lemma counted_subset_raw_positive: "set (counted vv items) \<subseteq> set (raw_positive vv items)"
  by (auto simp: counted_def raw_positive_def py_int_positive)

lemma integral_raw_positive_counted:
  "list_all (\<lambda>kv. is_integral (vv (v_name (snd kv)))) items \<Longrightarrow>
     raw_positive vv items = counted vv items"
  unfolding counted_def raw_positive_def
  by (intro filter_cong) (auto simp: list_all_iff py_int_integral)

lemma collect_shipments_fraction:
  assumes cs: "collect_shipments dl vv items ([], 0) = Inr (plan, t)"
    and d: "distinct (keys items)"
    and m: "(k, var) \<in> set items"
    and f: "0 < vv (v_name var)" "vv (v_name var) < 1"
  shows "plan_lookup plan k = None" and "(k, var) \<notin> set (counted vv items)"
proof -
  have only: "var' = var" if "(k, var') \<in> set items" for var'
    using d m that by (metis eq_key_imp_eq_value keys_def)
  have "plan_lookup plan k = plan_lookup [] k"
  proof (rule collect_shipments_skips [OF cs])
    fix var' assume "(k, var') \<in> set items"
    then show "py_int (vv (v_name var')) \<le> 0"
      using only f by (simp add: py_int_fraction)
  qed
  then show "plan_lookup plan k = None" by (simp add: plan_lookup_def)
  show "(k, var) \<notin> set (counted vv items)"
    using f by (simp add: counted_def py_int_fraction)
qed

lemma extract_time_char:
  assumes "extract_time dl (Optimal, vv) time_vars = Inr res"
    and "distinct (keys time_vars)"
  shows "\<exists>plan.
     res = [(''status'', PStr ''Optimal''), (''solution'', PSolution plan),
            (''max_lead_time'',
               PNum (foldl max 0 (map (\<lambda>kv. first_row_lead_time dl (fst kv))
                                    (raw_positive vv time_vars)))),
            (''total_cost'',
               PNum (sum_list (map (\<lambda>kv. of_int (py_int (vv (v_name (snd kv)))) *
                                 first_row_cost dl (fst kv)) (counted vv time_vars))))] \<and>
     (\<forall>k. plan_lookup plan k =
        map_option (\<lambda>var. py_int (vv (v_name var))) (map_of (counted vv time_vars) k)) \<and>
     list_all (\<lambda>kv. \<exists>r. find_route dl (fst (fst kv)) (snd (fst kv)) = Inr r)
       (raw_positive vv time_vars) \<and>
     (\<forall>k var. (k, var) \<in> set time_vars \<and> 0 < vv (v_name var) \<and> vv (v_name var) < 1 \<longrightarrow>
        plan_lookup plan k = None \<and> (k, var) \<notin> set (counted vv time_vars) \<and>
        (k, var) \<in> set (raw_positive vv time_vars) \<and>
        first_row_lead_time dl k \<le>
          foldl max 0 (map (\<lambda>kv. first_row_lead_time dl (fst kv)) (raw_positive vv time_vars)))"
proof -
  from assms(1) obtain plan t m where
    cs: "collect_shipments dl vv time_vars ([], 0) = Inr (plan, t)"
    and ml: "max_lead_time_loop dl vv time_vars 0 = Inr m"
    and res: "res = [(''status'', PStr ''Optimal''), (''solution'', PSolution plan),
                     (''max_lead_time'', PNum m), (''total_cost'', PNum t)]"
    by (auto simp: extract_time_def split: sum.splits)
  have m: "m = foldl max 0 (map (\<lambda>kv. first_row_lead_time dl (fst kv)) (raw_positive vv time_vars))"
    using max_lead_time_loop_fold [OF ml] .
  have t: "t = sum_list (map (\<lambda>kv. of_int (py_int (vv (v_name (snd kv)))) *
                                 first_row_cost dl (fst kv)) (counted vv time_vars))"
    using collect_shipments_total [OF cs] by simp
  have look: "plan_lookup plan k =
        map_option (\<lambda>var. py_int (vv (v_name var))) (map_of (counted vv time_vars) k)" for k
    using collect_shipments_plan [OF cs assms(2), of k]
    by (simp add: plan_lookup_def split: option.splits)
  have frac: "plan_lookup plan k = None \<and> (k, var) \<notin> set (counted vv time_vars) \<and>
        (k, var) \<in> set (raw_positive vv time_vars) \<and> first_row_lead_time dl k \<le> m"
    if a: "(k, var) \<in> set time_vars \<and> 0 < vv (v_name var) \<and> vv (v_name var) < 1" for k var
  proof -
    from a have mem: "(k, var) \<in> set time_vars" and f: "0 < vv (v_name var)" "vv (v_name var) < 1"
      by simp_all
    note cf = collect_shipments_fraction [OF cs assms(2) mem f]
    from max_lead_time_loop_covers [OF ml mem f(1)] obtain r where
      "find_route dl (fst k) (snd k) = Inr r" "lead_time r \<le> m" by blast
    then have "first_row_lead_time dl k \<le> m" by (simp add: first_row_lead_time_def)
    with cf mem f(1) show ?thesis by (simp add: raw_positive_def)
  qed
  from res have res': "res = [(''status'', PStr ''Optimal''), (''solution'', PSolution plan),
            (''max_lead_time'',
               PNum (foldl max 0 (map (\<lambda>kv. first_row_lead_time dl (fst kv))
                                    (raw_positive vv time_vars)))),
            (''total_cost'',
               PNum (sum_list (map (\<lambda>kv. of_int (py_int (vv (v_name (snd kv)))) *
                                 first_row_cost dl (fst kv)) (counted vv time_vars))))]"
    by (simp only: m t)
  have look': "\<forall>k. plan_lookup plan k =
        map_option (\<lambda>var. py_int (vv (v_name var))) (map_of (counted vv time_vars) k)"
    using look by blast
  have frac': "\<forall>k var. (k, var) \<in> set time_vars \<and> 0 < vv (v_name var) \<and> vv (v_name var) < 1 \<longrightarrow>
        plan_lookup plan k = None \<and> (k, var) \<notin> set (counted vv time_vars) \<and>
        (k, var) \<in> set (raw_positive vv time_vars) \<and>
        first_row_lead_time dl k \<le>
          foldl max 0 (map (\<lambda>kv. first_row_lead_time dl (fst kv)) (raw_positive vv time_vars))"
    using frac unfolding m by blast
  show ?thesis
    by (intro exI [of _ plan] conjI) (rule res' look' max_lead_time_loop_finds [OF ml] frac')+
qed

lemma extract_cost_char:
  assumes "extract_cost dl (Optimal, vv) cost_vars = Inr res"
    and "distinct (keys cost_vars)"
  shows "\<exists>plan.
     res = [(''status'', PStr ''Optimal''), (''solution'', PSolution plan),
            (''total_cost'',
               PNum (sum_list (map (\<lambda>kv. of_int (py_int (vv (v_name (snd kv)))) *
                                 first_row_cost dl (fst kv)) (counted vv cost_vars))))] \<and>
     (\<forall>k. plan_lookup plan k =
        map_option (\<lambda>var. py_int (vv (v_name var))) (map_of (counted vv cost_vars) k)) \<and>
     (\<forall>k var. (k, var) \<in> set cost_vars \<and> 0 < vv (v_name var) \<and> vv (v_name var) < 1 \<longrightarrow>
        plan_lookup plan k = None \<and> (k, var) \<notin> set (counted vv cost_vars))"
proof -
  from assms(1) obtain plan t where
    cs: "collect_shipments dl vv cost_vars ([], 0) = Inr (plan, t)"
    and res: "res = [(''status'', PStr ''Optimal''), (''solution'', PSolution plan),
                     (''total_cost'', PNum t)]"
    by (auto simp: extract_cost_def split: sum.splits)
  have t: "t = sum_list (map (\<lambda>kv. of_int (py_int (vv (v_name (snd kv)))) *
                                 first_row_cost dl (fst kv)) (counted vv cost_vars))"
    using collect_shipments_total [OF cs] by simp
  have look: "plan_lookup plan k =
        map_option (\<lambda>var. py_int (vv (v_name var))) (map_of (counted vv cost_vars) k)" for k
    using collect_shipments_plan [OF cs assms(2), of k]
    by (simp add: plan_lookup_def split: option.splits)
  have frac: "plan_lookup plan k = None \<and> (k, var) \<notin> set (counted vv cost_vars)"
    if a: "(k, var) \<in> set cost_vars \<and> 0 < vv (v_name var) \<and> vv (v_name var) < 1" for k var
    using collect_shipments_fraction [OF cs assms(2), of k var] a by simp
  from res have res': "res = [(''status'', PStr ''Optimal''), (''solution'', PSolution plan),
            (''total_cost'',
               PNum (sum_list (map (\<lambda>kv. of_int (py_int (vv (v_name (snd kv)))) *
                                 first_row_cost dl (fst kv)) (counted vv cost_vars))))]"
    by (simp only: t)
  have look': "\<forall>k. plan_lookup plan k =
        map_option (\<lambda>var. py_int (vv (v_name var))) (map_of (counted vv cost_vars) k)"
    using look by blast
  have frac': "\<forall>k var. (k, var) \<in> set cost_vars \<and> 0 < vv (v_name var) \<and> vv (v_name var) < 1 \<longrightarrow>
        plan_lookup plan k = None \<and> (k, var) \<notin> set (counted vv cost_vars)"
    using frac by blast
  show ?thesis
    by (intro exI [of _ plan] conjI) (rule res' look' frac')+
qed

lemma one_b_truck_extract:
  "extract_time scenario_dl (Optimal, one_b_truck) scenario_shipments =
     Inr [(''status'', PStr ''Optimal''),
          (''solution'', PSolution [(''B'', [(''Truck'', 1)])]),
          (''max_lead_time'', PNum 1),
          (''total_cost'', PNum 120)]"
  by (simp add: extract_time_def one_b_truck_def scenario_shipments_def shipment_var_def
      py_int_def scenario_dl_def find_route_def store_shipment_def keys_def Let_def)

lemma frac_selections:
  "map fst (raw_positive frac_values scenario_shipments) =
     [(''A'', ''Rail''), (''A'', ''Truck''), (''B'', ''Truck'')]"
  "map fst (counted frac_values scenario_shipments) = [(''A'', ''Truck''), (''B'', ''Truck'')]"
  by (simp_all add: raw_positive_def counted_def frac_values_def scenario_shipments_def
      shipment_var_def py_int_def)

text \<open>
  Claim C7, at solver values where the rail edge of the reference instance has the value
  0.999999: the returned plan holds the truck edges only (lead times 2 and 1), the
  reported \<^verbatim>\<open>max_lead_time\<close> is 5, the lead time of the rail edge, which is not in the plan.
\<close>

theorem fractional_value_max_lead_time:
  "extract_time scenario_dl (Optimal, frac_values) scenario_shipments =
     Inr [(''status'', PStr ''Optimal''),
          (''solution'', PSolution [(''A'', [(''Truck'', 6)]), (''B'', [(''Truck'', 6)])]),
          (''max_lead_time'', PNum 5),
          (''total_cost'', PNum 1320)] \<and>
   frac_values (Shipment ''A'' ''Rail'') = 999999 / 1000000 \<and>
   map (\<lambda>r. (destination r, route_mode_name r, lead_time r)) (routes scenario_dl) =
     [(''A'', ''Rail'', 5), (''A'', ''Truck'', 2), (''B'', ''Truck'', 1)]"
  using frac_extract by (simp add: frac_values_def scenario_dl_def)


text \<open>
  Claim C10. The extraction of an \<open>Optimal\<close> result, for variables with distinct keys.
  The plan holds exactly the edges whose truncated value is positive, each with that
  value, and the total cost sums over these edges; an edge whose solver value lies
  strictly between 0 and 1 is truncated to 0 and has no entry in the plan, in the cost
  result as in the time result. In the time result the reported \<^verbatim>\<open>max_lead_time\<close> is the
  greatest of zero and the first-row lead times of exactly the edges whose raw value is
  positive (the lookup is made, and succeeds, for each of these and for no other edge):
  an edge with a value strictly between 0 and 1 is among them and bounds the reported
  value from below. On the reference instance with the value 0.999999 for the rail edge
  the plan holds the truck edges only and \<^verbatim>\<open>max_lead_time\<close> is 5, the rail lead time. When
  all values are integral, the edges with a positive raw value are the edges of the plan,
  and \<^verbatim>\<open>max_lead_time\<close> is the greatest lead time over the plan: on the reference instance
  with one truck to B and nothing else, it is 1.
\<close>

theorem truncated_count_raw_max_lead_time:
  "(distinct (keys time_vars) \<and> extract_time dl (Optimal, vv) time_vars = Inr res \<longrightarrow>
      (\<exists>plan.
         res = [(''status'', PStr ''Optimal''), (''solution'', PSolution plan),
                (''max_lead_time'',
                   PNum (foldl max 0 (map (\<lambda>kv. first_row_lead_time dl (fst kv))
                                        (raw_positive vv time_vars)))),
                (''total_cost'',
                   PNum (sum_list (map (\<lambda>kv. of_int (py_int (vv (v_name (snd kv)))) *
                                     first_row_cost dl (fst kv)) (counted vv time_vars))))] \<and>
         (\<forall>k. plan_lookup plan k =
            map_option (\<lambda>var. py_int (vv (v_name var))) (map_of (counted vv time_vars) k)) \<and>
         list_all (\<lambda>kv. \<exists>r. find_route dl (fst (fst kv)) (snd (fst kv)) = Inr r)
           (raw_positive vv time_vars) \<and>
         set (counted vv time_vars) \<subseteq> set (raw_positive vv time_vars) \<and>
         (\<forall>k var. (k, var) \<in> set time_vars \<and> 0 < vv (v_name var) \<and> vv (v_name var) < 1 \<longrightarrow>
            plan_lookup plan k = None \<and> (k, var) \<notin> set (counted vv time_vars) \<and>
            (k, var) \<in> set (raw_positive vv time_vars) \<and>
            first_row_lead_time dl k \<le>
              foldl max 0 (map (\<lambda>kv. first_row_lead_time dl (fst kv))
                             (raw_positive vv time_vars))) \<and>
         (list_all (\<lambda>kv. is_integral (vv (v_name (snd kv)))) time_vars \<longrightarrow>
            raw_positive vv time_vars = counted vv time_vars \<and>
            map_of res ''max_lead_time'' =
              Some (PNum (foldl max 0 (map (\<lambda>kv. first_row_lead_time dl (fst kv))
                                         (counted vv time_vars))))))) \<and>
   (distinct (keys cost_vars) \<and> extract_cost dl (Optimal, vv) cost_vars = Inr res' \<longrightarrow>
      (\<exists>plan.
         res' = [(''status'', PStr ''Optimal''), (''solution'', PSolution plan),
                 (''total_cost'',
                    PNum (sum_list (map (\<lambda>kv. of_int (py_int (vv (v_name (snd kv)))) *
                                      first_row_cost dl (fst kv)) (counted vv cost_vars))))] \<and>
         (\<forall>k. plan_lookup plan k =
            map_option (\<lambda>var. py_int (vv (v_name var))) (map_of (counted vv cost_vars) k)) \<and>
         (\<forall>k var. (k, var) \<in> set cost_vars \<and> 0 < vv (v_name var) \<and> vv (v_name var) < 1 \<longrightarrow>
            plan_lookup plan k = None \<and> (k, var) \<notin> set (counted vv cost_vars)))) \<and>
   (extract_time scenario_dl (Optimal, frac_values) scenario_shipments =
     Inr [(''status'', PStr ''Optimal''),
          (''solution'', PSolution [(''A'', [(''Truck'', 6)]), (''B'', [(''Truck'', 6)])]),
          (''max_lead_time'', PNum 5),
          (''total_cost'', PNum 1320)] \<and>
    map (\<lambda>r. (destination r, route_mode_name r, lead_time r)) (routes scenario_dl) =
      [(''A'', ''Rail'', 5), (''A'', ''Truck'', 2), (''B'', ''Truck'', 1)] \<and>
    map fst (raw_positive frac_values scenario_shipments) =
      [(''A'', ''Rail''), (''A'', ''Truck''), (''B'', ''Truck'')] \<and>
    map fst (counted frac_values scenario_shipments) = [(''A'', ''Truck''), (''B'', ''Truck'')]) \<and>
   extract_time scenario_dl (Optimal, one_b_truck) scenario_shipments =
     Inr [(''status'', PStr ''Optimal''),
          (''solution'', PSolution [(''B'', [(''Truck'', 1)])]),
          (''max_lead_time'', PNum 1),
          (''total_cost'', PNum 120)]"
proof (intro conjI impI)
  assume a: "distinct (keys time_vars) \<and> extract_time dl (Optimal, vv) time_vars = Inr res"
  then have d: "distinct (keys time_vars)"
    and e: "extract_time dl (Optimal, vv) time_vars = Inr res" by simp_all
  from extract_time_char [OF e d] obtain plan where
    res: "res = [(''status'', PStr ''Optimal''), (''solution'', PSolution plan),
                (''max_lead_time'',
                   PNum (foldl max 0 (map (\<lambda>kv. first_row_lead_time dl (fst kv))
                                        (raw_positive vv time_vars)))),
                (''total_cost'',
                   PNum (sum_list (map (\<lambda>kv. of_int (py_int (vv (v_name (snd kv)))) *
                                     first_row_cost dl (fst kv)) (counted vv time_vars))))]"
    and rest: "(\<forall>k. plan_lookup plan k =
            map_option (\<lambda>var. py_int (vv (v_name var))) (map_of (counted vv time_vars) k)) \<and>
         list_all (\<lambda>kv. \<exists>r. find_route dl (fst (fst kv)) (snd (fst kv)) = Inr r)
           (raw_positive vv time_vars) \<and>
         (\<forall>k var. (k, var) \<in> set time_vars \<and> 0 < vv (v_name var) \<and> vv (v_name var) < 1 \<longrightarrow>
            plan_lookup plan k = None \<and> (k, var) \<notin> set (counted vv time_vars) \<and>
            (k, var) \<in> set (raw_positive vv time_vars) \<and>
            first_row_lead_time dl k \<le>
              foldl max 0 (map (\<lambda>kv. first_row_lead_time dl (fst kv))
                             (raw_positive vv time_vars)))"
    by blast
  have integral: "raw_positive vv time_vars = counted vv time_vars \<and>
            map_of res ''max_lead_time'' =
              Some (PNum (foldl max 0 (map (\<lambda>kv. first_row_lead_time dl (fst kv))
                                         (counted vv time_vars))))"
    if "list_all (\<lambda>kv. is_integral (vv (v_name (snd kv)))) time_vars"
    using integral_raw_positive_counted [OF that] by (simp add: res)
  from res rest integral counted_subset_raw_positive [of vv time_vars]
  show "\<exists>plan.
         res = [(''status'', PStr ''Optimal''), (''solution'', PSolution plan),
                (''max_lead_time'',
                   PNum (foldl max 0 (map (\<lambda>kv. first_row_lead_time dl (fst kv))
                                        (raw_positive vv time_vars)))),
                (''total_cost'',
                   PNum (sum_list (map (\<lambda>kv. of_int (py_int (vv (v_name (snd kv)))) *
                                     first_row_cost dl (fst kv)) (counted vv time_vars))))] \<and>
         (\<forall>k. plan_lookup plan k =
            map_option (\<lambda>var. py_int (vv (v_name var))) (map_of (counted vv time_vars) k)) \<and>
         list_all (\<lambda>kv. \<exists>r. find_route dl (fst (fst kv)) (snd (fst kv)) = Inr r)
           (raw_positive vv time_vars) \<and>
         set (counted vv time_vars) \<subseteq> set (raw_positive vv time_vars) \<and>
         (\<forall>k var. (k, var) \<in> set time_vars \<and> 0 < vv (v_name var) \<and> vv (v_name var) < 1 \<longrightarrow>
            plan_lookup plan k = None \<and> (k, var) \<notin> set (counted vv time_vars) \<and>
            (k, var) \<in> set (raw_positive vv time_vars) \<and>
            first_row_lead_time dl k \<le>
              foldl max 0 (map (\<lambda>kv. first_row_lead_time dl (fst kv))
                             (raw_positive vv time_vars))) \<and>
         (list_all (\<lambda>kv. is_integral (vv (v_name (snd kv)))) time_vars \<longrightarrow>
            raw_positive vv time_vars = counted vv time_vars \<and>
            map_of res ''max_lead_time'' =
              Some (PNum (foldl max 0 (map (\<lambda>kv. first_row_lead_time dl (fst kv))
                                         (counted vv time_vars)))))"
    by (intro exI [of _ plan] conjI impI) blast+
next
  assume a: "distinct (keys cost_vars) \<and> extract_cost dl (Optimal, vv) cost_vars = Inr res'"
  then have d: "distinct (keys cost_vars)"
    and e: "extract_cost dl (Optimal, vv) cost_vars = Inr res'" by simp_all
  from extract_cost_char [OF e d]
  show "\<exists>plan.
         res' = [(''status'', PStr ''Optimal''), (''solution'', PSolution plan),
                 (''total_cost'',
                    PNum (sum_list (map (\<lambda>kv. of_int (py_int (vv (v_name (snd kv)))) *
                                      first_row_cost dl (fst kv)) (counted vv cost_vars))))] \<and>
         (\<forall>k. plan_lookup plan k =
            map_option (\<lambda>var. py_int (vv (v_name var))) (map_of (counted vv cost_vars) k)) \<and>
         (\<forall>k var. (k, var) \<in> set cost_vars \<and> 0 < vv (v_name var) \<and> vv (v_name var) < 1 \<longrightarrow>
            plan_lookup plan k = None \<and> (k, var) \<notin> set (counted vv cost_vars))" .
next
  show "extract_time scenario_dl (Optimal, frac_values) scenario_shipments =
     Inr [(''status'', PStr ''Optimal''),
          (''solution'', PSolution [(''A'', [(''Truck'', 6)]), (''B'', [(''Truck'', 6)])]),
          (''max_lead_time'', PNum 5),
          (''total_cost'', PNum 1320)]"
    by (rule frac_extract)
next
  show "map (\<lambda>r. (destination r, route_mode_name r, lead_time r)) (routes scenario_dl) =
      [(''A'', ''Rail'', 5), (''A'', ''Truck'', 2), (''B'', ''Truck'', 1)]"
    by (simp add: scenario_dl_def)
next
  show "map fst (raw_positive frac_values scenario_shipments) =
      [(''A'', ''Rail''), (''A'', ''Truck''), (''B'', ''Truck'')]"
    by (rule frac_selections)
next
  show "map fst (counted frac_values scenario_shipments) = [(''A'', ''Truck''), (''B'', ''Truck'')]"
    by (rule frac_selections)
next
  show "extract_time scenario_dl (Optimal, one_b_truck) scenario_shipments =
     Inr [(''status'', PStr ''Optimal''),
          (''solution'', PSolution [(''B'', [(''Truck'', 1)])]),
          (''max_lead_time'', PNum 1),
          (''total_cost'', PNum 120)]"
    by (rule one_b_truck_extract)
qed

lemma frac_values_rail:
  "0 < frac_values (v_name (shipment_var ''A'' ''Rail'')) \<and>
   frac_values (v_name (shipment_var ''A'' ''Rail'')) < 1"
  by (simp add: frac_values_def shipment_var_def)

lemma scenario_shipments_distinct:
  "distinct (keys scenario_shipments) \<and>
   ((''A'', ''Rail''), shipment_var ''A'' ''Rail'') \<in> set scenario_shipments"
  by (simp add: scenario_shipments_def keys_def)


lemma scenario_first_rows:
  "first_row_lead_time scenario_dl (''A'', ''Rail'') = 5"
  "plan_lookup [(''A'', [(''Truck'', 6)]), (''B'', [(''Truck'', 6)])] (''A'', ''Rail'') = None"
  by (simp_all add: first_row_lead_time_def find_route_def scenario_dl_def plan_lookup_def)

theorem truncated_count_raw_max_lead_time_witness:
  "distinct (keys scenario_shipments) \<and>
   ((''A'', ''Rail''), shipment_var ''A'' ''Rail'') \<in> set scenario_shipments \<and>
   0 < frac_values (Shipment ''A'' ''Rail'') \<and> frac_values (Shipment ''A'' ''Rail'') < 1 \<and>
   extract_time scenario_dl (Optimal, frac_values) scenario_shipments =
     Inr [(''status'', PStr ''Optimal''),
          (''solution'', PSolution [(''A'', [(''Truck'', 6)]), (''B'', [(''Truck'', 6)])]),
          (''max_lead_time'', PNum 5),
          (''total_cost'', PNum 1320)] \<and>
   plan_lookup [(''A'', [(''Truck'', 6)]), (''B'', [(''Truck'', 6)])] (''A'', ''Rail'') = None \<and>
   ((''A'', ''Rail''), shipment_var ''A'' ''Rail'') \<in>
      set (raw_positive frac_values scenario_shipments) \<and>
   first_row_lead_time scenario_dl (''A'', ''Rail'') = 5 \<and>
   foldl max 0 (map (\<lambda>kv. first_row_lead_time scenario_dl (fst kv))
                  (raw_positive frac_values scenario_shipments)) = 5"
proof -
  note t = truncated_count_raw_max_lead_time [where time_vars = scenario_shipments
      and vv = frac_values and dl = scenario_dl
      and res = "[(''status'', PStr ''Optimal''),
          (''solution'', PSolution [(''A'', [(''Truck'', 6)]), (''B'', [(''Truck'', 6)])]),
          (''max_lead_time'', PNum 5),
          (''total_cost'', PNum 1320)]"]
  from t frac_extract scenario_shipments_distinct
  have "\<exists>plan.
         [(''status'', PStr ''Optimal''),
          (''solution'', PSolution [(''A'', [(''Truck'', 6)]), (''B'', [(''Truck'', 6)])]),
          (''max_lead_time'', PNum 5),
          (''total_cost'', PNum 1320)] =
           [(''status'', PStr ''Optimal''), (''solution'', PSolution plan),
                (''max_lead_time'',
                   PNum (foldl max 0 (map (\<lambda>kv. first_row_lead_time scenario_dl (fst kv))
                                        (raw_positive frac_values scenario_shipments)))),
                (''total_cost'',
                   PNum (sum_list (map (\<lambda>kv. of_int (py_int (frac_values (v_name (snd kv)))) *
                                     first_row_cost scenario_dl (fst kv))
                            (counted frac_values scenario_shipments))))]"
    by blast
  then have m: "foldl max 0 (map (\<lambda>kv. first_row_lead_time scenario_dl (fst kv))
                  (raw_positive frac_values scenario_shipments)) = 5"
    by auto
  have r: "((''A'', ''Rail''), shipment_var ''A'' ''Rail'') \<in>
      set (raw_positive frac_values scenario_shipments)"
    by (simp add: raw_positive_def frac_values_def scenario_shipments_def shipment_var_def)
  from m r frac_extract frac_values_rail scenario_shipments_distinct scenario_first_rows
  show ?thesis by (simp add: shipment_var_def)
qed


subsection \<open>The constraints shared by both programs\<close>

lemma distinct_foldl_update:
  "distinct (map fst d0) \<Longrightarrow>
     distinct (map fst (foldl (\<lambda>d kv. AList.update (fst kv) (snd kv) d) d0 kvs))"
  by (induction kvs arbitrary: d0) (simp_all add: AList.distinct_update)

lemma distinct_keys_py_dict: "distinct (keys (py_dict kvs))"
  using distinct_foldl_update [of "[]" kvs] by (simp add: keys_def py_dict_def)

lemma route_info_loop_route_costs:
  "route_info_loop dl vrs (ri, lt) = Inr (ri', lt') \<Longrightarrow>
     ri' = foldl (\<lambda>d kv. AList.update (fst kv) (snd kv) d) ri
             (map (\<lambda>(wh, mode, cost). ((wh, mode), cost)) vrs)"
proof (induction vrs arbitrary: ri lt)
  case Nil
  then show ?case by simp
next
  case (Cons vr vrs)
  obtain wh mode cost where vr: "vr = (wh, mode, cost)" by (cases vr)
  from Cons.prems obtain r where
    r: "find_route dl wh mode = Inr r"
    and rest: "route_info_loop dl vrs
        (AList.update (wh, mode) cost ri, AList.update (wh, mode) (lead_time r) lt) = Inr (ri', lt')"
    unfolding vr by (auto split: sum.splits)
  from Cons.IH [OF rest] show ?case unfolding vr by simp
qed

lemma map_of_LpVariable_dicts:
  "k \<in> set ks \<Longrightarrow>
     map_of (LpVariable_dicts nm ks lo up c) k = Some (LpVariable (nm (fst k) (snd k)) lo up c)"
  by (induction ks) (auto simp: LpVariable_dicts_def)

lemma weight_term_dicts:
  assumes "k \<in> set ks"
  shows "weight_term (LpVariable_dicts Shipment ks (Some 0) None LpInteger) vc k =
           (case map_of vc (snd k) of
              None \<Rightarrow> Inl KeyError
            | Some w \<Rightarrow> Inr (Scale w (Var (shipment_var (fst k) (snd k)))))"
  using assms
  by (simp add: weight_term_def map_of_LpVariable_dicts shipment_var_def getitem_def
      split: option.splits)

lemma mapM_weight_term_eval:
  assumes "mapM (weight_term (LpVariable_dicts Shipment ks (Some 0) None LpInteger)
             (vehicle_capacities dl)) ks' = Inr ts"
    and "set ks' \<subseteq> set ks"
  shows "sum_list (map (eval a) ts) = shipped_weight dl a ks'"
  using assms
proof (induction ks' arbitrary: ts)
  case Nil
  then show ?case by (simp add: shipped_weight_def)
next
  case (Cons k ks')
  from Cons.prems obtain t ts' where
    t: "weight_term (LpVariable_dicts Shipment ks (Some 0) None LpInteger)
          (vehicle_capacities dl) k = Inr t"
    and ts': "mapM (weight_term (LpVariable_dicts Shipment ks (Some 0) None LpInteger)
             (vehicle_capacities dl)) ks' = Inr ts'"
    and ts: "ts = t # ts'"
    by (auto split: sum.splits)
  have "k \<in> set ks" using Cons.prems(2) by simp
  with t have "eval a t = weight_of dl (snd k) * a (Shipment (fst k) (snd k))"
    by (auto simp: weight_term_dicts weight_of_def shipment_var_def split: option.splits)
  moreover have "sum_list (map (eval a) ts') = shipped_weight dl a ks'"
    using Cons.IH [OF ts'] Cons.prems(2) by simp
  ultimately show ?case unfolding ts by (simp add: shipped_weight_def)
qed
lemma route_info_is_route_costs:
  "route_info_loop dl vrs ([], []) = Inr (ri, lt) \<Longrightarrow> ri = route_costs_of vrs"
  using route_info_loop_route_costs [of dl vrs "[]" "[]" ri lt]
  by (simp add: route_costs_of_def py_dict_def)
lemma eligible_in_max_vehicles:
  "set (eligible_edges dl inp) \<subseteq> set (keys (max_vehicles inp))"
  unfolding set_eligible_edges get_valid_routes_def set_valid_routes_loop by auto

lemma capacity_constraints_char:
  assumes "mapM (capacity_constraint (warehouse_info dl) (vehicle_capacities dl)
             (LpVariable_dicts Shipment ks (Some 0) None LpInteger) ks) whs = Inr caps"
  shows "list_all2 (\<lambda>wh c. c_name c = ''Capacity_'' @ wh \<and>
               (\<forall>a. holds a c \<longleftrightarrow>
                  shipped_weight dl a (filter (\<lambda>k. fst k = wh) ks) \<le> available_capacity dl wh))
             (filter (\<lambda>wh. wh \<in> set (keys (warehouse_info dl))) whs) (concat caps)"
  using assms
proof (induction whs arbitrary: caps)
  case Nil
  then show ?case by simp
next
  case (Cons wh whs)
  let ?sh = "LpVariable_dicts Shipment ks (Some 0) None LpInteger"
  from Cons.prems obtain cs caps' where
    cs: "capacity_constraint (warehouse_info dl) (vehicle_capacities dl) ?sh ks wh = Inr cs"
    and caps': "mapM (capacity_constraint (warehouse_info dl) (vehicle_capacities dl) ?sh ks) whs
                  = Inr caps'"
    and caps: "caps = cs # caps'"
    by (auto split: sum.splits)
  note IH = Cons.IH [OF caps']
  show ?case
  proof (cases "map_of (warehouse_info dl) wh")
    case None
    then have notin: "wh \<notin> set (keys (warehouse_info dl))"
      by (simp add: keys_def map_of_eq_None_iff)
    from cs None have "cs = []" by (simp add: capacity_constraint_def)
    with IH notin show ?thesis unfolding caps by simp
  next
    case (Some p)
    obtain cap stock where p: "p = (cap, stock)" by (cases p)
    have isin: "wh \<in> set (keys (warehouse_info dl))"
      using Some by (force simp: keys_def dest: map_of_SomeD)
    from cs Some obtain ts where
      ts: "mapM (weight_term ?sh (vehicle_capacities dl)) (filter (\<lambda>k. fst k = wh) ks) = Inr ts"
      and cse: "cs = [Constraint (''Capacity_'' @ wh) (lpSum ts) LE (Num (max 0 (cap - stock)))]"
      unfolding p by (auto simp: capacity_constraint_def Let_def split: sum.splits)
    let ?c = "Constraint (''Capacity_'' @ wh) (lpSum ts) LE (Num (max 0 (cap - stock)))"
    have sem: "holds a ?c \<longleftrightarrow>
        shipped_weight dl a (filter (\<lambda>k. fst k = wh) ks) \<le> available_capacity dl wh" for a
      using mapM_weight_term_eval [OF ts, of a] Some
      by (simp add: holds_def available_capacity_def p)
    from IH sem isin show ?thesis unfolding caps cse by simp
  qed
qed

lemma vehicle_constraints_char:
  assumes "mapM (vehicle_constraint (LpVariable_dicts Shipment ks (Some 0) None LpInteger)) mv
             = Inr ceils"
  shows "list_all2 (\<lambda>kv c. c_name c = ''Max_Vehicles_'' @ fst (fst kv) @ ''_'' @ snd (fst kv) \<and>
               (\<forall>a. holds a c \<longleftrightarrow> a (Shipment (fst (fst kv)) (snd (fst kv))) \<le> of_int (snd kv)))
             (filter (\<lambda>kv. fst kv \<in> set ks) mv) (concat ceils)"
  using assms
proof (induction mv arbitrary: ceils)
  case Nil
  then show ?case by simp
next
  case (Cons kv mv)
  let ?sh = "LpVariable_dicts Shipment ks (Some 0) None LpInteger"
  from Cons.prems obtain cs ceils' where
    cs: "vehicle_constraint ?sh kv = Inr cs"
    and ceils': "mapM (vehicle_constraint ?sh) mv = Inr ceils'"
    and ceils: "ceils = cs # ceils'"
    by (auto split: sum.splits)
  note IH = Cons.IH [OF ceils']
  show ?case
  proof (cases "fst kv \<in> set ks")
    case False
    then have "map_of ?sh (fst kv) = None"
      by (simp add: map_of_eq_None_iff LpVariable_dicts_def image_image)
    with cs have "cs = []" by (simp add: vehicle_constraint_def)
    with IH False show ?thesis unfolding ceils by simp
  next
    case True
    then have "map_of ?sh (fst kv) =
        Some (LpVariable (Shipment (fst (fst kv)) (snd (fst kv))) (Some 0) None LpInteger)"
      by (rule map_of_LpVariable_dicts)
    with cs have "cs = [Constraint (''Max_Vehicles_'' @ fst (fst kv) @ ''_'' @ snd (fst kv))
                (Var (LpVariable (Shipment (fst (fst kv)) (snd (fst kv))) (Some 0) None LpInteger)) LE
                (Num (of_int (snd kv)))]"
      by (simp add: vehicle_constraint_def)
    with IH True show ?thesis unfolding ceils by (simp add: holds_def)
  qed
qed

lemma add_constraints_distinct:
  assumes "add_constraints tr dl m sh inp rc = Inr m'"
    and "distinct (map (\<lambda>d. tr (c_name d)) (constraints m))"
  shows "distinct (map (\<lambda>d. tr (c_name d)) (constraints m'))"
proof -
  from assms(1) obtain ts m1 m2 where
    m1: "add_constraint tr m
               (Constraint ''Total_Demand'' (lpSum ts) GE (Num (of_int (total_demand inp)))) = Inr m1"
    and m2: "add_each tr (capacity_constraint (warehouse_info dl) (vehicle_capacities dl) sh (keys rc))
               (selected_warehouses inp) m1 = Inr m2"
    and m': "add_each tr (vehicle_constraint sh) (max_vehicles inp) m2 = Inr m'"
    by (auto simp: add_constraints_def Let_def split: sum.splits)
  from add_constraint_Inr [OF m1] assms(2)
  have "distinct (map (\<lambda>d. tr (c_name d)) (constraints m1))" by auto
  from add_each_distinct [OF m' add_each_distinct [OF m2 this]] show ?thesis .
qed

lemma build_cost_model_distinct:
  assumes "build_cost_model tr dl inp = Inr (Some (model, shipments))"
  shows "distinct (map (\<lambda>d. tr (c_name d)) (constraints model))"
proof -
  from assms obtain ts where
    ac: "add_constraints tr dl
       (set_objective \<lparr>p_name = ''Cost_Minimization'', objective = None, constraints = []\<rparr>
          (lpSum ts))
       shipments inp (route_costs_of (get_valid_routes dl inp)) = Inr model"
    unfolding build_cost_model_def
    by (auto simp: Let_def split: if_splits sum.splits)
  show ?thesis
    by (rule add_constraints_distinct [OF ac]) (simp add: set_objective_def)
qed

lemma build_time_model_distinct:
  assumes "build_time_model tr dl inp = Inr (Some (model, shipments, max_time))"
  shows "distinct (map (\<lambda>d. tr (c_name d)) (constraints model))"
proof -
  let ?m0 = "\<lparr>p_name = ''Time_Minimization'', objective = None, constraints = []\<rparr>"
  from assms obtain route_info lead_times M model1 model3 where
    l: "add_each tr (link_constraints (LpVariable_dicts Route_Used (keys route_info) None None LpBinary)
              shipments M) (keys route_info) ?m0 = Inr model1"
    and t: "add_each tr (max_time_constraint (LpVariable_dicts Route_Used (keys route_info) None None LpBinary)
              max_time M) lead_times (set_objective model1 (Var max_time)) = Inr model3"
    and ac: "add_constraints tr dl model3 shipments inp route_info = Inr model"
    unfolding build_time_model_def
    by (auto simp: Let_def split: if_splits sum.splits prod.splits)
  have "distinct (map (\<lambda>d. tr (c_name d)) (constraints model1))"
    by (rule add_each_distinct [OF l]) simp
  then have "distinct (map (\<lambda>d. tr (c_name d)) (constraints (set_objective model1 (Var max_time))))"
    by (simp add: set_objective_def)
  from add_constraints_distinct [OF ac add_each_distinct [OF t this]] show ?thesis .
qed

lemma ceiling_items_edges:
  assumes "distinct (map fst (ceiling_items dl inp))"
  shows "set (map fst (ceiling_items dl inp)) = set (eligible_edges dl inp)"
    and "length (ceiling_items dl inp) = length (eligible_edges dl inp)"
proof -
  show s: "set (map fst (ceiling_items dl inp)) = set (eligible_edges dl inp)"
    using eligible_in_max_vehicles [of dl inp]
    by (force simp: ceiling_items_def keys_def)
  have "distinct (eligible_edges dl inp)"
    unfolding eligible_edges_def route_costs_of_def by (rule distinct_keys_py_dict)
  then have "length (eligible_edges dl inp) = card (set (eligible_edges dl inp))"
    by (simp add: distinct_card)
  also have "\<dots> = card (set (map fst (ceiling_items dl inp)))" by (simp only: s)
  also have "\<dots> = length (map fst (ceiling_items dl inp))" using assms by (rule distinct_card)
  finally show "length (ceiling_items dl inp) = length (eligible_edges dl inp)" by simp
qed

lemma ceiling_names_distinct_keys:
  assumes rel: "list_all2 (\<lambda>kv c. c_name c = ''Max_Vehicles_'' @ fst (fst kv) @ ''_'' @ snd (fst kv) \<and> P kv c)
                  items ceils"
    and d: "distinct (map (\<lambda>c. tr (c_name c)) ceils)"
  shows "distinct (map fst items)"
proof -
  let ?f = "\<lambda>k. tr (''Max_Vehicles_'' @ fst k @ ''_'' @ snd k)"
  from rel have "map (\<lambda>c. tr (c_name c)) ceils = map ?f (map fst items)"
    by (induction items ceils rule: list_all2_induct) simp_all
  with d have "distinct (map ?f (map fst items))" by simp
  then show ?thesis by (simp only: distinct_map)
qed


text \<open>
  Claim C1, as amended. Whenever both builders return a program, there is at least one
  eligible edge and both programs are over the same \<open>shipments\<close> variables, one per
  eligible edge, each integer with lower bound zero. The constraints of the cost program,
  and the constraints of the time program after its linking constraints, are the same
  list: one constraint \<^verbatim>\<open>Total_Demand\<close>, the weight shipped over all eligible edges at
  least \<open>total_demand\<close>; then one constraint \<^verbatim>\<open>Capacity_w\<close> for each selected warehouse \<open>w\<close>
  listed in the warehouse table, with or without an eligible edge, and none for a
  selected warehouse the table does not list, bounding the weight shipped over the
  eligible edges into \<open>w\<close> by \<open>max(0, capacity - stock_level)\<close>; then one constraint
  \<^verbatim>\<open>Max_Vehicles_w_m\<close> for each entry of \<open>max_vehicles\<close> on an eligible edge, that is one per
  eligible edge, bounding \<open>shipments\<close> of the edge by its entry. The names are those the
  source passes to the library; as the library keeps them they are pairwise distinct.
\<close>

theorem shared_constraints_both_programs:
  assumes "build_cost_model tr dl inp = Inr (Some (cost_model, cost_vars))"
    and "build_time_model tr dl inp = Inr (Some (time_model, time_vars, max_time))"
  shows "\<exists>links demand caps ceils.
     eligible_edges dl inp \<noteq> [] \<and>
     cost_vars = map (\<lambda>k. (k, shipment_var (fst k) (snd k))) (eligible_edges dl inp) \<and>
     time_vars = cost_vars \<and>
     constraints cost_model = demand # caps @ ceils \<and>
     constraints time_model = links @ demand # caps @ ceils \<and>
     distinct (map (\<lambda>c. tr (c_name c)) (constraints cost_model)) \<and>
     distinct (map (\<lambda>c. tr (c_name c)) (constraints time_model)) \<and>
     c_name demand = ''Total_Demand'' \<and>
     (\<forall>a. holds a demand \<longleftrightarrow>
        of_int (total_demand inp) \<le> shipped_weight dl a (eligible_edges dl inp)) \<and>
     list_all2 (\<lambda>wh c. c_name c = ''Capacity_'' @ wh \<and>
         (\<forall>a. holds a c \<longleftrightarrow>
            shipped_weight dl a (filter (\<lambda>k. fst k = wh) (eligible_edges dl inp))
              \<le> available_capacity dl wh))
       (capacity_warehouses dl inp) caps \<and>
     list_all2 (\<lambda>kv c. c_name c = ''Max_Vehicles_'' @ fst (fst kv) @ ''_'' @ snd (fst kv) \<and>
         (\<forall>a. holds a c \<longleftrightarrow> a (Shipment (fst (fst kv)) (snd (fst kv))) \<le> of_int (snd kv)))
       (ceiling_items dl inp) ceils \<and>
     distinct (map fst (ceiling_items dl inp)) \<and>
     set (map fst (ceiling_items dl inp)) = set (eligible_edges dl inp) \<and>
     length ceils = length (eligible_edges dl inp) \<and>
     (\<forall>a. \<forall>k \<in> set (eligible_edges dl inp).
        var_ok a (shipment_var (fst k) (snd k)) \<longleftrightarrow>
          0 \<le> a (Shipment (fst k) (snd k)) \<and> is_integral (a (Shipment (fst k) (snd k))))"
proof -
  let ?ks = "eligible_edges dl inp"
  let ?sh = "LpVariable_dicts Shipment ?ks (Some 0) None LpInteger"
  have sh: "?sh = map (\<lambda>k. (k, shipment_var (fst k) (snd k))) ?ks"
    by (simp add: LpVariable_dicts_def shipment_var_def)
  from assms(1) obtain cost_terms ts caps ceils where
    ne: "get_valid_routes dl inp \<noteq> []"
    and cv: "cost_vars = ?sh"
    and ts: "mapM (weight_term cost_vars (vehicle_capacities dl)) ?ks = Inr ts"
    and caps: "mapM (capacity_constraint (warehouse_info dl) (vehicle_capacities dl) cost_vars
             ?ks) (selected_warehouses inp) = Inr caps"
    and ceils: "mapM (vehicle_constraint cost_vars) (max_vehicles inp) = Inr ceils"
    and cm: "cost_model = \<lparr>p_name = ''Cost_Minimization'', objective = Some (lpSum cost_terms),
              constraints =
                Constraint ''Total_Demand'' (lpSum ts) GE (Num (of_int (total_demand inp))) #
                concat caps @ concat ceils\<rparr>"
    by (rule build_cost_model_SomeD)
  from assms(2) obtain route_info lead_times links mts ts' caps' ceils' where
    ril: "route_info_loop dl (get_valid_routes dl inp) ([], []) = Inr (route_info, lead_times)"
    and tv: "time_vars = LpVariable_dicts Shipment (keys route_info) (Some 0) None LpInteger"
    and ts': "mapM (weight_term time_vars (vehicle_capacities dl)) (keys route_info) = Inr ts'"
    and caps': "mapM (capacity_constraint (warehouse_info dl) (vehicle_capacities dl) time_vars
             (keys route_info)) (selected_warehouses inp) = Inr caps'"
    and ceils': "mapM (vehicle_constraint time_vars) (max_vehicles inp) = Inr ceils'"
    and tm: "time_model = \<lparr>p_name = ''Time_Minimization'', objective = Some (Var max_time),
              constraints =
                concat links @ concat mts @
                Constraint ''Total_Demand'' (lpSum ts') GE (Num (of_int (total_demand inp))) #
                concat caps' @ concat ceils'\<rparr>"
    by (rule build_time_model_SomeD)
  have ri: "keys route_info = ?ks"
    using route_info_is_route_costs [OF ril] by (simp add: eligible_edges_def)
  have tvc: "time_vars = cost_vars" by (simp only: tv cv ri)
  have same: "ts' = ts" "caps' = caps" "ceils' = ceils"
    using ts ts' caps caps' ceils ceils' unfolding tvc ri by simp_all
  let ?d = "Constraint ''Total_Demand'' (lpSum ts) GE (Num (of_int (total_demand inp)))"
  have nonempty: "?ks \<noteq> []"
  proof
    assume "?ks = []"
    then have "set ?ks = {}" by simp
    then have "set (get_valid_routes dl inp) = {}"
      unfolding set_eligible_edges by simp
    with ne show False by simp
  qed
  have cshape: "constraints cost_model = ?d # concat caps @ concat ceils"
    by (simp add: cm)
  have tshape: "constraints time_model = (concat links @ concat mts) @ ?d # concat caps @ concat ceils"
    by (simp add: tm same)
  have dc: "distinct (map (\<lambda>c. tr (c_name c)) (constraints cost_model))"
    by (rule build_cost_model_distinct [OF assms(1)])
  have dt: "distinct (map (\<lambda>c. tr (c_name c)) (constraints time_model))"
    by (rule build_time_model_distinct [OF assms(2)])
  have dsem: "\<forall>a. holds a ?d \<longleftrightarrow> of_int (total_demand inp) \<le> shipped_weight dl a ?ks"
    using mapM_weight_term_eval [OF ts [unfolded cv]] by (simp add: holds_def)
  have crel: "list_all2 (\<lambda>wh c. c_name c = ''Capacity_'' @ wh \<and>
         (\<forall>a. holds a c \<longleftrightarrow>
            shipped_weight dl a (filter (\<lambda>k. fst k = wh) ?ks) \<le> available_capacity dl wh))
       (capacity_warehouses dl inp) (concat caps)"
    using capacity_constraints_char [OF caps [unfolded cv]]
    by (simp only: capacity_warehouses_def)
  have vrel: "list_all2 (\<lambda>kv c. c_name c = ''Max_Vehicles_'' @ fst (fst kv) @ ''_'' @ snd (fst kv) \<and>
         (\<forall>a. holds a c \<longleftrightarrow> a (Shipment (fst (fst kv)) (snd (fst kv))) \<le> of_int (snd kv)))
       (ceiling_items dl inp) (concat ceils)"
    using vehicle_constraints_char [OF ceils [unfolded cv]]
    by (simp only: ceiling_items_def)
  have "distinct (map (\<lambda>c. tr (c_name c)) (concat ceils))"
    using dc unfolding cshape by simp
  from ceiling_names_distinct_keys [OF vrel this]
  have dk: "distinct (map fst (ceiling_items dl inp))" .
  note ci = ceiling_items_edges [OF dk]
  have len: "length (concat ceils) = length ?ks"
    using list_all2_lengthD [OF vrel] ci(2) by simp
  have vars: "\<forall>a. \<forall>k \<in> set ?ks. var_ok a (shipment_var (fst k) (snd k)) \<longleftrightarrow>
          0 \<le> a (Shipment (fst k) (snd k)) \<and> is_integral (a (Shipment (fst k) (snd k)))"
    by (simp add: var_ok_def shipment_var_def)
  have cvs: "cost_vars = map (\<lambda>k. (k, shipment_var (fst k) (snd k))) ?ks"
    by (simp only: cv sh)
  have dn: "c_name ?d = ''Total_Demand''" by simp
  show ?thesis
    by (intro exI [of _ "concat links @ concat mts"] exI [of _ ?d] exI [of _ "concat caps"]
          exI [of _ "concat ceils"] conjI)
       (rule nonempty cvs tvc cshape tshape dc dt dn dsem crel vrel dk ci(1) len vars)+
qed


theorem shared_constraints_both_programs_witness:
  "build_cost_model id scenario_dl scenario_input =
     Inr (Some (scenario_cost_program, scenario_shipments)) \<and>
   build_time_model id scenario_dl scenario_input =
     Inr (Some (scenario_time_program, scenario_shipments, max_time_var)) \<and>
   scenario_shipments =
     map (\<lambda>k. (k, shipment_var (fst k) (snd k))) (eligible_edges scenario_dl scenario_input) \<and>
   (\<exists>links demand caps ceils.
      constraints scenario_cost_program = demand # caps @ ceils \<and>
      constraints scenario_time_program = links @ demand # caps @ ceils \<and>
      c_name demand = ''Total_Demand'' \<and>
      length ceils = length (eligible_edges scenario_dl scenario_input))"
proof -
  from shared_constraints_both_programs [OF scenario_build_cost_id scenario_build_time_id]
  obtain links demand caps ceils where
    "scenario_shipments =
       map (\<lambda>k. (k, shipment_var (fst k) (snd k))) (eligible_edges scenario_dl scenario_input)"
    "constraints scenario_cost_program = demand # caps @ ceils"
    "constraints scenario_time_program = links @ demand # caps @ ceils"
    "c_name demand = ''Total_Demand''"
    "length ceils = length (eligible_edges scenario_dl scenario_input)"
    by blast
  then show ?thesis
    using scenario_build_cost_id scenario_build_time_id by blast
qed

lemma partial_valid_routes:
  "get_valid_routes scenario_dl partial_input = [(''A'', ''Rail'', 80), (''A'', ''Truck'', 100)]"
  by (simp add: get_valid_routes_def scenario_dl_def partial_input_def keys_def
      py_strip_names Let_def)

lemma partial_edges:
  "eligible_edges scenario_dl partial_input = [(''A'', ''Rail''), (''A'', ''Truck'')]"
  unfolding eligible_edges_def partial_valid_routes
  by (simp add: route_costs_of_def py_dict_def keys_def)

lemmas builder_eval =
  route_costs_of_def py_dict_def keys_def find_route_def big_M_def py_max_def
  LpVariable_dicts_def cost_term_def getitem_def add_constraints_def warehouse_info_def
  vehicle_capacities_def weight_term_def add_constraint_def set_objective_def
  capacity_constraint_def vehicle_constraint_def link_constraints_def max_time_constraint_def
  Let_def

lemma partial_cost_constraints:
  "cost_constraints id scenario_dl partial_input =
     [Constraint ''Total_Demand''
        (lpSum [Scale 50 (Var (shipment_var ''A'' ''Rail'')),
                Scale 10 (Var (shipment_var ''A'' ''Truck''))]) GE (Num 300),
      Constraint ''Capacity_A''
        (lpSum [Scale 50 (Var (shipment_var ''A'' ''Rail'')),
                Scale 10 (Var (shipment_var ''A'' ''Truck''))]) LE (Num 800),
      Constraint ''Capacity_B'' (lpSum []) LE (Num 500),
      Constraint ''Max_Vehicles_A_Rail'' (Var (shipment_var ''A'' ''Rail'')) LE (Num 10),
      Constraint ''Max_Vehicles_A_Truck'' (Var (shipment_var ''A'' ''Truck'')) LE (Num 20)]"
  unfolding cost_constraints_def build_cost_model_def partial_valid_routes
  by (simp add: scenario_dl_def partial_input_def builder_eval shipment_var_def)

lemma partial_time_names:
  "map c_name (time_constraints id scenario_dl partial_input) =
     [''Route_Used_Lower_A_Rail'', ''Route_Used_Upper_A_Rail'',
      ''Route_Used_Lower_A_Truck'', ''Route_Used_Upper_A_Truck'',
      ''Max_Time_A_Rail'', ''Max_Time_A_Truck'',
      ''Total_Demand'', ''Capacity_A'', ''Capacity_B'',
      ''Max_Vehicles_A_Rail'', ''Max_Vehicles_A_Truck'']"
  unfolding time_constraints_def build_time_model_def partial_valid_routes
  by (simp add: scenario_dl_def partial_input_def builder_eval)

lemma unlisted_valid_routes:
  "get_valid_routes unlisted_dl unlisted_input = [(''A'', ''Truck'', 100), (''C'', ''Truck'', 120)]"
  by (simp add: get_valid_routes_def unlisted_dl_def unlisted_input_def keys_def
      py_strip_names Let_def)

lemma unlisted_edges:
  "eligible_edges unlisted_dl unlisted_input = [(''A'', ''Truck''), (''C'', ''Truck'')]"
  unfolding eligible_edges_def unlisted_valid_routes
  by (simp add: route_costs_of_def py_dict_def keys_def)

lemma unlisted_cost_names:
  "map c_name (cost_constraints id unlisted_dl unlisted_input) =
     [''Total_Demand'', ''Capacity_A'', ''Max_Vehicles_A_Truck'', ''Max_Vehicles_C_Truck'']"
  unfolding cost_constraints_def build_cost_model_def unlisted_valid_routes
  by (simp add: unlisted_dl_def unlisted_input_def builder_eval)

lemma unlisted_time_names:
  "map c_name (time_constraints id unlisted_dl unlisted_input) =
     [''Route_Used_Lower_A_Truck'', ''Route_Used_Upper_A_Truck'',
      ''Route_Used_Lower_C_Truck'', ''Route_Used_Upper_C_Truck'',
      ''Max_Time_A_Truck'', ''Max_Time_C_Truck'',
      ''Total_Demand'', ''Capacity_A'', ''Max_Vehicles_A_Truck'', ''Max_Vehicles_C_Truck'']"
  unfolding time_constraints_def build_time_model_def unlisted_valid_routes
  by (simp add: unlisted_dl_def unlisted_input_def builder_eval)

lemma capacity_names:
  "map c_name (filter is_capacity_constraint cs) =
     filter (\<lambda>n. take 9 n = ''Capacity_'') (map c_name cs)"
  by (induction cs) (simp_all add: is_capacity_constraint_def)

lemma repeated_valid_routes:
  "get_valid_routes scenario_dl repeated_input = [(''A'', ''Rail'', 80), (''A'', ''Truck'', 100)]"
  by (simp add: get_valid_routes_def scenario_dl_def repeated_input_def keys_def
      py_strip_names Let_def)

lemma repeated_edges:
  "eligible_edges scenario_dl repeated_input = [(''A'', ''Rail''), (''A'', ''Truck'')]"
  unfolding eligible_edges_def repeated_valid_routes
  by (simp add: route_costs_of_def py_dict_def keys_def)

lemma repeated_cost_raises:
  "build_cost_model tr scenario_dl repeated_input = Inl PulpError"
  unfolding build_cost_model_def repeated_valid_routes
  by (simp add: scenario_dl_def repeated_input_def builder_eval)


lemma repeated_time_raises:
  "build_time_model tr scenario_dl repeated_input = Inl PulpError"
  unfolding build_time_model_def repeated_valid_routes
  by (simp add: scenario_dl_def repeated_input_def builder_eval)

text \<open>
  The claim as stated gives a capacity constraint to exactly the selected warehouses with
  an eligible edge, for every request with an eligible edge. On the request without
  vehicle limits for B, the edges are those of A only, yet both programs carry
  \<^verbatim>\<open>Capacity_B\<close>, with an empty sum on its left side. On the tables that do not list
  warehouse C, the edge (C, Truck) is eligible, yet neither program carries
  \<^verbatim>\<open>Capacity_C\<close>. On the request that selects A twice there are eligible edges, yet
  neither builder returns a program: the second \<^verbatim>\<open>Capacity_A\<close> raises \<^verbatim>\<open>PulpError\<close>,
  whatever the library's translation of names.
\<close>

theorem capacity_constraint_without_edge_counterexample:
  "(eligible_edges scenario_dl partial_input = [(''A'', ''Rail''), (''A'', ''Truck'')] \<and>
    selected_warehouses partial_input = [''A'', ''B''] \<and>
    spec_capacity_warehouses scenario_dl partial_input = [''A''] \<and>
    map c_name (filter is_capacity_constraint (cost_constraints id scenario_dl partial_input)) =
      [''Capacity_A'', ''Capacity_B''] \<and>
    map c_name (filter is_capacity_constraint (time_constraints id scenario_dl partial_input)) =
      [''Capacity_A'', ''Capacity_B''] \<and>
    Constraint ''Capacity_B'' (lpSum []) LE (Num 500)
      \<in> set (cost_constraints id scenario_dl partial_input)) \<and>
   (eligible_edges unlisted_dl unlisted_input = [(''A'', ''Truck''), (''C'', ''Truck'')] \<and>
    selected_warehouses unlisted_input = [''A'', ''C''] \<and>
    map warehouse_name (warehouses unlisted_dl) = [''A''] \<and>
    spec_capacity_warehouses unlisted_dl unlisted_input = [''A'', ''C''] \<and>
    map c_name (filter is_capacity_constraint (cost_constraints id unlisted_dl unlisted_input)) =
      [''Capacity_A''] \<and>
    map c_name (filter is_capacity_constraint (time_constraints id unlisted_dl unlisted_input)) =
      [''Capacity_A'']) \<and>
   (eligible_edges scenario_dl repeated_input = [(''A'', ''Rail''), (''A'', ''Truck'')] \<and>
    selected_warehouses repeated_input = [''A'', ''A''] \<and>
    (\<forall>tr. build_cost_model tr scenario_dl repeated_input = Inl PulpError) \<and>
    (\<forall>tr. build_time_model tr scenario_dl repeated_input = Inl PulpError))"
proof -
  have p1: "map c_name (filter is_capacity_constraint (cost_constraints id scenario_dl partial_input)) =
      [''Capacity_A'', ''Capacity_B'']"
    unfolding partial_cost_constraints by (simp add: is_capacity_constraint_def)
  have p2: "map c_name (filter is_capacity_constraint (time_constraints id scenario_dl partial_input)) =
      [''Capacity_A'', ''Capacity_B'']"
    unfolding capacity_names partial_time_names by simp
  have p3: "Constraint ''Capacity_B'' (lpSum []) LE (Num 500)
      \<in> set (cost_constraints id scenario_dl partial_input)"
    unfolding partial_cost_constraints by simp
  have p4: "selected_warehouses partial_input = [''A'', ''B'']"
    by (simp add: partial_input_def)
  have p5: "spec_capacity_warehouses scenario_dl partial_input = [''A'']"
    unfolding spec_capacity_warehouses_def partial_edges p4 by simp
  have u1: "map c_name (filter is_capacity_constraint (cost_constraints id unlisted_dl unlisted_input)) =
      [''Capacity_A'']"
    unfolding capacity_names unlisted_cost_names by simp
  have u2: "map c_name (filter is_capacity_constraint (time_constraints id unlisted_dl unlisted_input)) =
      [''Capacity_A'']"
    unfolding capacity_names unlisted_time_names by simp
  have u3: "selected_warehouses unlisted_input = [''A'', ''C'']"
    by (simp add: unlisted_input_def)
  have u4: "spec_capacity_warehouses unlisted_dl unlisted_input = [''A'', ''C'']"
    unfolding spec_capacity_warehouses_def unlisted_edges u3 by simp
  have u5: "map warehouse_name (warehouses unlisted_dl) = [''A'']"
    by (simp add: unlisted_dl_def)
  have r1: "selected_warehouses repeated_input = [''A'', ''A'']"
    by (simp add: repeated_input_def)
  have r2: "\<forall>tr. build_cost_model tr scenario_dl repeated_input = Inl PulpError"
    using repeated_cost_raises by blast
  have r3: "\<forall>tr. build_time_model tr scenario_dl repeated_input = Inl PulpError"
    using repeated_time_raises by blast
  show ?thesis
    by (intro conjI)
       (rule partial_edges p1 p2 p3 p4 p5 unlisted_edges u1 u2 u3 u4 u5 repeated_edges r1 r2 r3)+
qed

end
